(* ===== verification/Prelude.thy ===== *)
theory Prelude
  imports
    Complex_Main
    "HOL-Library.Word"
    "HOL-Library.Multiset"
    "HOL-Library.List_Lexorder"
    "HOL-Library.Char_ord"
begin

text \<open>
  Shared vocabulary of the development: the collections of proof hints, the list
  operations that the C++ code takes from the standard library
  (\<open>std::find_if\<close>, \<open>list::erase\<close>, \<open>list::sort\<close>, \<open>std::set_difference\<close>) and the
  lemmas about them that every component uses.
\<close>

named_theorems inv_intros \<open>preservation of the components' invariants\<close>
named_theorems frame_simps \<open>fields that an operation leaves alone\<close>

section \<open>Searching a list, changing or erasing the element found\<close>

text \<open>
  \<open>std::find_if\<close> followed by a use of the iterator: \<open>List.find\<close> is the search,
  \<open>update_first\<close> writes through the iterator, \<open>erase_first\<close> is \<open>list::erase\<close>.
\<close>

fun update_first :: "('a \<Rightarrow> bool) \<Rightarrow> ('a \<Rightarrow> 'a) \<Rightarrow> 'a list \<Rightarrow> 'a list" where
  "update_first P f [] = []"
| "update_first P f (x # xs) = (if P x then f x # xs else x # update_first P f xs)"

fun erase_first :: "('a \<Rightarrow> bool) \<Rightarrow> 'a list \<Rightarrow> 'a list" where
  "erase_first P [] = []"
| "erase_first P (x # xs) = (if P x then xs else x # erase_first P xs)"

lemma find_None_all: "find P xs = None \<longleftrightarrow> (\<forall>x\<in>set xs. \<not> P x)"
  by (induction xs) auto

lemma find_SomeD: "find P xs = Some x \<Longrightarrow> x \<in> set xs \<and> P x"
  by (induction xs) (auto split: if_splits)

lemma find_append: "find P (xs @ ys) = (case find P xs of None \<Rightarrow> find P ys | Some x \<Rightarrow> Some x)"
  by (induction xs) auto

lemma length_update_first [simp]: "length (update_first P f xs) = length xs"
  by (induction xs) auto

lemma update_first_id: "find P xs = None \<Longrightarrow> update_first P f xs = xs"
  by (induction xs) (auto split: if_splits)

lemma erase_first_id: "find P xs = None \<Longrightarrow> erase_first P xs = xs"
  by (induction xs) (auto split: if_splits)

lemma set_update_first: "set (update_first P f xs) \<subseteq> set xs \<union> f ` {x \<in> set xs. P x}"
  by (induction xs) auto

lemma set_erase_first: "set (erase_first P xs) \<subseteq> set xs"
  by (induction xs) auto

lemma map_update_first_same:
  "(\<And>x. P x \<Longrightarrow> g (f x) = g x) \<Longrightarrow> map g (update_first P f xs) = map g xs"
  by (induction xs) auto

lemma distinct_erase_first: "distinct (map g xs) \<Longrightarrow> distinct (map g (erase_first P xs))"
proof (induction xs)
  case (Cons x xs)
  then show ?case using set_erase_first [of P xs] by auto
qed simp

lemma length_erase_first:
  "find P xs = Some x \<Longrightarrow> length (erase_first P xs) = length xs - 1"
proof (induction xs)
  case (Cons y ys)
  then show ?case by (cases ys) (auto split: if_splits)
qed simp

subsection \<open>Lists with a key\<close>

text \<open>
  Most tables of the code are lists searched by a key. With distinct keys, the search
  is the lookup of a finite map.
\<close>

definition by_key :: "('a \<Rightarrow> 'k) \<Rightarrow> 'k \<Rightarrow> 'a list \<Rightarrow> 'a option" where
  "by_key key k xs = find (\<lambda>x. key x = k) xs"

lemma by_key_Nil [simp]: "by_key key k [] = None"
  by (simp add: by_key_def)

lemma by_key_Cons [simp]:
  "by_key key k (x # xs) = (if key x = k then Some x else by_key key k xs)"
  by (simp add: by_key_def)

lemma by_key_append:
  "by_key key k (xs @ ys) = (case by_key key k xs of None \<Rightarrow> by_key key k ys | Some x \<Rightarrow> Some x)"
  by (simp add: by_key_def find_append split: option.split)

lemma by_key_None: "by_key key k xs = None \<longleftrightarrow> k \<notin> key ` set xs"
  by (auto simp: by_key_def find_None_all)

lemma by_key_SomeD: "by_key key k xs = Some x \<Longrightarrow> x \<in> set xs \<and> key x = k"
  by (auto simp: by_key_def dest: find_SomeD)

lemma by_key_mem: "distinct (map key xs) \<Longrightarrow> x \<in> set xs \<Longrightarrow> by_key key (key x) xs = Some x"
  by (induction xs) (auto simp: image_iff)

lemma by_key_iff:
  "distinct (map key xs) \<Longrightarrow> by_key key k xs = Some x \<longleftrightarrow> x \<in> set xs \<and> key x = k"
  by (auto dest: by_key_SomeD by_key_mem)

lemma by_key_cong_set:
  assumes "distinct (map key xs)" and "distinct (map key ys)" and "set xs = set ys"
  shows "by_key key k xs = by_key key k ys"
proof (cases "by_key key k xs")
  case None
  with assms(3) show ?thesis by (metis by_key_None)
next
  case (Some x)
  with assms show ?thesis by (metis by_key_iff)
qed

lemma by_key_update_first:
  assumes "\<And>x. key (f x) = key x"
  shows "by_key key k (update_first (\<lambda>x. key x = k') f xs) =
    (if k = k' then map_option f (by_key key k xs) else by_key key k xs)"
  using assms by (induction xs) auto

lemma by_key_erase_first:
  assumes "distinct (map key xs)"
  shows "by_key key k (erase_first (\<lambda>x. key x = k') xs) =
    (if k = k' then None else by_key key k xs)"
  using assms
proof (induction xs)
  case (Cons x xs)
  then show ?case by (cases "key x = k'"; cases "key x = k") (simp_all add: by_key_None)
qed simp

lemma distinct_append_new:
  "distinct (map key xs) \<Longrightarrow> by_key key (key x) xs = None \<Longrightarrow> distinct (map key (xs @ [x]))"
  by (auto simp: by_key_None)

lemma set_update_first_key:
  assumes "distinct (map key xs)" and "by_key key k xs = Some x"
  shows "set (update_first (\<lambda>x. key x = k) f xs) = insert (f x) (set xs - {x})"
  using assms
proof (induction xs)
  case (Cons y ys)
  show ?case
  proof (cases "key y = k")
    case True
    with Cons.prems show ?thesis by auto
  next
    case False
    with Cons show ?thesis by (auto dest: by_key_SomeD)
  qed
qed simp

lemma set_erase_first_key:
  assumes "distinct (map key xs)"
  shows "set (erase_first (\<lambda>x. key x = k) xs) = {x \<in> set xs. key x \<noteq> k}"
  using assms by (induction xs) (auto simp: image_iff)

section \<open>Sorting with a comparator\<close>

text \<open>
  \<open>std::list::sort(lt)\<close> is a stable sort. For a strict weak order its result is
  determined, and stable insertion sort computes it.
\<close>

fun insert_by :: "('a \<Rightarrow> 'a \<Rightarrow> bool) \<Rightarrow> 'a \<Rightarrow> 'a list \<Rightarrow> 'a list" where
  "insert_by lt x [] = [x]"
| "insert_by lt x (y # ys) = (if lt y x then y # insert_by lt x ys else x # y # ys)"

definition stable_sort :: "('a \<Rightarrow> 'a \<Rightarrow> bool) \<Rightarrow> 'a list \<Rightarrow> 'a list" where
  "stable_sort lt xs = foldr (insert_by lt) xs []"

lemma stable_sort_simps [simp]:
  "stable_sort lt [] = []"
  "stable_sort lt (x # xs) = insert_by lt x (stable_sort lt xs)"
  by (simp_all add: stable_sort_def)

lemma mset_insert_by [simp]: "mset (insert_by lt x xs) = add_mset x (mset xs)"
  by (induction xs) auto

lemma mset_stable_sort [simp]: "mset (stable_sort lt xs) = mset xs"
  by (induction xs) auto

lemma set_stable_sort [simp]: "set (stable_sort lt xs) = set xs"
  by (metis mset_stable_sort set_mset_mset)

lemma length_stable_sort [simp]: "length (stable_sort lt xs) = length xs"
  by (metis mset_stable_sort size_mset)

lemma stable_sort_Nil_iff [simp]: "stable_sort lt xs = [] \<longleftrightarrow> xs = []"
  by (metis length_0_conv length_stable_sort)

lemma distinct_stable_sort [simp]:
  "distinct (map g (stable_sort lt xs)) = distinct (map g xs)"
  by (metis mset_eq_imp_distinct_iff mset_map mset_stable_sort)

locale strict_weak_order =
  fixes lt :: "'a \<Rightarrow> 'a \<Rightarrow> bool"
  assumes asym: "lt x y \<Longrightarrow> \<not> lt y x"
    and neg_trans: "\<not> lt x y \<Longrightarrow> \<not> lt y z \<Longrightarrow> \<not> lt x z"
begin

lemma irrefl: "\<not> lt x x"
  using asym by blast

lemma trans: "lt x y \<Longrightarrow> lt y z \<Longrightarrow> lt x z"
  using asym neg_trans by blast

lemma insert_by_sorted:
  assumes "sorted_wrt (\<lambda>x y. \<not> lt y x) xs"
  shows "sorted_wrt (\<lambda>x y. \<not> lt y x) (insert_by lt x xs)"
  using assms
proof (induction xs)
  case (Cons y ys)
  have m: "set (insert_by lt x ys) = insert x (set ys)"
    by (metis mset_insert_by set_mset_add_mset_insert set_mset_mset)
  show ?case
  proof (cases "lt y x")
    case True
    with Cons m show ?thesis by (auto dest: asym)
  next
    case False
    with Cons.prems have "\<forall>z\<in>set ys. \<not> lt z x"
      using neg_trans [of _ y x] by auto
    with False Cons.prems show ?thesis by simp
  qed
qed simp

lemma stable_sort_sorted: "sorted_wrt (\<lambda>x y. \<not> lt y x) (stable_sort lt xs)"
  by (induction xs) (simp_all add: insert_by_sorted)

lemma insert_by_front: "\<forall>y\<in>set xs. \<not> lt y x \<Longrightarrow> insert_by lt x xs = x # xs"
  by (cases xs) auto

lemma stable_sort_id: "sorted_wrt (\<lambda>x y. \<not> lt y x) xs \<Longrightarrow> stable_sort lt xs = xs"
  by (induction xs) (simp_all add: insert_by_front)

lemma stable_sort_idem: "stable_sort lt (stable_sort lt xs) = stable_sort lt xs"
  by (rule stable_sort_id) (rule stable_sort_sorted)

lemma sorted_unique:
  assumes total: "\<And>x y. x \<noteq> y \<Longrightarrow> lt x y \<or> lt y x"
    and "sorted_wrt (\<lambda>x y. \<not> lt y x) xs" and "sorted_wrt (\<lambda>x y. \<not> lt y x) ys"
    and "mset xs = mset ys"
  shows "xs = ys"
  using assms(2-)
proof (induction xs arbitrary: ys)
  case (Cons x xs)
  then obtain y ys' where ys: "ys = y # ys'"
    by (cases ys) auto
  have "x = y"
  proof (rule ccontr)
    assume ne: "x \<noteq> y"
    have "x \<in> set ys'" and "y \<in> set xs"
      using Cons.prems(3) ne ys by (metis list.set_intros(1) mset_eq_setD set_ConsD)+
    then have "\<not> lt x y" and "\<not> lt y x"
      using Cons.prems(1,2) ys by auto
    with total ne show False by blast
  qed
  with Cons ys show ?case by auto
qed simp

lemma stable_sort_perm:
  assumes "\<And>x y. x \<noteq> y \<Longrightarrow> lt x y \<or> lt y x" and "mset xs = mset ys"
  shows "stable_sort lt xs = stable_sort lt ys"
  by (rule sorted_unique [OF assms(1)]) (simp_all add: stable_sort_sorted assms(2))

end

section \<open>Set difference of sorted ranges\<close>

text \<open>\<open>std::set_difference\<close> on two ranges sorted by \<open>lt\<close>.\<close>

fun set_difference :: "('a \<Rightarrow> 'a \<Rightarrow> bool) \<Rightarrow> 'a list \<Rightarrow> 'a list \<Rightarrow> 'a list" where
  "set_difference lt [] ys = []"
| "set_difference lt (x # xs) [] = x # xs"
| "set_difference lt (x # xs) (y # ys) =
     (if lt x y then x # set_difference lt xs (y # ys)
      else if lt y x then set_difference lt (x # xs) ys
      else set_difference lt xs ys)"

lemma set_difference_sub: "set (set_difference lt xs ys) \<subseteq> set xs"
  by (induction lt xs ys rule: set_difference.induct) auto

section \<open>Results of code that an exception can leave\<close>

text \<open>\<open>Inl\<close> of the exception or \<open>Inr\<close> of the value.\<close>

definition and_then :: "'e + 'a \<Rightarrow> ('a \<Rightarrow> 'e + 'b) \<Rightarrow> 'e + 'b" where
  "and_then r f = (case r of Inl e \<Rightarrow> Inl e | Inr x \<Rightarrow> f x)"

definition require :: "'e \<Rightarrow> 'a option \<Rightarrow> 'e + 'a" where
  "require e r = (case r of None \<Rightarrow> Inl e | Some x \<Rightarrow> Inr x)"

lemma and_then_Inr_iff: "and_then r f = Inr y \<longleftrightarrow> (\<exists>x. r = Inr x \<and> f x = Inr y)"
  by (simp add: and_then_def split: sum.split)

lemma and_then_simps [simp]: "and_then (Inr x) f = f x" "and_then (Inl e) f = Inl e"
  by (simp_all add: and_then_def)

lemma require_simps [simp]: "require e (Some x) = Inr x" "require e None = Inl e"
  by (simp_all add: require_def)

lemma require_Inr_iff: "require e r = Inr x \<longleftrightarrow> r = Some x"
  by (simp add: require_def split: option.split)

text \<open>
  The state that an exception leaves behind: no exception or the exception, and the state at
  this point.
\<close>

type_synonym ('e, 's) outcome = "'e option \<times> 's"

definition continue :: "('e, 's) outcome \<Rightarrow> ('s \<Rightarrow> ('e, 't) outcome) \<Rightarrow> ('s \<Rightarrow> 't) \<Rightarrow> ('e, 't) outcome" where
  "continue r f stop = (case r of (None, s) \<Rightarrow> f s | (Some e, s) \<Rightarrow> (Some e, stop s))"

abbreviation and_next :: "('e, 's) outcome \<Rightarrow> ('s \<Rightarrow> ('e, 's) outcome) \<Rightarrow> ('e, 's) outcome" where
  "and_next r f \<equiv> continue r f (\<lambda>s. s)"

definition with_value :: "'e + 'v \<Rightarrow> 's \<Rightarrow> ('v \<Rightarrow> ('e, 's) outcome) \<Rightarrow> ('e, 's) outcome" where
  "with_value r s f = (case r of Inl e \<Rightarrow> (Some e, s) | Inr v \<Rightarrow> f v)"

lemma continue_simps [simp]: "continue (None, s) f g = f s" "continue (Some e, s) f g = (Some e, g s)"
  by (simp_all add: continue_def)

lemma with_value_simps [simp]: "with_value (Inr v) s f = f v" "with_value (Inl e) s f = (Some e, s)"
  by (simp_all add: with_value_def)

section \<open>Bytes\<close>

type_synonym bytes = "8 word list"

definition bytes_of :: "string \<Rightarrow> bytes" where
  "bytes_of s = map of_char s"

definition string_of :: "bytes \<Rightarrow> string" where
  "string_of bs = map (\<lambda>b. char_of (unat b)) bs"

lemma string_of_bytes [simp]: "string_of (bytes_of s) = s"
proof -
  have "char_of (unat (of_char c :: 8 word)) = c" for c
  proof -
    have "(of_char c :: nat) < 256" by simp
    then have "unat (of_nat (of_char c) :: 8 word) = of_char c" by (simp only: unsigned_of_nat) (simp add: take_bit_nat_eq_self)
    then have "unat (of_char c :: 8 word) = of_char c" by (simp only: of_nat_of_char)
    then show ?thesis by simp
  qed
  then show ?thesis by (simp add: string_of_def bytes_of_def comp_def)
qed

lemma length_bytes_of [simp]: "length (bytes_of s) = length s"
  by (simp add: bytes_of_def)

end
