(* ===== verification/Names.thy ===== *)
theory Names
  imports Prelude
begin

text \<open>
  NDN names and the parts of ndn-cxx and boost the program computes with.

  A name is the sequence of its components, a component the string of its bytes. Every
  other library function the code calls is a field of the record \<open>ndn_lib\<close>, which is an
  argument of the definitions that use it; the laws about these functions that a
  property rests on are the predicates \<open>name_order_ok\<close>, \<open>name_slices_ok\<close> and
  \<open>codec_ok\<close>, which state documented behaviour of the libraries.
\<close>

type_synonym component = string
type_synonym name = "component list"
type_synonym time_point = int  \<comment> \<open>nanoseconds of a clock\<close>

record ndn_lib =
  nameLess :: "name \<Rightarrow> name \<Rightarrow> bool"         \<comment> \<open>\<open>operator<\<close> on names\<close>
  compAt :: "name \<Rightarrow> int \<Rightarrow> component"         \<comment> \<open>\<open>name[i]\<close>, negative from the end\<close>
  getSubName :: "name \<Rightarrow> nat \<Rightarrow> nat \<Rightarrow> name"   \<comment> \<open>start and number of components\<close>
  getPrefix :: "name \<Rightarrow> int \<Rightarrow> name"
  toUri :: "name \<Rightarrow> string"
  ofUri :: "string \<Rightarrow> name option"            \<comment> \<open>\<open>None\<close>: the constructor throws\<close>
  compToUri :: "component \<Rightarrow> string"
  numberComp :: "64 word \<Rightarrow> component"         \<comment> \<open>\<open>appendNumber\<close>\<close>
  compNumber :: "component \<Rightarrow> 64 word option"  \<comment> \<open>\<open>toNumber\<close>; \<open>None\<close>: it throws\<close>
  nameBlock :: "name \<Rightarrow> component"             \<comment> \<open>\<open>append(name.wireEncode())\<close>\<close>
  blockName :: "component \<Rightarrow> name option"      \<comment> \<open>\<open>wireDecode(blockFromValue())\<close>\<close>
  tokens :: "string \<Rightarrow> string list"            \<comment> \<open>\<open>boost::tokenizer\<close> with separator \<open>|\<close>\<close>
  showNat :: "nat \<Rightarrow> string"                   \<comment> \<open>\<open>lexical_cast<string>\<close> of an unsigned\<close>
  readU32 :: "string \<Rightarrow> 32 word option"        \<comment> \<open>\<open>lexical_cast<uint32_t>\<close>\<close>
  showDouble :: "real \<Rightarrow> string"
  readDouble :: "string \<Rightarrow> real option"        \<comment> \<open>\<open>lexical_cast<double>\<close>\<close>
  isoString :: "time_point \<Rightarrow> string"
  fromIso :: "string \<Rightarrow> time_point option"
  routeFlagCapture :: "64 word"                \<comment> \<open>\<open>ndn::nfd::ROUTE_FLAG_CAPTURE\<close>\<close>

text \<open>\<open>operator<\<close> of names is a strict total order.\<close>

definition name_order_ok :: "ndn_lib \<Rightarrow> bool" where
  "name_order_ok L \<longleftrightarrow> strict_weak_order (nameLess L) \<and>
     (\<forall>m n. m \<noteq> n \<longrightarrow> nameLess L m n \<or> nameLess L n m)"

text \<open>Component access and slices inside the name are those of the sequence.\<close>

definition name_slices_ok :: "ndn_lib \<Rightarrow> bool" where
  "name_slices_ok L \<longleftrightarrow>
     (\<forall>n i. i < length n \<longrightarrow> compAt L n (int i) = n ! i) \<and>
     (\<forall>n i. 0 < i \<and> i \<le> length n \<longrightarrow> compAt L n (- int i) = n ! (length n - i)) \<and>
     (\<forall>n i k. i + k \<le> length n \<longrightarrow> getSubName L n i k = take k (drop i n)) \<and>
     (\<forall>n k. 0 < k \<and> k \<le> length n \<longrightarrow> getPrefix L n (- int k) = take (length n - k) n)"

text \<open>
  What is written by a conversion is read back by its inverse, no written field is empty
  or contains the separator, and the tokenizer splits at the separators. A time is written
  with its microseconds; a \<open>double\<close> is exact for the integers below \<open>2\<^sup>5\<^sup>3\<close>.
\<close>

definition field_ok :: "string \<Rightarrow> bool" where
  "field_ok s \<longleftrightarrow> s \<noteq> [] \<and> CHR ''|'' \<notin> set s"

definition time_ok :: "time_point \<Rightarrow> bool" where
  "time_ok t \<longleftrightarrow> 0 \<le> t \<and> t < 2 ^ 63 \<and> t mod 1000 = 0"

definition codec_ok :: "ndn_lib \<Rightarrow> bool" where
  "codec_ok L \<longleftrightarrow>
     (\<forall>n. ofUri L (toUri L n) = Some n \<and> field_ok (toUri L n)) \<and>
     (\<forall>k. field_ok (showNat L k)) \<and>
     (\<forall>w. readU32 L (showNat L (unat w)) = Some w) \<and>
     (\<forall>w :: 64 word. unat w < 2 ^ 53 \<longrightarrow> readDouble L (showNat L (unat w)) = Some (real (unat w))) \<and>
     (\<forall>t. time_ok t \<longrightarrow> fromIso L (isoString L t) = Some t \<and> field_ok (isoString L t)) \<and>
     (\<forall>ts. list_all field_ok ts \<longrightarrow> tokens L (concat (map (\<lambda>t. t @ ''|'') ts)) = ts)"

lemma name_order_swo: "name_order_ok L \<Longrightarrow> strict_weak_order (nameLess L)"
  by (simp add: name_order_ok_def)

lemma name_order_total:
  "name_order_ok L \<Longrightarrow> m \<noteq> n \<Longrightarrow> nameLess L m n \<or> nameLess L n m"
  by (simp add: name_order_ok_def)

lemmas slice_laws = name_slices_ok_def

lemma codec_laws:
  assumes "codec_ok L"
  shows "ofUri L (toUri L n) = Some n" and "field_ok (toUri L n)"
    and "field_ok (showNat L k)" and "readU32 L (showNat L (unat w)) = Some w"
    and "unat (c :: 64 word) < 2 ^ 53 \<Longrightarrow> readDouble L (showNat L (unat c)) = Some (real (unat c))"
    and "time_ok t \<Longrightarrow> fromIso L (isoString L t) = Some t"
    and "time_ok t \<Longrightarrow> field_ok (isoString L t)"
    and "list_all field_ok ts \<Longrightarrow> tokens L (concat (map (\<lambda>t. t @ ''|'') ts)) = ts"
  using assms by (simp_all add: codec_ok_def)

text \<open>
  The URI of a component that needs no escaping is the component, and appending such a
  component to the URI of a name, which is not the root, appends it to the name.
\<close>

definition plain_components :: "component set" where
  "plain_components = {''name'', ''adjacency'', ''coordinate'', ''INFO'', ''ID-CERT''}"

definition component_uri_ok :: "ndn_lib \<Rightarrow> bool" where
  "component_uri_ok L \<longleftrightarrow>
     (\<forall>c. \<forall>t\<in>plain_components. compToUri L c = t \<longleftrightarrow> c = t) \<and>
     (\<forall>n. \<forall>t\<in>plain_components. n \<noteq> [] \<longrightarrow> ofUri L (toUri L n @ ''/'' @ t) = Some (n @ [t])) \<and>
     (\<forall>w. compNumber L (numberComp L w) = Some w) \<and>
     (\<forall>n. blockName L (nameBlock L n) = Some n)"

section \<open>Looking for a component\<close>

text \<open>\<open>util::getNameComponentPosition\<close> (src/utility/name-helper.hpp).\<close>

fun componentPositionFrom :: "nat \<Rightarrow> name \<Rightarrow> component \<Rightarrow> int" where
  "componentPositionFrom i [] c = -1"
| "componentPositionFrom i (x # xs) c =
     (if c = x then int i else componentPositionFrom (Suc i) xs c)"

definition getNameComponentPosition :: "name \<Rightarrow> string \<Rightarrow> int" where
  "getNameComponentPosition n s = componentPositionFrom 0 n s"

lemma componentPositionFrom_prefix:
  "c \<notin> set xs \<Longrightarrow> componentPositionFrom i (xs @ c # ys) c = int (i + length xs)"
  by (induction xs arbitrary: i) auto

lemma getNameComponentPosition_prefix:
  "c \<notin> set xs \<Longrightarrow> getNameComponentPosition (xs @ c # ys) c = int (length xs)"
  by (simp add: getNameComponentPosition_def componentPositionFrom_prefix)

lemma componentPositionFrom_absent:
  "componentPositionFrom i xs c = -1 \<longleftrightarrow> c \<notin> set xs"
  by (induction xs arbitrary: i) auto

end
