(* ===== verification/Demo_Library.thy ===== *)
theory Demo_Library
  imports Names
begin

text \<open>
  One implementation of the library record, which satisfies the laws of Names: names
  written with their components after a slash, the three special characters escaped,
  numbers in decimal. It shows that the laws can hold together and is what the examples
  of the properties are computed with; it is not the wire format of ndn-cxx.
\<close>

fun escapeChar :: "char \<Rightarrow> string" where
  "escapeChar ch = (if ch = CHR ''/'' then ''%s'' else if ch = CHR ''%'' then ''%p''
     else if ch = CHR ''|'' then ''%b'' else [ch])"

fun unescape :: "string \<Rightarrow> string" where
  "unescape [] = []"
| "unescape [ch] = (if ch = CHR ''%'' then [] else [ch])"
| "unescape (a # b # s) = (if a = CHR ''%''
     then (if b = CHR ''s'' then CHR ''/'' else if b = CHR ''p'' then CHR ''%'' else CHR ''|'') # unescape s
     else a # unescape (b # s))"

definition escape :: "component \<Rightarrow> string" where
  "escape c = (if c = [] then ''%'' else concat (map escapeChar c))"

lemma unescape_plain: "a \<noteq> CHR ''%'' \<Longrightarrow> unescape (a # s) = a # unescape s"
  by (cases s) simp_all

lemma unescape_escape [simp]: "unescape (escape c) = c"
proof -
  have "unescape (concat (map escapeChar c)) = c"
    by (induction c) (auto simp: unescape_plain)
  then show ?thesis by (simp add: escape_def)
qed

lemma escapeChar_chars:
  "CHR ''/'' \<notin> set (escapeChar ch)" "CHR ''|'' \<notin> set (escapeChar ch)" "escapeChar ch \<noteq> []"
  by simp_all

lemma escape_chars: "CHR ''/'' \<notin> set (escape c)" "CHR ''|'' \<notin> set (escape c)" "escape c \<noteq> []"
  using escapeChar_chars by (auto simp: escape_def simp del: escapeChar.simps)

text \<open>Splitting at a separator.\<close>

fun splitOn :: "char \<Rightarrow> string \<Rightarrow> string list" where
  "splitOn sep [] = [[]]"
| "splitOn sep (c # s) = (if c = sep then [] # splitOn sep s
     else case splitOn sep s of [] \<Rightarrow> [[c]] | w # ws \<Rightarrow> (c # w) # ws)"

lemma splitOn_nonempty [simp]: "splitOn sep s \<noteq> []"
  by (cases s) (auto split: list.split)

lemma splitOn_none: "sep \<notin> set w \<Longrightarrow> splitOn sep w = [w]"
  by (induction w) auto

lemma splitOn_append: "sep \<notin> set w \<Longrightarrow> splitOn sep (w @ sep # s) = w # splitOn sep s"
  by (induction w) auto

definition demoUri :: "name \<Rightarrow> string" where
  "demoUri n = (if n = [] then ''/'' else concat (map (\<lambda>c. CHR ''/'' # escape c) n))"

definition demoParse :: "string \<Rightarrow> name option" where
  "demoParse s = (case s of [] \<Rightarrow> None
     | c # r \<Rightarrow> if c = CHR ''/'' then (if r = [] then Some [] else Some (map unescape (splitOn CHR ''/'' r)))
       else None)"

lemma splitOn_components:
  "splitOn CHR ''/'' (escape c @ concat (map (\<lambda>c. CHR ''/'' # escape c) cs)) = escape c # map escape cs"
  by (induction cs arbitrary: c) (simp_all add: splitOn_none escape_chars splitOn_append)

lemma demoParse_components: "demoParse (concat (map (\<lambda>c. CHR ''/'' # escape c) (c # cs))) = Some (c # cs)"
  using escape_chars(3) [of c]
  by (simp add: demoParse_def splitOn_components o_def)

lemma demoParse_demoUri: "demoParse (demoUri n) = Some n"
  by (cases n) (simp_all add: demoUri_def demoParse_components del: list.map concat.simps, simp add: demoParse_def)

text \<open>Decimal numbers.\<close>

fun demoDigits :: "nat \<Rightarrow> string" where
  "demoDigits n = (if n < 10 then [char_of (48 + n)] else demoDigits (n div 10) @ [char_of (48 + n mod 10)])"

declare demoDigits.simps [simp del]

definition demoValue :: "string \<Rightarrow> nat" where
  "demoValue s = foldl (\<lambda>a ch. 10 * a + (of_char ch - 48)) 0 s"

lemma demoValue_digits: "demoValue (demoDigits n) = n"
proof (induction n rule: demoDigits.induct)
  case (1 n)
  then show ?case
    by (subst demoDigits.simps) (simp add: demoValue_def of_char_of)
qed

definition isDigits :: "string \<Rightarrow> bool" where
  "isDigits s \<longleftrightarrow> s \<noteq> [] \<and> list_all (\<lambda>ch. 48 \<le> (of_char ch :: nat) \<and> (of_char ch :: nat) \<le> 57) s"

lemma isDigits_digits: "isDigits (demoDigits n)"
proof (induction n rule: demoDigits.induct)
  case (1 n)
  have "n mod 10 < 10" by simp
  with 1 show ?case
    by (subst demoDigits.simps) (auto simp: isDigits_def of_char_of)
qed

lemma isDigits_field: "isDigits s \<Longrightarrow> field_ok s"
  by (auto simp: isDigits_def field_ok_def list_all_iff)

definition demo_lib :: ndn_lib where
  "demo_lib = \<lparr>
     nameLess = (<),
     compAt = (\<lambda>n i. if 0 \<le> i then n ! nat i else n ! (length n - nat (- i))),
     getSubName = (\<lambda>n i k. take k (drop i n)),
     getPrefix = (\<lambda>n k. if 0 \<le> k then take (nat k) n else take (length n - nat (- k)) n),
     toUri = demoUri, ofUri = demoParse, compToUri = escape,
     numberComp = (\<lambda>w. demoDigits (unat w)),
     compNumber = (\<lambda>c. if isDigits c \<and> demoValue c < 2 ^ 64 then Some (of_nat (demoValue c)) else None),
     nameBlock = demoUri, blockName = demoParse,
     tokens = (\<lambda>s. filter (\<lambda>w. w \<noteq> []) (splitOn CHR ''|'' s)),
     showNat = demoDigits,
     readU32 = (\<lambda>s. if isDigits s \<and> demoValue s < 2 ^ 32 then Some (of_nat (demoValue s)) else None),
     showDouble = (\<lambda>x. demoDigits (nat \<lfloor>x\<rfloor>)),
     readDouble = (\<lambda>s. if isDigits s then Some (real (demoValue s)) else None),
     isoString = (\<lambda>t. demoDigits (nat t)),
     fromIso = (\<lambda>s. if isDigits s then Some (int (demoValue s)) else None),
     routeFlagCapture = 2\<rparr>"

lemma demo_order: "name_order_ok demo_lib"
proof -
  have "strict_weak_order ((<) :: name \<Rightarrow> name \<Rightarrow> bool)"
    by unfold_locales auto
  then show ?thesis
    by (simp add: name_order_ok_def demo_lib_def neq_iff)
qed

lemma demo_slices: "name_slices_ok demo_lib"
  by (auto simp: name_slices_ok_def demo_lib_def)

lemma demoUri_field: "field_ok (demoUri n)"
  using escape_chars by (cases n) (auto simp: demoUri_def field_ok_def)

lemma demo_tokens:
  "list_all field_ok ts \<Longrightarrow> filter (\<lambda>w. w \<noteq> []) (splitOn CHR ''|'' (concat (map (\<lambda>t. t @ ''|'') ts))) = ts"
  by (induction ts) (simp_all add: field_ok_def splitOn_append)

lemma demo_codec: "codec_ok demo_lib"
  by (simp add: codec_ok_def demo_lib_def demoParse_demoUri demoUri_field isDigits_field isDigits_digits
      demoValue_digits demo_tokens time_ok_def unsigned_less [where 'b = 32, simplified])

lemma demo_components: "component_uri_ok demo_lib"
proof -
  have plain: "escape t = t" if "t \<in> plain_components" for t
    using that by (auto simp: plain_components_def escape_def)
  have "escape c = t \<longleftrightarrow> c = t" if "t \<in> plain_components" for c t
    using plain [OF that] unescape_escape [of c] unescape_escape [of t] by metis
  moreover have "demoParse (demoUri n @ ''/'' @ t) = Some (n @ [t])" if "t \<in> plain_components" "n \<noteq> []" for n t
  proof -
    have "demoUri n @ ''/'' @ t = demoUri (n @ [t])"
      using that plain [OF that(1)] by (simp add: demoUri_def)
    then show ?thesis by (simp add: demoParse_demoUri)
  qed
  moreover have "unat (w :: 64 word) < 2 ^ 64" for w
    using unsigned_less [of w] by simp
  ultimately show ?thesis
    by (simp add: component_uri_ok_def demo_lib_def demoParse_demoUri isDigits_digits demoValue_digits)
qed

end
