(* ===== verification/Runtime.thy ===== *)
theory Runtime
  imports Names
begin

text \<open>
  The environment the daemon runs in: the two clocks, the event scheduler and the
  packets and commands handed to the local forwarder. The code reaches it through
  \<open>ndn::Scheduler\<close>, \<open>ndn::Face\<close> and \<open>ndn::nfd::Controller\<close>; here every such call is
  recorded. \<open>io_pending\<close> is the scheduler's agenda (identifier, delay in nanoseconds,
  callback with its bound arguments), \<open>io_out\<close> the trace of what was sent, oldest first.
  What the other side answers is the argument of the handlers in the other theories.
\<close>

abbreviation second :: int where
  "second \<equiv> 1000000000"

abbreviation millisecond :: int where
  "millisecond \<equiv> 1000000"

record data_packet =
  data_name :: name
  data_content :: string

record certificate =
  cert_name :: name
  cert_wire :: string

text \<open>Callbacks given to the scheduler, with the arguments bound by the code.\<close>

datatype event =
    EvFibRemove name
  | EvCalculate
  | EvBuildAdjLsa
  | EvExpireName name "64 word"
  | EvExpireAdj name "64 word"
  | EvExpireCor name "64 word"
  | EvHello "32 word"
  | EvRetryValidation data_packet time_point name "64 word"
  | EvLogSeqNo
  | EvLogSnapshot

text \<open>The fields of \<open>ndn::nfd::ControlParameters\<close> the code sets.\<close>

record control_parameters =
  cp_name :: name
  cp_faceId :: "64 word option"
  cp_flags :: "64 word"
  cp_cost :: "64 word"
  cp_expiration :: int
  cp_origin :: "64 word"

text \<open>Who is told about the result of a command.\<close>

datatype rib_callback =
    CbFib string "8 word"      \<comment> \<open>\<open>Fib::onRegistration(Failure)\<close>: face URI, attempts so far\<close>
  | CbHello name int           \<comment> \<open>\<open>HelloProtocol::onRegistration(Success|Failure)\<close>\<close>

datatype face_continuation =
    ThenRegister control_parameters "8 word" rib_callback
  | ThenDestroy

datatype out =
    RibRegister control_parameters rib_callback
  | RibUnregister name "32 word"
  | CreateFace string face_continuation
  | DestroyFace "64 word"
  | SetStrategy name string "32 word"
  | HelloInterest name "32 word"
  | HelloData name string
  | LsaInterest name int "32 word" time_point name "64 word"
  | LsaData name int string
  | ValidateLsa data_packet time_point name "64 word"
  | ValidateHello data_packet
  | SyncPublish string "64 word"
  | WriteSeqFile string "64 word"
  | CommandResponse "32 word" string
  | CommandNack
  | InterestFilter name
  | PrefixRegistration name
  | KeyData name string
  | ValidateCommand name

type_synonym event_id = "nat option"

text \<open>The daemon and the sync protocol have callbacks and outputs of their own.\<close>

record ('ev, 'out) runtime =
  io_system_now :: time_point
  io_steady_now :: time_point
  io_next_id :: nat
  io_pending :: "(nat \<times> int \<times> 'ev) list"
  io_out :: "'out list"

type_synonym io = "(event, out) runtime"

definition scheduleEvent :: "int \<Rightarrow> 'ev \<Rightarrow> ('ev, 'out) runtime \<Rightarrow> event_id \<times> ('ev, 'out) runtime" where
  "scheduleEvent delay ev s =
     (Some (io_next_id s),
      s\<lparr>io_next_id := Suc (io_next_id s),
        io_pending := io_pending s @ [(io_next_id s, delay, ev)]\<rparr>)"

text \<open>A default constructed \<open>EventId\<close> is empty; cancelling it does nothing.\<close>

definition cancelEvent :: "event_id \<Rightarrow> ('ev, 'out) runtime \<Rightarrow> ('ev, 'out) runtime" where
  "cancelEvent eid s = (case eid of
       None \<Rightarrow> s
     | Some i \<Rightarrow> s\<lparr>io_pending := filter (\<lambda>(j, _). j \<noteq> i) (io_pending s)\<rparr>)"

definition emit :: "'out \<Rightarrow> ('ev, 'out) runtime \<Rightarrow> ('ev, 'out) runtime" where
  "emit x s = s\<lparr>io_out := io_out s @ [x]\<rparr>"

text \<open>\<open>duration_cast<seconds>\<close> rounds towards zero.\<close>

definition to_seconds :: "int \<Rightarrow> int" where
  "to_seconds d = sgn d * (\<bar>d\<bar> div second)"

section \<open>What the operations keep\<close>

definition events :: "('ev, 'out) runtime \<Rightarrow> 'ev list" where
  "events s = map (\<lambda>(_, _, ev). ev) (io_pending s)"

text \<open>Identifiers in the agenda are distinct and already used up.\<close>

definition agenda_ok :: "('ev, 'out) runtime \<Rightarrow> bool" where
  "agenda_ok s \<longleftrightarrow> distinct (map fst (io_pending s)) \<and>
     (\<forall>i\<in>fst ` set (io_pending s). i < io_next_id s)"

lemma agenda_ok_schedule [inv_intros]: "agenda_ok s \<Longrightarrow> agenda_ok (snd (scheduleEvent d ev s))"
  by (fastforce simp: agenda_ok_def scheduleEvent_def)

lemma agenda_ok_cancel [inv_intros]: "agenda_ok s \<Longrightarrow> agenda_ok (cancelEvent eid s)"
  by (auto simp: agenda_ok_def cancelEvent_def distinct_map_filter split: option.split)

lemma agenda_ok_emit [inv_intros]: "agenda_ok s \<Longrightarrow> agenda_ok (emit x s)"
  by (simp add: agenda_ok_def emit_def)

lemma events_schedule [simp]: "events (snd (scheduleEvent d ev s)) = events s @ [ev]"
  by (simp add: events_def scheduleEvent_def)

lemma events_emit [simp]: "events (emit x s) = events s"
  by (simp add: events_def emit_def)

lemma events_cancel: "set (events (cancelEvent eid s)) \<subseteq> set (events s)"
  by (auto simp: events_def cancelEvent_def split: option.split intro: rev_image_eqI)

lemma io_out_simps [simp]:
  "io_out (emit x s) = io_out s @ [x]"
  "io_out (snd (scheduleEvent d ev s)) = io_out s"
  "io_out (cancelEvent eid s) = io_out s"
  by (simp_all add: emit_def scheduleEvent_def cancelEvent_def split: option.split)

lemma io_clock_simps [frame_simps]:
  "io_system_now (emit x s) = io_system_now s"
  "io_steady_now (emit x s) = io_steady_now s"
  "io_system_now (snd (scheduleEvent d ev s)) = io_system_now s"
  "io_steady_now (snd (scheduleEvent d ev s)) = io_steady_now s"
  "io_system_now (cancelEvent eid s) = io_system_now s"
  "io_steady_now (cancelEvent eid s) = io_steady_now s"
  by (simp_all add: emit_def scheduleEvent_def cancelEvent_def split: option.split)

end
