(* ===== verification/Sequencing.thy ===== *)
theory Sequencing
  imports Runtime
begin

unbundle bit_operations_syntax

text \<open>
  \<open>SequencingManager\<close> (src/src/sequencing-manager.hpp and .cpp): the sequence numbers of
  the router's three LSAs and the single 64 bit number that ChronoSync distributes,
  24 bits for the Name LSA, 20 for the Coordinate LSA and 20 for the Adjacency LSA.
\<close>

record sequencing =
  sq_name :: "64 word"
  sq_adj :: "64 word"
  sq_cor :: "64 word"
  sq_combined :: "64 word"
  sq_file :: string

definition splitSequenceNo :: "64 word \<Rightarrow> sequencing \<Rightarrow> sequencing" where
  "splitSequenceNo seqNo m = m\<lparr>
     sq_combined := seqNo,
     sq_adj := seqNo AND 0xFFFFF,
     sq_cor := drop_bit 20 seqNo AND 0xFFFFF,
     sq_name := drop_bit 40 seqNo AND 0xFFFFFF\<rparr>"

definition combineSequenceNo :: "sequencing \<Rightarrow> sequencing" where
  "combineSequenceNo m = m\<lparr>
     sq_combined := (sq_adj m OR push_bit 20 (sq_cor m)) OR push_bit 40 (sq_name m)\<rparr>"

definition sequencing_default :: sequencing where
  "sequencing_default = \<lparr>sq_name = 0, sq_adj = 0, sq_cor = 0, sq_combined = 0, sq_file = ''''\<rparr>"

text \<open>\<open>SequencingManager(uint64_t)\<close>; the file name is default constructed.\<close>

definition sequencing_of :: "64 word \<Rightarrow> sequencing" where
  "sequencing_of seqNo = splitSequenceNo seqNo sequencing_default"

definition sequencing_of3 :: "64 word \<Rightarrow> 64 word \<Rightarrow> 64 word \<Rightarrow> sequencing" where
  "sequencing_of3 nlsn alsn clsn =
     combineSequenceNo (sequencing_default\<lparr>sq_name := nlsn, sq_adj := alsn, sq_cor := clsn\<rparr>)"

definition setNameLsaSeq :: "64 word \<Rightarrow> sequencing \<Rightarrow> sequencing" where
  "setNameLsaSeq n m = combineSequenceNo (m\<lparr>sq_name := n\<rparr>)"

definition setAdjLsaSeq :: "64 word \<Rightarrow> sequencing \<Rightarrow> sequencing" where
  "setAdjLsaSeq n m = combineSequenceNo (m\<lparr>sq_adj := n\<rparr>)"

definition setCorLsaSeq :: "64 word \<Rightarrow> sequencing \<Rightarrow> sequencing" where
  "setCorLsaSeq n m = combineSequenceNo (m\<lparr>sq_cor := n\<rparr>)"

definition increaseNameLsaSeq :: "sequencing \<Rightarrow> sequencing" where
  "increaseNameLsaSeq m = combineSequenceNo (m\<lparr>sq_name := sq_name m + 1\<rparr>)"

definition increaseAdjLsaSeq :: "sequencing \<Rightarrow> sequencing" where
  "increaseAdjLsaSeq m = combineSequenceNo (m\<lparr>sq_adj := sq_adj m + 1\<rparr>)"

definition increaseCorLsaSeq :: "sequencing \<Rightarrow> sequencing" where
  "increaseCorLsaSeq m = combineSequenceNo (m\<lparr>sq_cor := sq_cor m + 1\<rparr>)"

text \<open>
  \<open>writeSeqNoToFile\<close> puts the combined number into the file; \<open>initiateSeqNoFromFile\<close>
  reads it back when the file is readable (\<open>Some\<close> of its number; a stream that holds no
  number yields \<open>0\<close>) and skips ten numbers of each kind.
\<close>

definition writeSeqNoToFile :: "sequencing \<Rightarrow> io \<Rightarrow> io" where
  "writeSeqNoToFile m s = emit (WriteSeqFile (sq_file m) (sq_combined m)) s"

definition initiateSeqNoFromFile :: "64 word option \<Rightarrow> sequencing \<Rightarrow> sequencing" where
  "initiateSeqNoFromFile file m = (case file of
       Some c \<Rightarrow>
         (let m1 = splitSequenceNo c (m\<lparr>sq_combined := c\<rparr>) in
          combineSequenceNo (m1\<lparr>sq_adj := sq_adj m1 + 10, sq_cor := sq_cor m1 + 10,
                                sq_name := sq_name m1 + 10\<rparr>))
     | None \<Rightarrow> splitSequenceNo 0 m)"

definition setSeqFileName :: "string \<Rightarrow> string \<Rightarrow> sequencing \<Rightarrow> sequencing" where
  "setSeqFileName home filePath m =
     m\<lparr>sq_file := (if filePath = [] then home else filePath) @ ''/nlsrSeqNo.txt''\<rparr>"

section \<open>The packing\<close>

definition seq_in_range :: "sequencing \<Rightarrow> bool" where
  "seq_in_range m \<longleftrightarrow> sq_adj m < 2 ^ 20 \<and> sq_cor m < 2 ^ 20 \<and> sq_name m < 2 ^ 24"

definition seq_packed :: "sequencing \<Rightarrow> bool" where
  "seq_packed m \<longleftrightarrow>
     sq_combined m = (sq_adj m OR push_bit 20 (sq_cor m)) OR push_bit 40 (sq_name m)"

lemmas seq_ops = setNameLsaSeq_def setAdjLsaSeq_def setCorLsaSeq_def
  increaseNameLsaSeq_def increaseAdjLsaSeq_def increaseCorLsaSeq_def

lemma seq_packed_combine [inv_intros]: "seq_packed (combineSequenceNo m)"
  by (simp add: seq_packed_def combineSequenceNo_def)

lemma word_lt_bit:
  fixes w :: "64 word"
  assumes "w < 2 ^ k" and "bit w n"
  shows "n < k"
proof -
  have "bit (w AND mask k) n"
    using assms(2) by (simp only: less_mask_eq [OF assms(1)])
  then show ?thesis
    by (simp add: bit_and_iff bit_mask_iff)
qed

lemma mask_bits:
  "bit (0xFFFFF :: int) n \<longleftrightarrow> n < 20"
  "bit (0xFFFFFF :: int) n \<longleftrightarrow> n < 24"
proof -
  have "(0xFFFFF :: int) = mask 20" and "(0xFFFFFF :: int) = mask 24"
    by (simp_all add: mask_eq_exp_minus_1)
  then show "bit (0xFFFFF :: int) n \<longleftrightarrow> n < 20" "bit (0xFFFFFF :: int) n \<longleftrightarrow> n < 24"
    by (simp_all only: bit_mask_iff) auto
qed

lemma split_combine:
  assumes "seq_in_range m"
  shows "splitSequenceNo (sq_combined (combineSequenceNo m)) m = combineSequenceNo m"
proof -
  have b: "n < 20" if "bit (sq_adj m) n" for n
    using assms that word_lt_bit [of "sq_adj m" 20 n] by (simp add: seq_in_range_def)
  have c: "n < 20" if "bit (sq_cor m) n" for n
    using assms that word_lt_bit [of "sq_cor m" 20 n] by (simp add: seq_in_range_def)
  have d: "n < 24" if "bit (sq_name m) n" for n
    using assms that word_lt_bit [of "sq_name m" 24 n] by (simp add: seq_in_range_def)
  let ?c = "(sq_adj m OR push_bit 20 (sq_cor m)) OR push_bit 40 (sq_name m)"
  have "?c AND 0xFFFFF = sq_adj m"
    by (rule bit_word_eqI)
      (auto simp: bit_and_iff bit_or_iff bit_push_bit_iff mask_bits dest: b)
  moreover have "drop_bit 20 ?c AND 0xFFFFF = sq_cor m"
    by (rule bit_word_eqI)
      (auto simp: bit_and_iff bit_or_iff bit_push_bit_iff bit_drop_bit_eq mask_bits dest: b c)
  moreover have "drop_bit 40 ?c AND 0xFFFFFF = sq_name m"
    by (rule bit_word_eqI)
      (auto simp: bit_and_iff bit_or_iff bit_push_bit_iff bit_drop_bit_eq mask_bits dest: b c d)
  ultimately show ?thesis
    by (simp only: splitSequenceNo_def combineSequenceNo_def) simp
qed

text \<open>The packed number as an arithmetic value, and its growth.\<close>

lemma unat_lt_bit:
  fixes a :: "64 word"
  assumes "unat a < 2 ^ k" and "bit a n"
  shows "n < k"
proof -
  have "take_bit k (unat a) = unat a" using assms(1) by (simp add: take_bit_nat_eq_self)
  moreover have "bit (unat a) n" using assms(2) by (simp add: bit_unsigned_iff)
  ultimately show ?thesis by (metis bit_take_bit_iff)
qed

lemma or_shift:
  fixes a b :: "64 word"
  assumes a: "unat a < 2 ^ k" and b: "unat b < 2 ^ j" and kj: "k + j \<le> 64"
  shows "unat (a OR push_bit k b) = unat a + 2 ^ k * unat b"
proof -
  have "a AND push_bit k b = 0"
    by (rule bit_word_eqI) (auto simp: bit_and_iff bit_push_bit_iff dest: unat_lt_bit [OF a])
  then have "a OR push_bit k b = a + push_bit k b"
    by (simp add: disjunctive_add_eq_or)
  moreover have j: "(2::nat) ^ k * 2 ^ j \<le> 2 ^ 64"
    unfolding power_add [symmetric] by (rule power_increasing [OF kj]) simp
  have sum: "unat a + 2 ^ k * unat b < 2 ^ 64"
  proof -
    have "unat a + 2 ^ k * unat b < 2 ^ k * Suc (unat b)" using a by simp
    also have "\<dots> \<le> 2 ^ k * 2 ^ j" using b by (intro mult_le_mono2) simp
    finally show ?thesis using j by linarith
  qed
  have ub: "unat (push_bit k b) = 2 ^ k * unat b"
    unfolding unsigned_push_bit_eq using sum by (simp add: take_bit_eq_mod push_bit_eq_mult mult.commute)
  show ?thesis using sum ub calculation by (simp add: unat_word_ariths)
qed

lemma in_range_unat:
  "seq_in_range m \<longleftrightarrow> unat (sq_adj m) < 2 ^ 20 \<and> unat (sq_cor m) < 2 ^ 20 \<and> unat (sq_name m) < 2 ^ 24"
  by (simp add: seq_in_range_def word_less_nat_alt)

lemma combined_value:
  assumes "seq_in_range m"
  shows "unat (sq_combined (combineSequenceNo m)) =
    unat (sq_adj m) + 2 ^ 20 * unat (sq_cor m) + 2 ^ 40 * unat (sq_name m)"
proof -
  have r: "unat (sq_adj m) < 2 ^ 20" "unat (sq_cor m) < 2 ^ 20" "unat (sq_name m) < 2 ^ 24"
    using assms by (simp_all add: in_range_unat)
  have low: "unat (sq_adj m OR push_bit 20 (sq_cor m)) = unat (sq_adj m) + 2 ^ 20 * unat (sq_cor m)"
    using or_shift [OF r(1,2)] by simp
  then have "unat (sq_adj m OR push_bit 20 (sq_cor m)) < 2 ^ 40" using r by simp
  from or_shift [OF this r(3)] low show ?thesis by (simp add: combineSequenceNo_def)
qed

lemma increase_combined:
  assumes "seq_packed m" and "seq_in_range m"
  shows "seq_in_range (increaseNameLsaSeq m) \<Longrightarrow> sq_combined m < sq_combined (increaseNameLsaSeq m)"
    and "seq_in_range (increaseAdjLsaSeq m) \<Longrightarrow> sq_combined m < sq_combined (increaseAdjLsaSeq m)"
    and "seq_in_range (increaseCorLsaSeq m) \<Longrightarrow> sq_combined m < sq_combined (increaseCorLsaSeq m)"
proof -
  have old: "unat (sq_combined m) = unat (sq_adj m) + 2 ^ 20 * unat (sq_cor m) + 2 ^ 40 * unat (sq_name m)"
    using combined_value [OF assms(2)] assms(1) by (simp add: combineSequenceNo_def seq_packed_def)
  have succ: "unat (w + 1) = unat w + 1" if "unat w < 2 ^ 24" for w :: "64 word"
    using that by (simp add: unat_word_ariths)
  have r: "unat (sq_adj m) < 2 ^ 20" "unat (sq_cor m) < 2 ^ 20" "unat (sq_name m) < 2 ^ 24"
    using assms(2) by (simp_all add: in_range_unat)
  have field: "seq_in_range (combineSequenceNo x) = seq_in_range x" for x
    by (simp add: seq_in_range_def combineSequenceNo_def)
  show "seq_in_range (increaseNameLsaSeq m) \<Longrightarrow> sq_combined m < sq_combined (increaseNameLsaSeq m)"
    using combined_value [of "m\<lparr>sq_name := sq_name m + 1\<rparr>"] old r succ
    by (simp add: increaseNameLsaSeq_def field word_less_nat_alt)
  show "seq_in_range (increaseAdjLsaSeq m) \<Longrightarrow> sq_combined m < sq_combined (increaseAdjLsaSeq m)"
    using combined_value [of "m\<lparr>sq_adj := sq_adj m + 1\<rparr>"] old r succ
    by (simp add: increaseAdjLsaSeq_def field word_less_nat_alt)
  show "seq_in_range (increaseCorLsaSeq m) \<Longrightarrow> sq_combined m < sq_combined (increaseCorLsaSeq m)"
    using combined_value [of "m\<lparr>sq_cor := sq_cor m + 1\<rparr>"] old r succ
    by (simp add: increaseCorLsaSeq_def field word_less_nat_alt)
qed

lemma split_in_range: "seq_in_range (splitSequenceNo w m)"
proof -
  have mask: "(0xFFFFF :: 64 word) = mask 20" "(0xFFFFFF :: 64 word) = mask 24"
    by (simp_all add: mask_eq_exp_minus_1)
  have low: "unat (x AND mask n) < 2 ^ n" for x :: "64 word" and n
    by (simp flip: take_bit_eq_mask add: unsigned_take_bit_eq)
  show ?thesis
    using low [of w 20] low [of "drop_bit 20 w" 20] low [of "drop_bit 40 w" 24]
    by (simp add: in_range_unat splitSequenceNo_def mask)
qed

lemma combine_split: "sq_combined (combineSequenceNo (splitSequenceNo w m)) = w"
proof -
  have mask: "(0xFFFFF :: 64 word) = mask 20" "(0xFFFFFF :: 64 word) = mask 24"
    by (simp_all add: mask_eq_exp_minus_1)
  have "(take_bit 20 w OR push_bit 20 (take_bit 20 (drop_bit 20 w))) OR
      push_bit 40 (take_bit 24 (drop_bit 40 w)) = w"
  proof (rule bit_word_eqI)
    fix n assume n: "n < LENGTH(64)"
    consider "n < 20" | "20 \<le> n" "n < 40" | "40 \<le> n" by linarith
    then show "bit ((take_bit 20 w OR push_bit 20 (take_bit 20 (drop_bit 20 w))) OR
        push_bit 40 (take_bit 24 (drop_bit 40 w))) n = bit w n"
      using n by cases (auto simp: bit_or_iff bit_push_bit_iff bit_take_bit_iff bit_drop_bit_eq)
  qed
  then show ?thesis
    by (simp add: combineSequenceNo_def splitSequenceNo_def mask flip: take_bit_eq_mask)
qed

text \<open>After a restart every part is 10 above the file's; the packed number grows unless one wraps.\<close>

lemma restart_combined:
  assumes "seq_in_range (initiateSeqNoFromFile (Some w) m)"
  shows "sq_combined (initiateSeqNoFromFile (Some w) m) > w"
proof -
  define k where "k = splitSequenceNo w m"
  have k: "seq_in_range k" "sq_combined (combineSequenceNo k) = w"
    by (simp_all add: k_def split_in_range combine_split)
  let ?n = "k\<lparr>sq_adj := sq_adj k + 10, sq_cor := sq_cor k + 10, sq_name := sq_name k + 10\<rparr>"
  have new: "initiateSeqNoFromFile (Some w) m = combineSequenceNo ?n"
    by (simp add: initiateSeqNoFromFile_def k_def splitSequenceNo_def Let_def)
  then have "seq_in_range ?n"
    using assms by (simp add: seq_in_range_def combineSequenceNo_def)
  moreover have "unat (x + 10) = unat x + 10" if "unat x < 2 ^ 24" for x :: "64 word"
    using that by (simp add: unat_word_ariths)
  moreover have "unat (sq_adj k) < 2 ^ 24" "unat (sq_cor k) < 2 ^ 24" "unat (sq_name k) < 2 ^ 24"
    using k(1) by (simp_all add: in_range_unat)
  ultimately show ?thesis
    using combined_value [of ?n] combined_value [OF k(1)] k(2) new by (simp add: word_less_nat_alt)
qed

end
