(* ===== verification/Conf.thy ===== *)
theory Conf
  imports Runtime
begin

text \<open>
  \<open>ConfParameter\<close> (src/src/conf-parameter.hpp): the router's configuration. \<open>double\<close>
  is modelled by \<open>real\<close>; the time-outs and intervals are in seconds.
\<close>

definition LSA_REFRESH_TIME_MIN :: nat where "LSA_REFRESH_TIME_MIN = 240"
definition LSA_REFRESH_TIME_DEFAULT :: nat where "LSA_REFRESH_TIME_DEFAULT = 1800"
definition LSA_REFRESH_TIME_MAX :: nat where "LSA_REFRESH_TIME_MAX = 7200"
definition LSA_INTEREST_LIFETIME_MIN :: int where "LSA_INTEREST_LIFETIME_MIN = 1"
definition LSA_INTEREST_LIFETIME_DEFAULT :: int where "LSA_INTEREST_LIFETIME_DEFAULT = 4"
definition LSA_INTEREST_LIFETIME_MAX :: int where "LSA_INTEREST_LIFETIME_MAX = 60"
definition ADJ_LSA_BUILD_INTERVAL_MIN :: nat where "ADJ_LSA_BUILD_INTERVAL_MIN = 0"
definition ADJ_LSA_BUILD_INTERVAL_DEFAULT :: nat where "ADJ_LSA_BUILD_INTERVAL_DEFAULT = 5"
definition ADJ_LSA_BUILD_INTERVAL_MAX :: nat where "ADJ_LSA_BUILD_INTERVAL_MAX = 10"
definition FIRST_HELLO_INTERVAL_MIN :: nat where "FIRST_HELLO_INTERVAL_MIN = 0"
definition FIRST_HELLO_INTERVAL_DEFAULT :: nat where "FIRST_HELLO_INTERVAL_DEFAULT = 10"
definition FIRST_HELLO_INTERVAL_MAX :: nat where "FIRST_HELLO_INTERVAL_MAX = 20"
definition ROUTING_CALC_INTERVAL_MIN :: nat where "ROUTING_CALC_INTERVAL_MIN = 0"
definition ROUTING_CALC_INTERVAL_DEFAULT :: nat where "ROUTING_CALC_INTERVAL_DEFAULT = 15"
definition ROUTING_CALC_INTERVAL_MAX :: nat where "ROUTING_CALC_INTERVAL_MAX = 30"
definition HELLO_RETRIES_MIN :: int where "HELLO_RETRIES_MIN = 1"
definition HELLO_RETRIES_DEFAULT :: int where "HELLO_RETRIES_DEFAULT = 3"
definition HELLO_RETRIES_MAX :: int where "HELLO_RETRIES_MAX = 15"
definition HELLO_TIMEOUT_MIN :: nat where "HELLO_TIMEOUT_MIN = 1"
definition HELLO_TIMEOUT_DEFAULT :: nat where "HELLO_TIMEOUT_DEFAULT = 3"
definition HELLO_TIMEOUT_MAX :: nat where "HELLO_TIMEOUT_MAX = 15"
definition HELLO_INTERVAL_MIN :: nat where "HELLO_INTERVAL_MIN = 30"
definition HELLO_INTERVAL_DEFAULT :: nat where "HELLO_INTERVAL_DEFAULT = 60"
definition HELLO_INTERVAL_MAX :: nat where "HELLO_INTERVAL_MAX = 90"
definition MAX_FACES_PER_PREFIX_MIN :: int where "MAX_FACES_PER_PREFIX_MIN = 0"
definition MAX_FACES_PER_PREFIX_DEFAULT :: int where "MAX_FACES_PER_PREFIX_DEFAULT = 0"
definition MAX_FACES_PER_PREFIX_MAX :: int where "MAX_FACES_PER_PREFIX_MAX = 60"

definition HYPERBOLIC_STATE_OFF :: int where "HYPERBOLIC_STATE_OFF = 0"
definition HYPERBOLIC_STATE_ON :: int where "HYPERBOLIC_STATE_ON = 1"
definition HYPERBOLIC_STATE_DRY_RUN :: int where "HYPERBOLIC_STATE_DRY_RUN = 2"

lemmas conf_constants =
  LSA_REFRESH_TIME_MIN_def LSA_REFRESH_TIME_DEFAULT_def LSA_REFRESH_TIME_MAX_def
  LSA_INTEREST_LIFETIME_MIN_def LSA_INTEREST_LIFETIME_DEFAULT_def LSA_INTEREST_LIFETIME_MAX_def
  ADJ_LSA_BUILD_INTERVAL_MIN_def ADJ_LSA_BUILD_INTERVAL_DEFAULT_def ADJ_LSA_BUILD_INTERVAL_MAX_def
  FIRST_HELLO_INTERVAL_MIN_def FIRST_HELLO_INTERVAL_DEFAULT_def FIRST_HELLO_INTERVAL_MAX_def
  ROUTING_CALC_INTERVAL_MIN_def ROUTING_CALC_INTERVAL_DEFAULT_def ROUTING_CALC_INTERVAL_MAX_def
  HELLO_RETRIES_MIN_def HELLO_RETRIES_DEFAULT_def HELLO_RETRIES_MAX_def
  HELLO_TIMEOUT_MIN_def HELLO_TIMEOUT_DEFAULT_def HELLO_TIMEOUT_MAX_def
  HELLO_INTERVAL_MIN_def HELLO_INTERVAL_DEFAULT_def HELLO_INTERVAL_MAX_def
  MAX_FACES_PER_PREFIX_MIN_def MAX_FACES_PER_PREFIX_DEFAULT_def MAX_FACES_PER_PREFIX_MAX_def
  HYPERBOLIC_STATE_OFF_def HYPERBOLIC_STATE_ON_def HYPERBOLIC_STATE_DRY_RUN_def

record conf =
  cf_routerName :: name
  cf_siteName :: name
  cf_network :: name
  cf_routerPrefix :: name
  cf_chronosyncPrefix :: name
  cf_lsaPrefix :: name
  cf_lsaRefreshTime :: "32 word"
  cf_adjLsaBuildInterval :: "32 word"
  cf_firstHelloInterval :: "32 word"
  cf_routingCalcInterval :: "32 word"
  cf_lsaInterestLifetime :: int
  cf_routerDeadInterval :: "32 word"
  cf_logLevel :: string
  cf_interestRetryNumber :: "32 word"
  cf_interestResendTime :: "32 word"
  cf_infoInterestInterval :: "32 word"
  cf_hyperbolicState :: int
  cf_corR :: real
  cf_corTheta :: real
  cf_maxFacesPerPrefix :: "32 word"
  cf_logDir :: string
  cf_seqFileDir :: string
  cf_isLog4cxxConfAvailable :: bool
  cf_log4CxxConfPath :: string

definition conf_default :: conf where
  "conf_default = \<lparr>
     cf_routerName = [], cf_siteName = [], cf_network = [], cf_routerPrefix = [],
     cf_chronosyncPrefix = [], cf_lsaPrefix = [],
     cf_lsaRefreshTime = of_nat LSA_REFRESH_TIME_DEFAULT,
     cf_adjLsaBuildInterval = of_nat ADJ_LSA_BUILD_INTERVAL_DEFAULT,
     cf_firstHelloInterval = of_nat FIRST_HELLO_INTERVAL_DEFAULT,
     cf_routingCalcInterval = of_nat ROUTING_CALC_INTERVAL_DEFAULT,
     cf_lsaInterestLifetime = LSA_INTEREST_LIFETIME_DEFAULT,
     cf_routerDeadInterval = of_nat (2 * LSA_REFRESH_TIME_DEFAULT),
     cf_logLevel = ''INFO'',
     cf_interestRetryNumber = of_int HELLO_RETRIES_DEFAULT,
     cf_interestResendTime = of_nat HELLO_TIMEOUT_DEFAULT,
     cf_infoInterestInterval = of_nat HELLO_INTERVAL_DEFAULT,
     cf_hyperbolicState = HYPERBOLIC_STATE_OFF,
     cf_corR = 0, cf_corTheta = 0,
     cf_maxFacesPerPrefix = of_int MAX_FACES_PER_PREFIX_MIN,
     cf_logDir = '''', cf_seqFileDir = '''',
     cf_isLog4cxxConfAvailable = False, cf_log4CxxConfPath = ''''\<rparr>"

definition setNetwork :: "name \<Rightarrow> conf \<Rightarrow> conf" where
  "setNetwork n c = c\<lparr>cf_network := n,
     cf_chronosyncPrefix := n @ [''NLSR'', ''sync''],
     cf_lsaPrefix := n @ [''NLSR'', ''LSA'']\<rparr>"

definition buildRouterPrefix :: "conf \<Rightarrow> conf" where
  "buildRouterPrefix c = c\<lparr>cf_routerPrefix := cf_network c @ cf_siteName c @ cf_routerName c\<rparr>"

definition setCorR :: "real \<Rightarrow> conf \<Rightarrow> bool \<times> conf" where
  "setCorR r c = (if 0 \<le> r then (True, c\<lparr>cf_corR := r\<rparr>) else (False, c))"

definition setLog4CxxConfPath :: "string \<Rightarrow> conf \<Rightarrow> conf" where
  "setLog4CxxConfPath p c = c\<lparr>cf_log4CxxConfPath := p, cf_isLog4cxxConfAvailable := True\<rparr>"

section \<open>Setters\<close>

definition setRouterName :: "name \<Rightarrow> conf \<Rightarrow> conf" where
  "setRouterName n c = c\<lparr>cf_routerName := n\<rparr>"

definition setSiteName :: "name \<Rightarrow> conf \<Rightarrow> conf" where
  "setSiteName n c = c\<lparr>cf_siteName := n\<rparr>"

definition setLsaRefreshTime :: "32 word \<Rightarrow> conf \<Rightarrow> conf" where
  "setLsaRefreshTime x c = c\<lparr>cf_lsaRefreshTime := x\<rparr>"

definition setLsaInterestLifetime :: "int \<Rightarrow> conf \<Rightarrow> conf" where
  "setLsaInterestLifetime x c = c\<lparr>cf_lsaInterestLifetime := x\<rparr>"

definition setAdjLsaBuildInterval :: "32 word \<Rightarrow> conf \<Rightarrow> conf" where
  "setAdjLsaBuildInterval x c = c\<lparr>cf_adjLsaBuildInterval := x\<rparr>"

definition setFirstHelloInterval :: "32 word \<Rightarrow> conf \<Rightarrow> conf" where
  "setFirstHelloInterval x c = c\<lparr>cf_firstHelloInterval := x\<rparr>"

definition setRoutingCalcInterval :: "32 word \<Rightarrow> conf \<Rightarrow> conf" where
  "setRoutingCalcInterval x c = c\<lparr>cf_routingCalcInterval := x\<rparr>"

definition setRouterDeadInterval :: "32 word \<Rightarrow> conf \<Rightarrow> conf" where
  "setRouterDeadInterval x c = c\<lparr>cf_routerDeadInterval := x\<rparr>"

definition setLogLevel :: "string \<Rightarrow> conf \<Rightarrow> conf" where
  "setLogLevel x c = c\<lparr>cf_logLevel := x\<rparr>"

definition setInterestRetryNumber :: "32 word \<Rightarrow> conf \<Rightarrow> conf" where
  "setInterestRetryNumber x c = c\<lparr>cf_interestRetryNumber := x\<rparr>"

definition setInterestResendTime :: "32 word \<Rightarrow> conf \<Rightarrow> conf" where
  "setInterestResendTime x c = c\<lparr>cf_interestResendTime := x\<rparr>"

definition setInfoInterestInterval :: "32 word \<Rightarrow> conf \<Rightarrow> conf" where
  "setInfoInterestInterval x c = c\<lparr>cf_infoInterestInterval := x\<rparr>"

definition setHyperbolicState :: "int \<Rightarrow> conf \<Rightarrow> conf" where
  "setHyperbolicState x c = c\<lparr>cf_hyperbolicState := x\<rparr>"

definition setCorTheta :: "real \<Rightarrow> conf \<Rightarrow> conf" where
  "setCorTheta x c = c\<lparr>cf_corTheta := x\<rparr>"

definition setMaxFacesPerPrefix :: "32 word \<Rightarrow> conf \<Rightarrow> conf" where
  "setMaxFacesPerPrefix x c = c\<lparr>cf_maxFacesPerPrefix := x\<rparr>"

definition setLogDir :: "string \<Rightarrow> conf \<Rightarrow> conf" where
  "setLogDir x c = c\<lparr>cf_logDir := x\<rparr>"

definition setSeqFileDir :: "string \<Rightarrow> conf \<Rightarrow> conf" where
  "setSeqFileDir x c = c\<lparr>cf_seqFileDir := x\<rparr>"

lemmas conf_setters =
  setNetwork_def setRouterName_def setSiteName_def setLsaRefreshTime_def setLsaInterestLifetime_def
  setAdjLsaBuildInterval_def setFirstHelloInterval_def setRoutingCalcInterval_def setRouterDeadInterval_def
  setLogLevel_def setInterestRetryNumber_def setInterestResendTime_def setInfoInterestInterval_def
  setHyperbolicState_def setCorTheta_def setMaxFacesPerPrefix_def setLogDir_def setSeqFileDir_def setLog4CxxConfPath_def

end
