(* ===== verification/Name_Prefix_List.thy ===== *)
theory Name_Prefix_List
  imports Runtime
begin

text \<open>
  \<open>NamePrefixList\<close> (src/src/name-prefix-list.cpp): the names a router advertises, a list
  without duplicates. The locale \<open>name_collection\<close> is what its clients, the Name LSA and
  the prefix-update commands, rely on.
\<close>

type_synonym name_prefix_list = "name list"

definition npl_insert :: "name \<Rightarrow> name_prefix_list \<Rightarrow> bool \<times> name_prefix_list" where
  "npl_insert n l = (case find (\<lambda>m. m = n) l of
       Some _ \<Rightarrow> (False, l)
     | None \<Rightarrow> (True, l @ [n]))"

definition npl_remove :: "name \<Rightarrow> name_prefix_list \<Rightarrow> bool \<times> name_prefix_list" where
  "npl_remove n l = (case find (\<lambda>m. m = n) l of
       Some _ \<Rightarrow> (True, erase_first (\<lambda>m. m = n) l)
     | None \<Rightarrow> (False, l))"

definition npl_sort :: "ndn_lib \<Rightarrow> name_prefix_list \<Rightarrow> name_prefix_list" where
  "npl_sort L l = stable_sort (nameLess L) l"

section \<open>The interface\<close>

locale name_collection =
  fixes insert_name :: "name \<Rightarrow> 's \<Rightarrow> bool \<times> 's"
    and remove_name :: "name \<Rightarrow> 's \<Rightarrow> bool \<times> 's"
    and contents :: "'s \<Rightarrow> name set"
    and wf :: "'s \<Rightarrow> bool"
  assumes insert_contents: "contents (snd (insert_name n s)) = insert n (contents s)"
    and insert_new: "fst (insert_name n s) \<longleftrightarrow> n \<notin> contents s"
    and insert_old: "n \<in> contents s \<Longrightarrow> snd (insert_name n s) = s"
    and insert_wf: "wf s \<Longrightarrow> wf (snd (insert_name n s))"
    and remove_contents: "wf s \<Longrightarrow> contents (snd (remove_name n s)) = contents s - {n}"
    and remove_found: "fst (remove_name n s) \<longleftrightarrow> n \<in> contents s"
    and remove_absent: "n \<notin> contents s \<Longrightarrow> snd (remove_name n s) = s"
    and remove_wf: "wf s \<Longrightarrow> wf (snd (remove_name n s))"
begin

text \<open>Clients add and remove whole lists of names, in the order of the list.\<close>

lemma fold_insert_contents:
  "contents (fold (\<lambda>n s. snd (insert_name n s)) ns s) = contents s \<union> set ns"
  by (induction ns arbitrary: s) (auto simp: insert_contents)

lemma fold_insert_wf: "wf s \<Longrightarrow> wf (fold (\<lambda>n s. snd (insert_name n s)) ns s)"
  by (induction ns arbitrary: s) (auto simp: insert_wf)

lemma fold_remove_wf: "wf s \<Longrightarrow> wf (fold (\<lambda>n s. snd (remove_name n s)) ns s)"
  by (induction ns arbitrary: s) (auto simp: remove_wf)

lemma fold_remove_contents:
  "wf s \<Longrightarrow> contents (fold (\<lambda>n s. snd (remove_name n s)) ns s) = contents s - set ns"
  by (induction ns arbitrary: s) (auto simp: remove_contents remove_wf)

lemma insert_then_remove:
  "wf s \<Longrightarrow> n \<notin> contents s \<Longrightarrow>
   contents (snd (remove_name n (snd (insert_name n s)))) = contents s"
  by (simp add: remove_contents insert_wf insert_contents)

end

lemma find_eq_None: "find (\<lambda>m. m = n) l = None \<longleftrightarrow> n \<notin> set l"
  by (auto simp: find_None_all)

lemma set_erase_eq: "distinct l \<Longrightarrow> set (erase_first (\<lambda>m. m = n) l) = set l - {n}"
  using set_erase_first_key [of "\<lambda>x. x" l n] by auto

lemma distinct_erase_eq: "distinct l \<Longrightarrow> distinct (erase_first P l)"
  using distinct_erase_first [of "\<lambda>x. x" l P] by simp

interpretation npl: name_collection npl_insert npl_remove set distinct
proof unfold_locales
  fix n s
  show "fst (npl_remove n s) = (n \<in> set s)"
    by (auto simp: npl_remove_def find_None_all dest: find_SomeD split: option.split)
  show "n \<notin> set s \<Longrightarrow> snd (npl_remove n s) = s"
    by (simp add: npl_remove_def find_eq_None [THEN iffD2])
  show "fst (npl_insert n s) = (n \<notin> set s)"
    by (auto simp: npl_insert_def find_None_all dest: find_SomeD split: option.split)
  show "set (snd (npl_insert n s)) = insert n (set s)"
    by (auto simp: npl_insert_def dest: find_SomeD split: option.split)
  show "n \<in> set s \<Longrightarrow> snd (npl_insert n s) = s"
    by (auto simp: npl_insert_def find_None_all split: option.split)
  show "distinct s \<Longrightarrow> distinct (snd (npl_insert n s))"
    by (auto simp: npl_insert_def find_None_all split: option.split)
  show "distinct s \<Longrightarrow> set (snd (npl_remove n s)) = set s - {n}"
    by (auto simp: npl_remove_def set_erase_eq find_None_all split: option.split)
  show "distinct s \<Longrightarrow> distinct (snd (npl_remove n s))"
    by (simp add: npl_remove_def distinct_erase_eq split: option.split)
qed

lemma npl_sort_set [simp]: "set (npl_sort L l) = set l"
  by (simp add: npl_sort_def)

lemma npl_sort_distinct [simp]: "distinct (npl_sort L l) = distinct l"
  using distinct_stable_sort [of "\<lambda>x. x"] by (simp add: npl_sort_def)

end
