(* ===== verification/Adjacency.thy ===== *)
theory Adjacency
  imports Conf
begin

text \<open>
  \<open>Adjacent\<close> and \<open>AdjacencyList\<close> (src/src/adjacent.hpp, adjacent.cpp, adjacency-list.cpp):
  the neighbours with their face, cost and HELLO status. The list is searched by the
  neighbour's name and \<open>insert\<close> keeps the names distinct.
\<close>

datatype status = STATUS_UNKNOWN | STATUS_INACTIVE | STATUS_ACTIVE

record adjacent =
  ad_name :: name
  ad_faceUri :: string
  ad_linkCost :: real
  ad_status :: status
  ad_timedOut :: "32 word"
  ad_faceId :: "64 word"

definition DEFAULT_LINK_COST :: real where
  "DEFAULT_LINK_COST = 10"

definition adjacent_named :: "name \<Rightarrow> adjacent" where
  "adjacent_named n = \<lparr>ad_name = n, ad_faceUri = '''', ad_linkCost = DEFAULT_LINK_COST,
     ad_status = STATUS_INACTIVE, ad_timedOut = 0, ad_faceId = 0\<rparr>"

text \<open>The cast to \<open>uint64_t\<close> is defined for costs in \<open>[0, 2\<^sup>6\<^sup>4)\<close>, where it is exact.\<close>

definition getLinkCost :: "adjacent \<Rightarrow> 64 word" where
  "getLinkCost a = word_of_int \<lceil>ad_linkCost a\<rceil>"

definition cost_in_range :: "adjacent \<Rightarrow> bool" where
  "cost_in_range a \<longleftrightarrow> 0 \<le> ad_linkCost a \<and> ad_linkCost a \<le> 2 ^ 63"

definition DBL_EPSILON :: real where
  "DBL_EPSILON = 1 / 2 ^ 52"

definition adjacent_eq :: "adjacent \<Rightarrow> adjacent \<Rightarrow> bool" where
  "adjacent_eq a b \<longleftrightarrow> ad_name a = ad_name b \<and> ad_faceUri a = ad_faceUri b \<and>
     \<bar>ad_linkCost a - real (unat (getLinkCost b))\<bar> < DBL_EPSILON"

section \<open>The list\<close>

type_synonym adjacency_list = "adjacent list"

definition adl_find :: "name \<Rightarrow> adjacency_list \<Rightarrow> adjacent option" where
  "adl_find n l = by_key ad_name n l"

definition adl_update :: "name \<Rightarrow> (adjacent \<Rightarrow> adjacent) \<Rightarrow> adjacency_list \<Rightarrow> adjacency_list" where
  "adl_update n f l = update_first (\<lambda>a. ad_name a = n) f l"

definition adl_insert :: "adjacent \<Rightarrow> adjacency_list \<Rightarrow> int \<times> adjacency_list" where
  "adl_insert a l = (case adl_find (ad_name a) l of
       Some _ \<Rightarrow> (-1, l)
     | None \<Rightarrow> (0, l @ [a]))"

definition addAdjacents :: "adjacency_list \<Rightarrow> adjacency_list \<Rightarrow> adjacency_list" where
  "addAdjacents adl l = fold (\<lambda>a l. snd (adl_insert a l)) adl l"

definition updateAdjacentStatus ::
  "name \<Rightarrow> status \<Rightarrow> adjacency_list \<Rightarrow> bool \<times> adjacency_list" where
  "updateAdjacentStatus n s l = (case adl_find n l of
       None \<Rightarrow> (False, l)
     | Some _ \<Rightarrow> (True, adl_update n (\<lambda>a. a\<lparr>ad_status := s\<rparr>) l))"

definition getAdjacent :: "name \<Rightarrow> adjacency_list \<Rightarrow> adjacent" where
  "getAdjacent n l = (case adl_find n l of Some a \<Rightarrow> a | None \<Rightarrow> adjacent_named n)"

definition compareAdjacent :: "ndn_lib \<Rightarrow> adjacent \<Rightarrow> adjacent \<Rightarrow> bool" where
  "compareAdjacent L a b = nameLess L (ad_name a) (ad_name b)"

text \<open>
  \<open>operator==\<close> sorts both lists in place, then counts the equal pairs up to the first
  difference; the sorted lists are part of the result.
\<close>

fun count_equal :: "adjacency_list \<Rightarrow> adjacency_list \<Rightarrow> nat" where
  "count_equal (a # as) (b # bs) = (if adjacent_eq a b then Suc (count_equal as bs) else 0)"
| "count_equal _ _ = 0"

definition adl_eq ::
  "ndn_lib \<Rightarrow> adjacency_list \<Rightarrow> adjacency_list \<Rightarrow> bool \<times> adjacency_list \<times> adjacency_list" where
  "adl_eq L l1 l2 =
     (if length l1 \<noteq> length l2 then (False, l1, l2)
      else let s1 = stable_sort (compareAdjacent L) l1; s2 = stable_sort (compareAdjacent L) l2
           in (count_equal s1 s2 = length l1, s1, s2))"

definition updateAdjacentLinkCost :: "name \<Rightarrow> real \<Rightarrow> adjacency_list \<Rightarrow> int \<times> adjacency_list" where
  "updateAdjacentLinkCost n c l = (case adl_find n l of
       None \<Rightarrow> (-1, l)
     | Some _ \<Rightarrow> (0, adl_update n (\<lambda>a. a\<lparr>ad_linkCost := c\<rparr>) l))"

definition isNeighbor :: "name \<Rightarrow> adjacency_list \<Rightarrow> bool" where
  "isNeighbor n l = (case adl_find n l of None \<Rightarrow> False | Some _ \<Rightarrow> True)"

definition incrementTimedOutInterestCount :: "name \<Rightarrow> adjacency_list \<Rightarrow> adjacency_list" where
  "incrementTimedOutInterestCount n l = adl_update n (\<lambda>a. a\<lparr>ad_timedOut := ad_timedOut a + 1\<rparr>) l"

definition setTimedOutInterestCount :: "name \<Rightarrow> 32 word \<Rightarrow> adjacency_list \<Rightarrow> adjacency_list" where
  "setTimedOutInterestCount n c l = adl_update n (\<lambda>a. a\<lparr>ad_timedOut := c\<rparr>) l"

text \<open>The result is an \<open>int32_t\<close>: its 32 bits, \<open>-1\<close> when the neighbour is unknown.\<close>

definition getTimedOutInterestCount :: "name \<Rightarrow> adjacency_list \<Rightarrow> 32 word" where
  "getTimedOutInterestCount n l = (case adl_find n l of None \<Rightarrow> -1 | Some a \<Rightarrow> ad_timedOut a)"

definition getStatusOfNeighbor :: "name \<Rightarrow> adjacency_list \<Rightarrow> status" where
  "getStatusOfNeighbor n l =
     (case adl_find n l of None \<Rightarrow> STATUS_UNKNOWN | Some a \<Rightarrow> ad_status a)"

definition setStatusOfNeighbor :: "name \<Rightarrow> status \<Rightarrow> adjacency_list \<Rightarrow> adjacency_list" where
  "setStatusOfNeighbor n s l = adl_update n (\<lambda>a. a\<lparr>ad_status := s\<rparr>) l"

definition counts_as_settled :: "conf \<Rightarrow> adjacent \<Rightarrow> bool" where
  "counts_as_settled c a \<longleftrightarrow>
     ad_status a = STATUS_ACTIVE \<or> ad_timedOut a \<ge> cf_interestRetryNumber c"

text \<open>\<open>nbrCount\<close> is a \<open>uint32_t\<close>; the list size is compared as \<open>size_t\<close>.\<close>

definition isAdjLsaBuildable :: "conf \<Rightarrow> adjacency_list \<Rightarrow> bool" where
  "isAdjLsaBuildable c l \<longleftrightarrow>
     unat (fold (\<lambda>a k. if counts_as_settled c a then k + 1 else k) l (0 :: 32 word)) = length l"

definition getNumOfActiveNeighbor :: "adjacency_list \<Rightarrow> int" where
  "getNumOfActiveNeighbor l = fold (\<lambda>a k. if ad_status a = STATUS_ACTIVE then k + 1 else k) l 0"

definition findAdjacentByFace :: "64 word \<Rightarrow> adjacency_list \<Rightarrow> adjacent option" where
  "findAdjacentByFace f l = by_key ad_faceId f l"

definition adl_getFaceId :: "string \<Rightarrow> adjacency_list \<Rightarrow> 64 word" where
  "adl_getFaceId uri l = (case by_key ad_faceUri uri l of Some a \<Rightarrow> ad_faceId a | None \<Rightarrow> 0)"

section \<open>Laws of the list\<close>

definition adl_wf :: "adjacency_list \<Rightarrow> bool" where
  "adl_wf l \<longleftrightarrow> distinct (map ad_name l)"

lemmas adl_find_simps = adl_find_def by_key_None

lemma adl_find_SomeD: "adl_find n l = Some a \<Longrightarrow> a \<in> set l \<and> ad_name a = n"
  unfolding adl_find_def by (rule by_key_SomeD)

lemma adl_find_update:
  assumes "\<And>a. ad_name (f a) = ad_name a"
  shows "adl_find k (adl_update n f l) =
    (if k = n then map_option f (adl_find k l) else adl_find k l)"
  unfolding adl_find_def adl_update_def by (rule by_key_update_first) (rule assms)

lemma map_name_adl_update:
  "(\<And>a. ad_name (f a) = ad_name a) \<Longrightarrow> map ad_name (adl_update n f l) = map ad_name l"
  unfolding adl_update_def by (rule map_update_first_same)

lemma adl_wf_update [inv_intros]:
  "adl_wf l \<Longrightarrow> (\<And>a. ad_name (f a) = ad_name a) \<Longrightarrow> adl_wf (adl_update n f l)"
  by (simp add: adl_wf_def map_name_adl_update)

lemma adl_wf_insert [inv_intros]: "adl_wf l \<Longrightarrow> adl_wf (snd (adl_insert a l))"
  by (cases "adl_find (ad_name a) l")
    (simp_all add: adl_wf_def adl_insert_def adl_find_def distinct_append_new del: distinct_append map_append)

lemma adl_wf_addAdjacents [inv_intros]: "adl_wf l \<Longrightarrow> adl_wf (addAdjacents adl l)"
  unfolding addAdjacents_def by (induction adl arbitrary: l) (simp_all add: adl_wf_insert)

lemma adl_insert_set:
  "set (snd (adl_insert a l)) = (if ad_name a \<in> ad_name ` set l then set l else insert a (set l))"
proof (cases "adl_find (ad_name a) l")
  case None
  then have "ad_name a \<notin> ad_name ` set l"
    by (simp add: adl_find_def by_key_None)
  with None show ?thesis
    by (simp add: adl_insert_def)
next
  case (Some b)
  then have "ad_name a \<in> ad_name ` set l"
    by (metis adl_find_SomeD image_eqI)
  with Some show ?thesis
    by (simp add: adl_insert_def)
qed

lemma addAdjacents_distinct:
  assumes "distinct (map ad_name (l @ adl))"
  shows "addAdjacents adl l = l @ adl"
  using assms
proof (induction adl arbitrary: l)
  case (Cons a adl)
  from Cons.prems have "adl_find (ad_name a) l = None"
    by (auto simp: adl_find_def by_key_None)
  with Cons show ?case
    by (simp add: addAdjacents_def adl_insert_def)
qed (simp add: addAdjacents_def)

lemma count_equal_le: "count_equal as bs \<le> length as"
  by (induction as bs rule: count_equal.induct) auto

lemma count_equal_all:
  "length as = length bs \<Longrightarrow> count_equal as bs = length as \<longleftrightarrow> list_all2 adjacent_eq as bs"
  by (induction as bs rule: list_induct2) auto

lemma adl_eq_iff:
  "fst (adl_eq L l1 l2) \<longleftrightarrow>
     list_all2 adjacent_eq (stable_sort (compareAdjacent L) l1) (stable_sort (compareAdjacent L) l2)"
  using count_equal_all [of "stable_sort (compareAdjacent L) l1" "stable_sort (compareAdjacent L) l2"]
  by (auto simp: adl_eq_def Let_def dest: list_all2_lengthD)

lemma fold_count:
  "fold (\<lambda>a k. if P a then k + 1 else k) l k = k + of_nat (length (filter P l))"
  for k :: "'k :: comm_semiring_1"
  by (induction l arbitrary: k) (simp_all add: algebra_simps)

lemma getNumOfActiveNeighbor_filter:
  "getNumOfActiveNeighbor l = int (length (filter (\<lambda>a. ad_status a = STATUS_ACTIVE) l))"
  by (simp add: getNumOfActiveNeighbor_def fold_count)

lemma length_filter_all: "length (filter P l) = length l \<longleftrightarrow> list_all P l"
  by (induction l) (auto simp: le_imp_less_Suc [THEN less_imp_neq])

lemma isAdjLsaBuildable_iff:
  assumes "length l < 2 ^ 32"
  shows "isAdjLsaBuildable c l \<longleftrightarrow> list_all (counts_as_settled c) l"
proof -
  have "length (filter (counts_as_settled c) l) < 2 ^ 32"
    using assms length_filter_le le_less_trans by blast
  then have "unat (of_nat (length (filter (counts_as_settled c) l)) :: 32 word) =
      length (filter (counts_as_settled c) l)"
    by (simp add: unat_of_nat)
  then show ?thesis
    by (simp add: isAdjLsaBuildable_def fold_count length_filter_all)
qed

lemma getLinkCost_exact:
  assumes "cost_in_range a"
  shows "real (unat (getLinkCost a)) = of_int \<lceil>ad_linkCost a\<rceil>"
proof -
  from assms have "0 \<le> \<lceil>ad_linkCost a\<rceil>" and "\<lceil>ad_linkCost a\<rceil> \<le> 2 ^ 63"
    by (simp_all add: cost_in_range_def ceiling_le_iff)
  then have "int (unat (getLinkCost a)) = \<lceil>ad_linkCost a\<rceil>"
    by (simp add: getLinkCost_def unsigned_of_int take_bit_int_eq_self)
  then show ?thesis
    by (metis of_int_of_nat_eq)
qed

end
