(* ===== verification/Nexthop.thy ===== *)
theory Nexthop
  imports Runtime
begin

text \<open>
  \<open>NextHop\<close> and \<open>NexthopList\<close> (src/src/route/nexthop.hpp, nexthop-list.cpp): the faces a
  destination is reachable through, with the cost of the route. The locale
  \<open>min_cost_table\<close> is the contract of every table that routes are added to: per key it
  keeps the least cost offered so far.
\<close>

record nexthop =
  nh_faceUri :: string
  nh_cost :: real
  nh_hyperbolic :: bool

definition HYPERBOLIC_COST_ADJUSTMENT_FACTOR :: real where
  "HYPERBOLIC_COST_ADJUSTMENT_FACTOR = 1000"

text \<open>\<open>round\<close> of \<open><cmath>\<close> (halves away from zero) and the truncation of a cast.\<close>

definition c_round :: "real \<Rightarrow> int" where
  "c_round x = (if 0 \<le> x then \<lfloor>x + 1 / 2\<rfloor> else - \<lfloor>1 / 2 - x\<rfloor>)"

definition c_trunc :: "real \<Rightarrow> int" where
  "c_trunc x = (if 0 \<le> x then \<lfloor>x\<rfloor> else \<lceil>x\<rceil>)"

definition getRouteCostAsAdjustedInteger :: "nexthop \<Rightarrow> 64 word" where
  "getRouteCostAsAdjustedInteger nh =
     (if nh_hyperbolic nh then word_of_int (c_round (nh_cost nh * HYPERBOLIC_COST_ADJUSTMENT_FACTOR))
      else word_of_int (c_trunc (nh_cost nh)))"

definition nexthopCompare :: "nexthop \<Rightarrow> nexthop \<Rightarrow> bool" where
  "nexthopCompare a b \<longleftrightarrow> nh_faceUri a = nh_faceUri b"

definition nexthopRemoveCompare :: "nexthop \<Rightarrow> nexthop \<Rightarrow> bool" where
  "nexthopRemoveCompare a b \<longleftrightarrow> nh_faceUri a = nh_faceUri b \<and>
     getRouteCostAsAdjustedInteger a = getRouteCostAsAdjustedInteger b"

definition nextHopSortingComparator :: "nexthop \<Rightarrow> nexthop \<Rightarrow> bool" where
  "nextHopSortingComparator a b =
     (if getRouteCostAsAdjustedInteger a < getRouteCostAsAdjustedInteger b then True
      else if getRouteCostAsAdjustedInteger a = getRouteCostAsAdjustedInteger b
        then nh_faceUri a < nh_faceUri b
      else False)"

section \<open>The list\<close>

type_synonym nexthop_list = "nexthop list"

definition addNextHop :: "nexthop \<Rightarrow> nexthop_list \<Rightarrow> nexthop_list" where
  "addNextHop nh l = (case find (\<lambda>x. nexthopCompare x nh) l of
       None \<Rightarrow> l @ [nh]
     | Some x \<Rightarrow>
         if nh_cost x > nh_cost nh
         then update_first (\<lambda>x. nexthopCompare x nh) (\<lambda>x. x\<lparr>nh_cost := nh_cost nh\<rparr>) l
         else l)"

definition removeNextHop :: "nexthop \<Rightarrow> nexthop_list \<Rightarrow> nexthop_list" where
  "removeNextHop nh l = erase_first (\<lambda>x. nexthopRemoveCompare x nh) l"

definition nhl_sort :: "nexthop_list \<Rightarrow> nexthop_list" where
  "nhl_sort l = stable_sort nextHopSortingComparator l"

section \<open>The order\<close>

interpretation nh: strict_weak_order nextHopSortingComparator
proof
  fix x y z
  show "nextHopSortingComparator x y \<Longrightarrow> \<not> nextHopSortingComparator y x"
    by (auto simp: nextHopSortingComparator_def split: if_splits)
  show "\<not> nextHopSortingComparator x y \<Longrightarrow> \<not> nextHopSortingComparator y z \<Longrightarrow>
      \<not> nextHopSortingComparator x z"
    by (auto simp: nextHopSortingComparator_def not_less split: if_splits)
qed

lemma comparator_less_cost:
  "\<not> nextHopSortingComparator b a \<Longrightarrow>
   getRouteCostAsAdjustedInteger a \<le> getRouteCostAsAdjustedInteger b"
  by (auto simp: nextHopSortingComparator_def split: if_splits)

definition nhl_sorted :: "nexthop_list \<Rightarrow> bool" where
  "nhl_sorted l \<longleftrightarrow> sorted_wrt (\<lambda>x y. \<not> nextHopSortingComparator y x) l"

lemma nhl_sorted_sort [simp, inv_intros]: "nhl_sorted (nhl_sort l)"
  by (simp add: nhl_sorted_def nhl_sort_def nh.stable_sort_sorted)

lemma nhl_sort_id [simp]: "nhl_sorted l \<Longrightarrow> nhl_sort l = l"
  by (simp add: nhl_sorted_def nhl_sort_def nh.stable_sort_id)

lemma nhl_sort_simps [simp]:
  "set (nhl_sort l) = set l" "length (nhl_sort l) = length l" "nhl_sort l = [] \<longleftrightarrow> l = []"
  "distinct (map g (nhl_sort l)) = distinct (map g l)"
  by (simp_all add: nhl_sort_def)

lemma nhl_sorted_erase: "nhl_sorted l \<Longrightarrow> nhl_sorted (erase_first P l)"
proof (induction l)
  case (Cons x l)
  then show ?case
    using set_erase_first [of P l] by (auto simp: nhl_sorted_def)
qed simp

section \<open>Cheapest route per key\<close>

definition min_opt :: "real option \<Rightarrow> real \<Rightarrow> real" where
  "min_opt c w = (case c of None \<Rightarrow> w | Some d \<Rightarrow> min d w)"

locale min_cost_table =
  fixes add :: "'h \<Rightarrow> 's \<Rightarrow> 's"
    and key :: "'h \<Rightarrow> 'k"
    and weight :: "'h \<Rightarrow> real"
    and cost :: "'s \<Rightarrow> 'k \<Rightarrow> real option"
  assumes cost_add: "cost (add h s) = (cost s)(key h \<mapsto> min_opt (cost s (key h)) (weight h))"
begin

lemma cost_add_same [simp]: "cost (add h s) (key h) = Some (min_opt (cost s (key h)) (weight h))"
  by (simp add: cost_add)

lemma cost_add_other: "k \<noteq> key h \<Longrightarrow> cost (add h s) k = cost s k"
  by (simp add: cost_add)

lemma dom_fold: "dom (cost (fold add hs s)) = dom (cost s) \<union> key ` set hs"
  by (induction hs arbitrary: s) (auto simp: cost_add)

lemma cost_fold_le_init: "cost s k = Some c \<Longrightarrow> \<exists>d. cost (fold add hs s) k = Some d \<and> d \<le> c"
proof (induction hs arbitrary: s c)
  case (Cons h hs)
  have "\<exists>c'. cost (add h s) k = Some c' \<and> c' \<le> c"
    using Cons.prems by (cases "k = key h") (auto simp: cost_add min_opt_def)
  with Cons.IH [of "add h s"] show ?case by fastforce
qed simp

lemma cost_fold_le:
  "h \<in> set hs \<Longrightarrow> \<exists>d. cost (fold add hs s) (key h) = Some d \<and> d \<le> weight h"
proof (induction hs arbitrary: s)
  case (Cons g hs)
  show ?case
  proof (cases "h = g")
    case True
    have "min_opt (cost s (key g)) (weight g) \<le> weight g"
      by (auto simp: min_opt_def split: option.split)
    with True cost_fold_le_init [of "add g s" "key g" _ hs] show ?thesis
      by fastforce
  next
    case False
    with Cons show ?thesis by simp
  qed
qed simp

lemma cost_fold_source:
  assumes "cost (fold add hs s) k = Some d"
  shows "cost s k = Some d \<or> (\<exists>h\<in>set hs. key h = k \<and> weight h = d)"
  using assms
proof (induction hs arbitrary: s)
  case (Cons h hs)
  then have "cost (add h s) k = Some d \<or> (\<exists>h\<in>set hs. key h = k \<and> weight h = d)"
    by simp
  then show ?case
    by (auto simp: cost_add min_opt_def min_def split: if_splits option.splits)
qed simp

text \<open>Started empty, the table holds exactly the least weight offered for each key.\<close>

lemma cost_fold_Min:
  assumes "cost s k = None"
  shows "cost (fold add hs s) k = (if k \<in> key ` set hs
    then Some (Min (weight ` {h \<in> set hs. key h = k})) else None)"
proof (cases "k \<in> key ` set hs")
  case True
  then have "k \<in> dom (cost (fold add hs s))"
    by (simp add: dom_fold)
  then obtain d where d: "cost (fold add hs s) k = Some d" by blast
  let ?W = "weight ` {h \<in> set hs. key h = k}"
  have "d \<in> ?W"
    using cost_fold_source [OF d] assms by auto
  moreover have "d \<le> w" if "w \<in> ?W" for w
    using that cost_fold_le [of _ hs s] d by fastforce
  ultimately have "Min ?W = d"
    by (intro Min_eqI) auto
  with d True show ?thesis by simp
next
  case False
  then have "k \<notin> dom (cost (fold add hs s))"
    using assms by (auto simp: dom_fold)
  with False show ?thesis by auto
qed

end

definition nhl_cost :: "nexthop_list \<Rightarrow> string \<Rightarrow> real option" where
  "nhl_cost l u = map_option nh_cost (by_key nh_faceUri u l)"

definition nhl_wf :: "nexthop_list \<Rightarrow> bool" where
  "nhl_wf l \<longleftrightarrow> distinct (map nh_faceUri l)"

lemma addNextHop_alt:
  "addNextHop nh l = (case by_key nh_faceUri (nh_faceUri nh) l of
       None \<Rightarrow> l @ [nh]
     | Some x \<Rightarrow> if nh_cost x > nh_cost nh
         then update_first (\<lambda>x. nh_faceUri x = nh_faceUri nh) (\<lambda>x. x\<lparr>nh_cost := nh_cost nh\<rparr>) l
         else l)"
  by (simp add: addNextHop_def by_key_def nexthopCompare_def split: option.split)

interpretation nhl: min_cost_table addNextHop nh_faceUri nh_cost nhl_cost
proof
  fix h l
  show "nhl_cost (addNextHop h l) =
      (nhl_cost l)(nh_faceUri h \<mapsto> min_opt (nhl_cost l (nh_faceUri h)) (nh_cost h))"
  proof
    fix u
    show "nhl_cost (addNextHop h l) u =
        ((nhl_cost l)(nh_faceUri h \<mapsto> min_opt (nhl_cost l (nh_faceUri h)) (nh_cost h))) u"
      by (cases "by_key nh_faceUri (nh_faceUri h) l")
        (auto simp: nhl_cost_def addNextHop_alt by_key_append by_key_update_first min_opt_def
          split: option.split)
  qed
qed

lemma uris_addNextHop:
  "nh_faceUri ` set (addNextHop nh l) = insert (nh_faceUri nh) (nh_faceUri ` set l)"
proof (cases "by_key nh_faceUri (nh_faceUri nh) l")
  case None
  then show ?thesis by (simp add: addNextHop_alt)
next
  case (Some x)
  have "map nh_faceUri (update_first P (\<lambda>x. x\<lparr>nh_cost := c\<rparr>) l) = map nh_faceUri l" for P c
    by (rule map_update_first_same) simp
  then have "nh_faceUri ` set (addNextHop nh l) = nh_faceUri ` set l"
    using Some by (simp add: addNextHop_alt flip: set_map)
  moreover have "nh_faceUri nh \<in> nh_faceUri ` set l"
    using by_key_SomeD [OF Some] by (metis image_eqI)
  ultimately show ?thesis by auto
qed

lemma nhl_wf_add [inv_intros]: "nhl_wf l \<Longrightarrow> nhl_wf (addNextHop nh l)"
proof (cases "by_key nh_faceUri (nh_faceUri nh) l")
  case None
  then show "nhl_wf l \<Longrightarrow> ?thesis"
    by (simp add: nhl_wf_def addNextHop_alt distinct_append_new del: distinct_append map_append)
next
  case (Some x)
  have "map nh_faceUri (update_first P (\<lambda>x. x\<lparr>nh_cost := c\<rparr>) l) = map nh_faceUri l" for P c
    by (rule map_update_first_same) simp
  with Some show "nhl_wf l \<Longrightarrow> ?thesis"
    by (simp add: nhl_wf_def addNextHop_alt)
qed

lemma nhl_wf_fold [inv_intros]: "nhl_wf l \<Longrightarrow> nhl_wf (fold addNextHop hs l)"
  by (induction hs arbitrary: l) (simp_all add: nhl_wf_add)

lemma nhl_wf_Nil [simp]: "nhl_wf []"
  by (simp add: nhl_wf_def)

lemma nhl_wf_sort [simp]: "nhl_wf (nhl_sort l) = nhl_wf l"
  by (simp add: nhl_wf_def)

lemma uris_fold_add:
  "nh_faceUri ` set (fold addNextHop hs l) = nh_faceUri ` set l \<union> nh_faceUri ` set hs"
  by (induction hs arbitrary: l) (auto simp: uris_addNextHop)

lemma fold_add_distinct:
  "distinct (map nh_faceUri (l @ hs)) \<Longrightarrow> fold addNextHop hs l = l @ hs"
proof (induction hs arbitrary: l)
  case (Cons h hs)
  then have "by_key nh_faceUri (nh_faceUri h) l = None"
    by (auto simp: by_key_None)
  with Cons show ?case by (simp add: addNextHop_alt)
qed simp

lemma fold_add_Nil_iff [simp]: "fold addNextHop hs [] = [] \<longleftrightarrow> hs = []"
  using uris_fold_add [of hs "[]"] by auto

lemma nhl_cost_sort [simp]: "nhl_wf l \<Longrightarrow> nhl_cost (nhl_sort l) = nhl_cost l"
  by (rule ext) (simp add: nhl_cost_def nhl_wf_def by_key_cong_set [of nh_faceUri "nhl_sort l" l])

end
