(* ===== verification/Lsa.thy ===== *)
theory Lsa
  imports Adjacency Name_Prefix_List
begin

text \<open>
  The three kinds of link-state advertisement (src/src/lsa.hpp, lsa.cpp): their data,
  their keys in the LSDB and the text form that is sent to other routers, with its
  parser. The class \<open>Lsa\<close> is the record that the three kinds extend.
\<close>

record lsa =
  ls_origRouter :: name
  ls_type :: string
  ls_seqNo :: "32 word"
  ls_expiration :: time_point
  ls_event :: event_id

record name_lsa = lsa +
  nl_npl :: name_prefix_list

text \<open>
  \<open>m_noLink\<close> is set by one constructor only: \<open>None\<close> stands for the indeterminate value
  the default constructor and the parser leave.
\<close>

record adj_lsa = lsa +
  al_noLink :: "32 word option"
  al_adl :: adjacency_list

record cor_lsa = lsa +
  cl_corRad :: real
  cl_corTheta :: real

definition NAME_TYPE :: string where "NAME_TYPE = ''name''"
definition ADJ_TYPE :: string where "ADJ_TYPE = ''adjacency''"
definition COR_TYPE :: string where "COR_TYPE = ''coordinate''"

lemmas lsa_types = NAME_TYPE_def ADJ_TYPE_def COR_TYPE_def

definition name_lsa_default :: name_lsa where
  "name_lsa_default = \<lparr>ls_origRouter = [], ls_type = NAME_TYPE, ls_seqNo = 0, ls_expiration = 0,
     ls_event = None, nl_npl = []\<rparr>"

definition adj_lsa_default :: adj_lsa where
  "adj_lsa_default = \<lparr>ls_origRouter = [], ls_type = ADJ_TYPE, ls_seqNo = 0, ls_expiration = 0,
     ls_event = None, al_noLink = None, al_adl = []\<rparr>"

definition cor_lsa_default :: cor_lsa where
  "cor_lsa_default = \<lparr>ls_origRouter = [], ls_type = COR_TYPE, ls_seqNo = 0, ls_expiration = 0,
     ls_event = None, cl_corRad = 0, cl_corTheta = 0\<rparr>"

definition addName :: "name \<Rightarrow> name_lsa \<Rightarrow> name_lsa" where
  "addName n l = l\<lparr>nl_npl := snd (npl_insert n (nl_npl l))\<rparr>"

definition removeName :: "name \<Rightarrow> name_lsa \<Rightarrow> name_lsa" where
  "removeName n l = l\<lparr>nl_npl := snd (npl_remove n (nl_npl l))\<rparr>"

definition addAdjacent :: "adjacent \<Rightarrow> adj_lsa \<Rightarrow> adj_lsa" where
  "addAdjacent a l = l\<lparr>al_adl := snd (adl_insert a (al_adl l))\<rparr>"

text \<open>The constructors.\<close>

definition mkNameLsa ::
  "name \<Rightarrow> string \<Rightarrow> 32 word \<Rightarrow> time_point \<Rightarrow> name_prefix_list \<Rightarrow> name_lsa" where
  "mkNameLsa origR lst lsn lt npl = fold addName npl
     (name_lsa_default\<lparr>ls_origRouter := origR, ls_type := lst, ls_seqNo := lsn, ls_expiration := lt\<rparr>)"

definition mkAdjLsa ::
  "name \<Rightarrow> string \<Rightarrow> 32 word \<Rightarrow> time_point \<Rightarrow> 32 word \<Rightarrow> adjacency_list \<Rightarrow> adj_lsa" where
  "mkAdjLsa origR lst lsn lt nl adl =
     fold (\<lambda>a l. if ad_status a = STATUS_ACTIVE then addAdjacent a l else l) adl
       (adj_lsa_default\<lparr>ls_origRouter := origR, ls_type := lst, ls_seqNo := lsn,
          ls_expiration := lt, al_noLink := Some nl\<rparr>)"

definition mkCoordinateLsa ::
  "name \<Rightarrow> string \<Rightarrow> 32 word \<Rightarrow> time_point \<Rightarrow> real \<Rightarrow> real \<Rightarrow> cor_lsa" where
  "mkCoordinateLsa origR lst lsn lt r theta = cor_lsa_default\<lparr>ls_origRouter := origR,
     ls_type := lst, ls_seqNo := lsn, ls_expiration := lt, cl_corRad := r, cl_corTheta := theta\<rparr>"

definition nameLsaKey :: "name_lsa \<Rightarrow> name" where
  "nameLsaKey l = ls_origRouter l @ [NAME_TYPE]"

definition adjLsaKey :: "adj_lsa \<Rightarrow> name" where
  "adjLsaKey l = ls_origRouter l @ [ADJ_TYPE]"

definition corLsaKey :: "cor_lsa \<Rightarrow> name" where
  "corLsaKey l = ls_origRouter l @ [COR_TYPE]"

definition cor_isEqualContent :: "cor_lsa \<Rightarrow> cor_lsa \<Rightarrow> bool" where
  "cor_isEqualContent a b \<longleftrightarrow> \<bar>cl_corRad a - cl_corRad b\<bar> < DBL_EPSILON \<and>
     \<bar>cl_corTheta a - cl_corTheta b\<bar> < DBL_EPSILON"

text \<open>Comparing two Adjacency LSAs sorts the lists of both.\<close>

definition adj_isEqualContent :: "ndn_lib \<Rightarrow> adj_lsa \<Rightarrow> adj_lsa \<Rightarrow> bool \<times> adj_lsa \<times> adj_lsa" where
  "adj_isEqualContent L a b = (case adl_eq L (al_adl a) (al_adl b) of
     (eq, la, lb) \<Rightarrow> (eq, a\<lparr>al_adl := la\<rparr>, b\<lparr>al_adl := lb\<rparr>))"

section \<open>The text form\<close>

definition name_getData :: "ndn_lib \<Rightarrow> name_lsa \<Rightarrow> string" where
  "name_getData L l =
     toUri L (ls_origRouter l) @ ''|'' @ NAME_TYPE @ ''|''
     @ showNat L (unat (ls_seqNo l)) @ ''|'' @ isoString L (ls_expiration l)
     @ ''|'' @ showNat L (length (nl_npl l))
     @ concat (map (\<lambda>n. ''|'' @ toUri L n) (nl_npl l)) @ ''|''"

definition adj_getData :: "ndn_lib \<Rightarrow> adj_lsa \<Rightarrow> string" where
  "adj_getData L l =
     toUri L (ls_origRouter l) @ ''|'' @ ADJ_TYPE @ ''|''
     @ showNat L (unat (ls_seqNo l)) @ ''|'' @ isoString L (ls_expiration l)
     @ ''|'' @ showNat L (length (al_adl l))
     @ concat (map (\<lambda>a. ''|'' @ toUri L (ad_name a) @ ''|'' @ ad_faceUri a
                    @ ''|'' @ showNat L (unat (getLinkCost a))) (al_adl l)) @ ''|''"

definition cor_getData :: "ndn_lib \<Rightarrow> cor_lsa \<Rightarrow> string" where
  "cor_getData L l =
     toUri L (ls_origRouter l) @ ''|'' @ COR_TYPE @ ''|''
     @ showNat L (unat (ls_seqNo l)) @ ''|'' @ isoString L (ls_expiration l) @ ''|''
     @ showDouble L (cl_corRad l) @ ''|'' @ showDouble L (cl_corTheta l) @ ''|''"

text \<open>
  What parsing a received text does: it builds the LSA, or returns \<open>false\<close>, or lets the
  exception of the name constructor escape, or dereferences the token iterator at its
  end, which the tokenizer's assertion aborts on (and which is undefined without it).
\<close>

datatype 'a parsed = Parsed 'a | Rejected | Thrown | IteratorAtEnd

definition next_token :: "string list \<Rightarrow> (string \<Rightarrow> string list \<Rightarrow> 'a parsed) \<Rightarrow> 'a parsed" where
  "next_token ts k = (case ts of [] \<Rightarrow> IteratorAtEnd | t # ts' \<Rightarrow> k t ts')"

text \<open>A conversion whose failure is an exception: \<open>oops\<close> is what catching it, or not, yields.\<close>

definition convert :: "'b option \<Rightarrow> 'a parsed \<Rightarrow> ('b \<Rightarrow> 'a parsed) \<Rightarrow> 'a parsed" where
  "convert r failure k = (case r of None \<Rightarrow> failure | Some x \<Rightarrow> k x)"

fun parse_names :: "ndn_lib \<Rightarrow> nat \<Rightarrow> string list \<Rightarrow> name_lsa \<Rightarrow> name_lsa parsed" where
  "parse_names L 0 ts l = Parsed l"
| "parse_names L (Suc k) ts l = next_token ts (\<lambda>t ts.
     convert (ofUri L t) Thrown (\<lambda>n. parse_names L k ts (addName n l)))"

definition name_initializeFromContent :: "ndn_lib \<Rightarrow> string \<Rightarrow> name_lsa parsed" where
  "name_initializeFromContent L content =
     next_token (tokens L content) (\<lambda>t ts. convert (ofUri L t) Thrown (\<lambda>orig.
       if \<not> 0 < length orig then Rejected
       else next_token ts (\<lambda>ty ts. next_token ts (\<lambda>t ts. convert (readU32 L t) Rejected (\<lambda>seq.
         next_token ts (\<lambda>t ts. convert (fromIso L t) Rejected (\<lambda>expiry.
         next_token ts (\<lambda>t ts. convert (readU32 L t) Rejected (\<lambda>num.
           parse_names L (unat num) ts (name_lsa_default\<lparr>ls_origRouter := orig, ls_type := ty,
             ls_seqNo := seq, ls_expiration := expiry\<rparr>))))))))))"

fun parse_links :: "ndn_lib \<Rightarrow> nat \<Rightarrow> string list \<Rightarrow> adj_lsa \<Rightarrow> adj_lsa parsed" where
  "parse_links L 0 ts l = Parsed l"
| "parse_links L (Suc k) ts l = next_token ts (\<lambda>t ts. convert (ofUri L t) Rejected (\<lambda>n.
     next_token ts (\<lambda>uri ts.
     next_token ts (\<lambda>t ts. convert (readDouble L t) Rejected (\<lambda>c.
       parse_links L k ts (addAdjacent \<lparr>ad_name = n, ad_faceUri = uri, ad_linkCost = c,
         ad_status = STATUS_INACTIVE, ad_timedOut = 0, ad_faceId = 0\<rparr> l))))))"

definition adj_initializeFromContent :: "ndn_lib \<Rightarrow> string \<Rightarrow> adj_lsa parsed" where
  "adj_initializeFromContent L content =
     next_token (tokens L content) (\<lambda>t ts. convert (ofUri L t) Thrown (\<lambda>orig.
       if \<not> 0 < length orig then Rejected
       else next_token ts (\<lambda>ty ts. next_token ts (\<lambda>t ts. convert (readU32 L t) Rejected (\<lambda>seq.
         next_token ts (\<lambda>t ts. convert (fromIso L t) Rejected (\<lambda>expiry.
         next_token ts (\<lambda>t ts. convert (readU32 L t) Rejected (\<lambda>num.
           parse_links L (unat num) ts (adj_lsa_default\<lparr>ls_origRouter := orig, ls_type := ty,
             ls_seqNo := seq, ls_expiration := expiry\<rparr>))))))))))"

definition cor_initializeFromContent :: "ndn_lib \<Rightarrow> string \<Rightarrow> cor_lsa parsed" where
  "cor_initializeFromContent L content =
     next_token (tokens L content) (\<lambda>t ts. convert (ofUri L t) Thrown (\<lambda>orig.
       if \<not> 0 < length orig then Rejected
       else next_token ts (\<lambda>ty ts. next_token ts (\<lambda>t ts. convert (readU32 L t) Rejected (\<lambda>seq.
         next_token ts (\<lambda>t ts. convert (fromIso L t) Rejected (\<lambda>expiry.
         next_token ts (\<lambda>t ts. convert (readDouble L t) Rejected (\<lambda>r.
         next_token ts (\<lambda>t ts. convert (readDouble L t) Rejected (\<lambda>theta.
           Parsed (cor_lsa_default\<lparr>ls_origRouter := orig, ls_type := ty, ls_seqNo := seq,
             ls_expiration := expiry, cl_corRad := r, cl_corTheta := theta\<rparr>))))))))))))"

section \<open>Laws\<close>

definition name_lsa_wf :: "name_lsa \<Rightarrow> bool" where
  "name_lsa_wf l \<longleftrightarrow> distinct (nl_npl l)"

definition adj_lsa_wf :: "adj_lsa \<Rightarrow> bool" where
  "adj_lsa_wf l \<longleftrightarrow> adl_wf (al_adl l)"

lemma fold_addName:
  "fold addName ns l = l\<lparr>nl_npl := fold (\<lambda>n s. snd (npl_insert n s)) ns (nl_npl l)\<rparr>"
  by (induction ns arbitrary: l) (simp_all add: addName_def)

lemma fold_removeName:
  "fold removeName ns l = l\<lparr>nl_npl := fold (\<lambda>n s. snd (npl_remove n s)) ns (nl_npl l)\<rparr>"
  by (induction ns arbitrary: l) (simp_all add: removeName_def)

lemma fold_npl_insert_distinct:
  "distinct (l @ ns) \<Longrightarrow> fold (\<lambda>n s. snd (npl_insert n s)) ns l = l @ ns"
proof (induction ns arbitrary: l)
  case (Cons n ns)
  then have "find (\<lambda>m. m = n) l = None"
    by (auto simp: find_None_all)
  with Cons show ?case by (simp add: npl_insert_def)
qed simp

lemma fold_addAdjacent_active:
  "fold (\<lambda>a l. if ad_status a = STATUS_ACTIVE then addAdjacent a l else l) adl l =
   l\<lparr>al_adl := addAdjacents (filter (\<lambda>a. ad_status a = STATUS_ACTIVE) adl) (al_adl l)\<rparr>"
  by (induction adl arbitrary: l) (simp_all add: addAdjacent_def addAdjacents_def)

lemma mkAdjLsa_adl:
  assumes "adl_wf adl"
  shows "al_adl (mkAdjLsa o' ty s t nl adl) = filter (\<lambda>a. ad_status a = STATUS_ACTIVE) adl"
  using assms by (simp add: mkAdjLsa_def fold_addAdjacent_active adj_lsa_default_def
      addAdjacents_distinct adl_wf_def distinct_map_filter)

lemma mkNameLsa_npl: "set (nl_npl (mkNameLsa o' ty s t npl)) = set npl"
  using npl.fold_insert_contents [of npl "[]"]
  by (simp add: mkNameLsa_def fold_addName name_lsa_default_def)

lemma name_lsa_wf_add [inv_intros]: "name_lsa_wf l \<Longrightarrow> name_lsa_wf (addName n l)"
  by (simp add: name_lsa_wf_def addName_def npl.insert_wf)

lemma name_lsa_wf_remove [inv_intros]: "name_lsa_wf l \<Longrightarrow> name_lsa_wf (removeName n l)"
  by (simp add: name_lsa_wf_def removeName_def npl.remove_wf)

lemma adj_lsa_wf_add [inv_intros]: "adj_lsa_wf l \<Longrightarrow> adj_lsa_wf (addAdjacent a l)"
  by (simp add: adj_lsa_wf_def addAdjacent_def adl_wf_insert)

lemma name_lsa_wf_mk [inv_intros]: "name_lsa_wf (mkNameLsa o' ty s t npl)"
  using npl.fold_insert_wf [of "[]" npl]
  by (simp add: name_lsa_wf_def mkNameLsa_def fold_addName name_lsa_default_def)

lemma adj_lsa_wf_mk [inv_intros]: "adj_lsa_wf (mkAdjLsa o' ty s t nl adl)"
  using adl_wf_addAdjacents [of "[]" "filter (\<lambda>a. ad_status a = STATUS_ACTIVE) adl"]
  by (simp add: adj_lsa_wf_def mkAdjLsa_def fold_addAdjacent_active adj_lsa_default_def adl_wf_def)

subsection \<open>Whatever is parsed is well formed\<close>

lemma next_token_Parsed:
  "next_token ts k = Parsed x \<longleftrightarrow> (\<exists>t ts'. ts = t # ts' \<and> k t ts' = Parsed x)"
  by (simp add: next_token_def split: list.split)

lemma convert_Parsed:
  "(\<And>x. f \<noteq> Parsed x) \<Longrightarrow> convert r f k = Parsed x \<longleftrightarrow> (\<exists>y. r = Some y \<and> k y = Parsed x)"
  by (simp add: convert_def split: option.split)

lemma convert_Parsed_cases [simp]:
  "convert r Rejected k = Parsed x \<longleftrightarrow> (\<exists>y. r = Some y \<and> k y = Parsed x)"
  "convert r Thrown k = Parsed x \<longleftrightarrow> (\<exists>y. r = Some y \<and> k y = Parsed x)"
  by (rule convert_Parsed; simp)+

lemma parse_names_wf: "parse_names L k ts l = Parsed l' \<Longrightarrow> name_lsa_wf l \<Longrightarrow> name_lsa_wf l'"
  by (induction L k ts l rule: parse_names.induct)
    (auto simp: next_token_Parsed name_lsa_wf_add)

lemma parse_links_wf: "parse_links L k ts l = Parsed l' \<Longrightarrow> adj_lsa_wf l \<Longrightarrow> adj_lsa_wf l'"
  by (induction L k ts l rule: parse_links.induct)
    (auto simp: next_token_Parsed adj_lsa_wf_add)

lemma parsed_name_lsa_wf:
  "name_initializeFromContent L content = Parsed l \<Longrightarrow> name_lsa_wf l"
  by (auto simp: name_initializeFromContent_def next_token_Parsed split: if_splits
      dest!: parse_names_wf) (simp_all add: name_lsa_wf_def name_lsa_default_def)

lemma parsed_adj_lsa_wf:
  "adj_initializeFromContent L content = Parsed l \<Longrightarrow> adj_lsa_wf l"
  by (auto simp: adj_initializeFromContent_def next_token_Parsed split: if_splits
      dest!: parse_links_wf) (simp_all add: adj_lsa_wf_def adl_wf_def adj_lsa_default_def)

lemma mkAdjLsa_fields [simp]:
  "ls_origRouter (mkAdjLsa r ty n t k adl) = r" "ls_type (mkAdjLsa r ty n t k adl) = ty"
  "ls_seqNo (mkAdjLsa r ty n t k adl) = n" "ls_expiration (mkAdjLsa r ty n t k adl) = t"
  "ls_event (mkAdjLsa r ty n t k adl) = None"
  by (simp_all add: mkAdjLsa_def fold_addAdjacent_active adj_lsa_default_def)

lemma mkNameLsa_fields [simp]:
  "ls_origRouter (mkNameLsa r ty n t npl) = r" "ls_type (mkNameLsa r ty n t npl) = ty"
  "ls_seqNo (mkNameLsa r ty n t npl) = n" "ls_expiration (mkNameLsa r ty n t npl) = t"
  "ls_event (mkNameLsa r ty n t npl) = None"
  by (simp_all add: mkNameLsa_def fold_addName name_lsa_default_def)

lemma mkCoordinateLsa_fields [simp]:
  "ls_origRouter (mkCoordinateLsa r ty n t x y) = r" "ls_type (mkCoordinateLsa r ty n t x y) = ty"
  "ls_seqNo (mkCoordinateLsa r ty n t x y) = n" "ls_expiration (mkCoordinateLsa r ty n t x y) = t"
  "ls_event (mkCoordinateLsa r ty n t x y) = None" "cl_corRad (mkCoordinateLsa r ty n t x y) = x"
  "cl_corTheta (mkCoordinateLsa r ty n t x y) = y"
  by (simp_all add: mkCoordinateLsa_def cor_lsa_default_def)

text \<open>The loops that read names and links leave the other fields alone.\<close>

lemma parse_names_fields: "parse_names L k ts l = Parsed l' \<Longrightarrow> ls_origRouter l' = ls_origRouter l \<and> ls_event l' = ls_event l"
  by (induction L k ts l rule: parse_names.induct)
    (auto simp: next_token_Parsed addName_def)

lemma parse_links_fields: "parse_links L k ts l = Parsed l' \<Longrightarrow> ls_origRouter l' = ls_origRouter l \<and> ls_event l' = ls_event l"
  by (induction L k ts l rule: parse_links.induct)
    (auto simp: next_token_Parsed addAdjacent_def)

lemma parsed_origin:
  "name_initializeFromContent L content = Parsed nl \<Longrightarrow> ls_origRouter nl \<noteq> []"
  "adj_initializeFromContent L content = Parsed al \<Longrightarrow> ls_origRouter al \<noteq> []"
  "cor_initializeFromContent L content = Parsed cl \<Longrightarrow> ls_origRouter cl \<noteq> []"
  by (auto simp: name_initializeFromContent_def adj_initializeFromContent_def cor_initializeFromContent_def
      next_token_Parsed split: if_splits dest: parse_names_fields parse_links_fields)

lemma parsed_event:
  "name_initializeFromContent L content = Parsed nl \<Longrightarrow> ls_event nl = None"
  "adj_initializeFromContent L content = Parsed al \<Longrightarrow> ls_event al = None"
  "cor_initializeFromContent L content = Parsed cl \<Longrightarrow> ls_event cl = None"
  by (auto simp: name_initializeFromContent_def adj_initializeFromContent_def cor_initializeFromContent_def
      next_token_Parsed name_lsa_default_def adj_lsa_default_def cor_lsa_default_def
      split: if_splits dest: parse_names_fields parse_links_fields)

end
