(* ===== verification/Lsa_Text.thy ===== *)
theory Lsa_Text
  imports Lsa Demo_Library
begin

text \<open>
  The text form of the LSAs is read back: what a router puts into a data packet with
  \<open>getData\<close> is what the receiver's \<open>initializeFromContent\<close> builds, up to the fields that are
  not sent. The demonstration library shows that the hypotheses can hold.
\<close>

section \<open>Tokens\<close>

lemma join_fields:
  "concat (map (\<lambda>x. ''|'' @ f x) xs) @ ''|'' = ''|'' @ concat (map (\<lambda>x. f x @ ''|'') xs)"
  by (induction xs) simp_all

lemma join_triples:
  "concat (map (\<lambda>x. ''|'' @ f x @ ''|'' @ g x @ ''|'' @ h x) xs) @ ''|'' =
   ''|'' @ concat (map (\<lambda>t. t @ ''|'') (concat (map (\<lambda>x. [f x, g x, h x]) xs)))"
  by (induction xs) simp_all

lemma next_token_Cons [simp]: "next_token (t # ts) k = k t ts"
  by (simp add: next_token_def)

lemma convert_Some [simp]: "convert (Some x) fl k = k x"
  by (simp add: convert_def)

lemma length_word: "length xs < 2 ^ 32 \<Longrightarrow> unat (of_nat (length xs) :: 32 word) = length xs"
  by (simp add: unat_of_nat)

lemma readU32_length:
  assumes "codec_ok L" and "length xs < 2 ^ 32"
  shows "readU32 L (showNat L (length xs)) = Some (of_nat (length xs))"
  using codec_laws(4) [OF assms(1), of "of_nat (length xs)"] length_word [OF assms(2)] by simp

text \<open>The hypotheses on the fields that are common to the three kinds.\<close>

definition lsa_sendable :: "'l lsa_scheme \<Rightarrow> bool" where
  "lsa_sendable l \<longleftrightarrow> ls_origRouter l \<noteq> [] \<and> time_ok (ls_expiration l)"

lemma type_fields: "field_ok NAME_TYPE" "field_ok ADJ_TYPE" "field_ok COR_TYPE"
  by (simp_all add: lsa_types field_ok_def)

section \<open>Name LSAs\<close>

lemma name_tokens:
  assumes "codec_ok L" and "lsa_sendable l"
  shows "tokens L (name_getData L l) = [toUri L (ls_origRouter l), NAME_TYPE,
    showNat L (unat (ls_seqNo l)), isoString L (ls_expiration l), showNat L (length (nl_npl l))]
    @ map (toUri L) (nl_npl l)"
proof -
  let ?ts = "[toUri L (ls_origRouter l), NAME_TYPE, showNat L (unat (ls_seqNo l)),
    isoString L (ls_expiration l), showNat L (length (nl_npl l))] @ map (toUri L) (nl_npl l)"
  have data_eq: "name_getData L l = concat (map (\<lambda>t. t @ ''|'') ?ts)"
    using join_fields [of "toUri L" "nl_npl l"] by (simp add: name_getData_def o_def)
  have fields: "list_all field_ok ?ts"
    using assms codec_laws [OF assms(1)] by (simp add: lsa_sendable_def type_fields list_all_iff)
  show ?thesis
    unfolding data_eq by (rule codec_laws(8) [OF assms(1) fields])
qed

lemma parse_names_written:
  assumes "codec_ok L"
  shows "parse_names L (length ns) (map (toUri L) ns @ rest) l = Parsed (fold addName ns l)"
  by (induction ns arbitrary: l) (simp_all add: codec_laws(1) [OF assms])

lemma name_roundtrip:
  assumes L: "codec_ok L" and l: "lsa_sendable l" "name_lsa_wf l" and len: "length (nl_npl l) < 2 ^ 32"
  shows "name_initializeFromContent L (name_getData L l) =
    Parsed (l\<lparr>ls_type := NAME_TYPE, ls_event := None\<rparr>)"
proof -
  have "fold (\<lambda>n s. snd (npl_insert n s)) (nl_npl l) [] = nl_npl l"
    using fold_npl_insert_distinct [of "[]" "nl_npl l"] l(2) by (simp add: name_lsa_wf_def)
  moreover have "parse_names L (length (nl_npl l)) (map (toUri L) (nl_npl l)) m = Parsed (fold addName (nl_npl l) m)" for m
    using parse_names_written [OF L, of "nl_npl l" "[]"] by simp
  ultimately show ?thesis
    using codec_laws(1,4) [OF L] codec_laws(6) [OF L, of "ls_expiration l"] l(1)
    by (simp add: name_initializeFromContent_def name_tokens [OF L l(1)] readU32_length [OF L len]
        length_word [OF len] fold_addName name_lsa_default_def lsa_sendable_def)
qed

section \<open>Adjacency LSAs\<close>

definition link_sendable :: "adjacent \<Rightarrow> bool" where
  "link_sendable a \<longleftrightarrow> field_ok (ad_faceUri a) \<and> 0 \<le> ad_linkCost a \<and> ad_linkCost a \<le> 2 ^ 52"

text \<open>What a link is after it was sent: the cost rounded up, the status not known.\<close>

definition received_link :: "adjacent \<Rightarrow> adjacent" where
  "received_link a = a\<lparr>ad_linkCost := of_int \<lceil>ad_linkCost a\<rceil>, ad_status := STATUS_INACTIVE,
     ad_timedOut := 0, ad_faceId := 0\<rparr>"

lemma sent_cost:
  assumes "codec_ok L" and "link_sendable a"
  shows "readDouble L (showNat L (unat (getLinkCost a))) = Some (of_int \<lceil>ad_linkCost a\<rceil>)"
proof -
  have "cost_in_range a"
    using assms(2) by (simp add: cost_in_range_def link_sendable_def)
  then have cost: "real (unat (getLinkCost a)) = of_int \<lceil>ad_linkCost a\<rceil>"
    by (rule getLinkCost_exact)
  then have "int (unat (getLinkCost a)) = \<lceil>ad_linkCost a\<rceil>"
    by (metis of_int_eq_iff of_int_of_nat_eq)
  moreover have "\<lceil>ad_linkCost a\<rceil> \<le> 2 ^ 52"
    using assms(2) by (simp add: link_sendable_def ceiling_le_iff)
  moreover have "(2 :: int) ^ 52 < 2 ^ 53"
    by simp
  ultimately have "int (unat (getLinkCost a)) < int (2 ^ 53)"
    by (simp only: of_nat_power of_nat_numeral)
  then have "unat (getLinkCost a) < 2 ^ 53"
    by (simp only: of_nat_less_iff)
  with codec_laws(5) [OF assms(1)] cost show ?thesis by simp
qed

lemma adj_tokens:
  assumes "codec_ok L" and "lsa_sendable l" and "list_all link_sendable (al_adl l)"
  shows "tokens L (adj_getData L l) = [toUri L (ls_origRouter l), ADJ_TYPE,
    showNat L (unat (ls_seqNo l)), isoString L (ls_expiration l), showNat L (length (al_adl l))]
    @ concat (map (\<lambda>a. [toUri L (ad_name a), ad_faceUri a, showNat L (unat (getLinkCost a))]) (al_adl l))"
proof -
  let ?ts = "[toUri L (ls_origRouter l), ADJ_TYPE,
    showNat L (unat (ls_seqNo l)), isoString L (ls_expiration l), showNat L (length (al_adl l))]
    @ concat (map (\<lambda>a. [toUri L (ad_name a), ad_faceUri a, showNat L (unat (getLinkCost a))]) (al_adl l))"
  have data_eq: "adj_getData L l = concat (map (\<lambda>t. t @ ''|'') ?ts)"
    using join_triples [of "\<lambda>a. toUri L (ad_name a)" ad_faceUri "\<lambda>a. showNat L (unat (getLinkCost a))" "al_adl l"]
    by (simp add: adj_getData_def)
  have fields: "list_all field_ok ?ts"
    using assms(2,3) codec_laws(2,3) [OF assms(1)] codec_laws(7) [OF assms(1), of "ls_expiration l"]
    by (auto simp: lsa_sendable_def type_fields list_all_iff link_sendable_def)
  show ?thesis
    unfolding data_eq by (rule codec_laws(8) [OF assms(1) fields])
qed

lemma parse_links_written:
  assumes "codec_ok L" and "list_all link_sendable adl"
  shows "parse_links L (length adl)
      (concat (map (\<lambda>a. [toUri L (ad_name a), ad_faceUri a, showNat L (unat (getLinkCost a))]) adl)) l =
    Parsed (fold addAdjacent (map received_link adl) l)"
  using assms(2)
proof (induction adl arbitrary: l)
  case (Cons a adl)
  then show ?case
    using codec_laws(1) [OF assms(1)] sent_cost [OF assms(1), of a]
    by (cases a) (simp add: received_link_def)
qed simp

lemma fold_addAdjacent: "fold addAdjacent adl l = l\<lparr>al_adl := addAdjacents adl (al_adl l)\<rparr>"
  by (induction adl arbitrary: l) (simp_all add: addAdjacent_def addAdjacents_def)

lemma adj_roundtrip:
  assumes L: "codec_ok L" and l: "lsa_sendable l" "adj_lsa_wf l" "list_all link_sendable (al_adl l)"
    and len: "length (al_adl l) < 2 ^ 32"
  shows "adj_initializeFromContent L (adj_getData L l) =
    Parsed (l\<lparr>ls_type := ADJ_TYPE, ls_event := None, al_noLink := None, al_adl := map received_link (al_adl l)\<rparr>)"
proof -
  have "distinct (map ad_name (map received_link (al_adl l)))"
    using l(2) by (simp add: adj_lsa_wf_def adl_wf_def received_link_def o_def)
  then have "addAdjacents (map received_link (al_adl l)) [] = map received_link (al_adl l)"
    using addAdjacents_distinct [of "[]"] by simp
  then show ?thesis
    using codec_laws(1,4) [OF L] codec_laws(6) [OF L, of "ls_expiration l"] l(1)
      parse_links_written [OF L l(3)]
    by (simp add: adj_initializeFromContent_def adj_tokens [OF L l(1,3)] readU32_length [OF L len]
        length_word [OF len] fold_addAdjacent adj_lsa_default_def lsa_sendable_def)
qed

section \<open>Coordinate LSAs\<close>

definition double_ok :: "ndn_lib \<Rightarrow> real \<Rightarrow> bool" where
  "double_ok L x \<longleftrightarrow> field_ok (showDouble L x) \<and> readDouble L (showDouble L x) = Some x"

lemma cor_roundtrip:
  assumes L: "codec_ok L" and l: "lsa_sendable l"
    and d: "double_ok L (cl_corRad l)" "double_ok L (cl_corTheta l)"
  shows "cor_initializeFromContent L (cor_getData L l) =
    Parsed (l\<lparr>ls_type := COR_TYPE, ls_event := None\<rparr>)"
proof -
  let ?ts = "[toUri L (ls_origRouter l), COR_TYPE, showNat L (unat (ls_seqNo l)),
    isoString L (ls_expiration l), showDouble L (cl_corRad l), showDouble L (cl_corTheta l)]"
  have data_eq: "cor_getData L l = concat (map (\<lambda>t. t @ ''|'') ?ts)"
    by (simp add: cor_getData_def)
  have fields: "list_all field_ok ?ts"
    using l d codec_laws [OF L] by (simp add: lsa_sendable_def type_fields double_ok_def)
  have "tokens L (cor_getData L l) = ?ts"
    unfolding data_eq by (rule codec_laws(8) [OF L fields])
  then show ?thesis
    using codec_laws(1,4) [OF L] codec_laws(6) [OF L, of "ls_expiration l"] l d
    by (simp add: cor_initializeFromContent_def cor_lsa_default_def lsa_sendable_def double_ok_def)
qed

end
