(* ===== verification/Lsdb_Lists.thy ===== *)
theory Lsdb_Lists
  imports Lsa
begin

text \<open>
  The three lists of the LSDB (src/src/lsdb.cpp) as tables: searching by key, adding at the
  end, the test whether a sequence number is newer. \<open>lsa_table\<close> is the contract the rest of
  the LSDB uses of all three.
\<close>

definition findNameLsa :: "name \<Rightarrow> name_lsa list \<Rightarrow> name_lsa option" where
  "findNameLsa key db = find (\<lambda>l. nameLsaKey l = key) db"

definition findCoordinateLsa :: "name \<Rightarrow> cor_lsa list \<Rightarrow> cor_lsa option" where
  "findCoordinateLsa key db = find (\<lambda>l. corLsaKey l = key) db"

definition findAdjLsa :: "name \<Rightarrow> adj_lsa list \<Rightarrow> adj_lsa option" where
  "findAdjLsa key db = find (\<lambda>l. adjLsaKey l = key) db"

text \<open>\<open>getLsSeqNo() < seqNo\<close> compares as \<open>uint64_t\<close>.\<close>

definition isNameLsaNew :: "name \<Rightarrow> 64 word \<Rightarrow> name_lsa list \<Rightarrow> bool" where
  "isNameLsaNew key seqNo db = (case findNameLsa key db of
       Some l \<Rightarrow> if ucast (ls_seqNo l) < seqNo then True else False
     | None \<Rightarrow> True)"

definition isCoordinateLsaNew :: "name \<Rightarrow> 64 word \<Rightarrow> cor_lsa list \<Rightarrow> bool" where
  "isCoordinateLsaNew key seqNo db = (case findCoordinateLsa key db of
       Some l \<Rightarrow> if ucast (ls_seqNo l) < seqNo then True else False
     | None \<Rightarrow> True)"

definition isAdjLsaNew :: "name \<Rightarrow> 64 word \<Rightarrow> adj_lsa list \<Rightarrow> bool" where
  "isAdjLsaNew key seqNo db = (case findAdjLsa key db of
       Some l \<Rightarrow> if ucast (ls_seqNo l) < seqNo then True else False
     | None \<Rightarrow> True)"

definition doesNameLsaExist :: "name \<Rightarrow> name_lsa list \<Rightarrow> bool" where
  "doesNameLsaExist key db = (case find (\<lambda>l. nameLsaKey l = key) db of None \<Rightarrow> False | Some _ \<Rightarrow> True)"

definition doesCoordinateLsaExist :: "name \<Rightarrow> cor_lsa list \<Rightarrow> bool" where
  "doesCoordinateLsaExist key db = (case find (\<lambda>l. corLsaKey l = key) db of None \<Rightarrow> False | Some _ \<Rightarrow> True)"

definition doesAdjLsaExist :: "name \<Rightarrow> adj_lsa list \<Rightarrow> bool" where
  "doesAdjLsaExist key db = (case find (\<lambda>l. adjLsaKey l = key) db of None \<Rightarrow> False | Some _ \<Rightarrow> True)"

section \<open>The keys\<close>

lemma key_origin [simp]:
  "nameLsaKey a = nameLsaKey b \<longleftrightarrow> ls_origRouter a = ls_origRouter b"
  "adjLsaKey x = adjLsaKey y \<longleftrightarrow> ls_origRouter x = ls_origRouter y"
  "corLsaKey u = corLsaKey v \<longleftrightarrow> ls_origRouter u = ls_origRouter v"
  by (simp_all add: nameLsaKey_def adjLsaKey_def corLsaKey_def)

lemma find_by_origin:
  "findNameLsa (r @ [NAME_TYPE]) ns = by_key ls_origRouter r ns"
  "findAdjLsa (r @ [ADJ_TYPE]) as = by_key ls_origRouter r as"
  "findCoordinateLsa (r @ [COR_TYPE]) cs = by_key ls_origRouter r cs"
  by (simp_all add: findNameLsa_def findAdjLsa_def findCoordinateLsa_def by_key_def
      nameLsaKey_def adjLsaKey_def corLsaKey_def)

lemma find_keyed:
  "findNameLsa key ns = by_key nameLsaKey key ns"
  "findAdjLsa key as = by_key adjLsaKey key as"
  "findCoordinateLsa key cs = by_key corLsaKey key cs"
  by (simp_all add: findNameLsa_def findAdjLsa_def findCoordinateLsa_def by_key_def)

text \<open>\<open>isLsaNew\<close> is the same question for the three kinds.\<close>

definition newer :: "64 word \<Rightarrow> 'l lsa_scheme option \<Rightarrow> bool" where
  "newer seqNo r \<longleftrightarrow> (case r of None \<Rightarrow> True | Some l \<Rightarrow> ucast (ls_seqNo l) < seqNo)"

lemma isNew_newer:
  "isNameLsaNew key s ns = newer s (findNameLsa key ns)"
  "isAdjLsaNew key s as = newer s (findAdjLsa key as)"
  "isCoordinateLsaNew key s cs = newer s (findCoordinateLsa key cs)"
  by (simp_all add: newer_def isNameLsaNew_def isAdjLsaNew_def isCoordinateLsaNew_def split: option.split)

end
