(* ===== verification/Router_Map.thy ===== *)
theory Router_Map
  imports Lsa
begin

text \<open>
  \<open>Map\<close> (src/src/route/map.cpp, map-entry.hpp): the numbering of the routers that the
  cost matrix of the route calculation is indexed with. The locale \<open>numbering\<close> is what
  the calculation relies on: the numbers in use are \<open>0 \<dots> size - 1\<close> and each names one
  router.
\<close>

record map_entry =
  me_router :: name
  me_mappingNumber :: int

record router_map =
  rm_mappingIndex :: int
  rm_table :: "map_entry list"

definition rm_empty :: router_map where
  "rm_empty = \<lparr>rm_mappingIndex = 0, rm_table = []\<rparr>"

definition rm_addMapEntry :: "map_entry \<Rightarrow> router_map \<Rightarrow> bool \<times> router_map" where
  "rm_addMapEntry mpe m = (case find (\<lambda>e. me_router e = me_router mpe) (rm_table m) of
       None \<Rightarrow> (True, m\<lparr>rm_table := rm_table m @ [mpe]\<rparr>)
     | Some _ \<Rightarrow> (False, m))"

definition rm_addEntry :: "name \<Rightarrow> router_map \<Rightarrow> router_map" where
  "rm_addEntry n m =
     (case rm_addMapEntry \<lparr>me_router = n, me_mappingNumber = rm_mappingIndex m\<rparr> m of
        (added, m') \<Rightarrow> if added then m'\<lparr>rm_mappingIndex := rm_mappingIndex m' + 1\<rparr> else m')"

definition getRouterNameByMappingNo :: "int \<Rightarrow> router_map \<Rightarrow> name" where
  "getRouterNameByMappingNo i m = (case find (\<lambda>e. me_mappingNumber e = i) (rm_table m) of
       Some e \<Rightarrow> me_router e
     | None \<Rightarrow> [])"

definition getMappingNoByRouterName :: "name \<Rightarrow> router_map \<Rightarrow> int" where
  "getMappingNoByRouterName n m = (case find (\<lambda>e. me_router e = n) (rm_table m) of
       Some e \<Rightarrow> me_mappingNumber e
     | None \<Rightarrow> -1)"

definition createFromAdjLsdb :: "adj_lsa list \<Rightarrow> router_map \<Rightarrow> router_map" where
  "createFromAdjLsdb lsdb m =
     fold (\<lambda>l m. fold (\<lambda>a. rm_addEntry (ad_name a)) (al_adl l) (rm_addEntry (ls_origRouter l) m)) lsdb m"

definition getMapSize :: "router_map \<Rightarrow> nat" where
  "getMapSize m = length (rm_table m)"

definition rm_reset :: "router_map \<Rightarrow> router_map" where
  "rm_reset m = m\<lparr>rm_table := [], rm_mappingIndex := 0\<rparr>"

section \<open>The interface\<close>

locale numbering =
  fixes name_of :: "int \<Rightarrow> 's \<Rightarrow> 'n"
    and number_of :: "'n \<Rightarrow> 's \<Rightarrow> int"
    and size_of :: "'s \<Rightarrow> nat"
    and wf :: "'s \<Rightarrow> bool"
  assumes number_range: "wf s \<Longrightarrow> number_of n s = -1 \<or> 0 \<le> number_of n s \<and> number_of n s < int (size_of s)"
    and name_number: "wf s \<Longrightarrow> number_of n s \<noteq> -1 \<Longrightarrow> name_of (number_of n s) s = n"
    and number_name: "wf s \<Longrightarrow> 0 \<le> i \<Longrightarrow> i < int (size_of s) \<Longrightarrow> number_of (name_of i s) s = i"
begin

lemma number_inj:
  "wf s \<Longrightarrow> number_of a s = number_of b s \<Longrightarrow> number_of a s \<noteq> -1 \<Longrightarrow> a = b"
  by (metis name_number)

lemma name_inj:
  "wf s \<Longrightarrow> 0 \<le> i \<Longrightarrow> i < int (size_of s) \<Longrightarrow> 0 \<le> j \<Longrightarrow> j < int (size_of s) \<Longrightarrow>
   name_of i s = name_of j s \<Longrightarrow> i = j"
  by (metis number_name)

lemma number_nonneg: "wf s \<Longrightarrow> number_of n s \<noteq> -1 \<Longrightarrow> 0 \<le> number_of n s"
  using number_range by blast

lemma number_nat:
  "wf s \<Longrightarrow> number_of n s \<noteq> -1 \<Longrightarrow> nat (number_of n s) < size_of s"
  using number_range [of s n] by auto

lemma numbers_bij:
  assumes "wf s"
  shows "bij_betw (\<lambda>i. name_of i s) {0..<int (size_of s)} {n. number_of n s \<noteq> -1}"
proof (rule bij_betw_imageI)
  show "inj_on (\<lambda>i. name_of i s) {0..<int (size_of s)}"
    using assms by (auto intro!: inj_onI dest: name_inj)
  show "(\<lambda>i. name_of i s) ` {0..<int (size_of s)} = {n. number_of n s \<noteq> -1}"
    using assms number_name name_number number_range
    by (auto simp: image_iff) (metis atLeastLessThan_iff)
qed

end

section \<open>The table is a numbering\<close>

definition rm_wf :: "router_map \<Rightarrow> bool" where
  "rm_wf m \<longleftrightarrow> distinct (map me_router (rm_table m)) \<and>
     map me_mappingNumber (rm_table m) = map int [0..<length (rm_table m)] \<and>
     rm_mappingIndex m = int (length (rm_table m))"

lemma rm_wf_empty [simp]: "rm_wf rm_empty"
  by (simp add: rm_wf_def rm_empty_def)

lemma rm_wf_reset [simp]: "rm_wf (rm_reset m)"
  by (simp add: rm_wf_def rm_reset_def)

lemma rm_addEntry_alt:
  "rm_addEntry n m = (if n \<in> me_router ` set (rm_table m) then m
     else m\<lparr>rm_table := rm_table m @ [\<lparr>me_router = n, me_mappingNumber = rm_mappingIndex m\<rparr>],
            rm_mappingIndex := rm_mappingIndex m + 1\<rparr>)"
proof (cases "by_key me_router n (rm_table m)")
  case None
  then show ?thesis
    by (simp add: by_key_None) (simp add: rm_addEntry_def rm_addMapEntry_def None [unfolded by_key_def])
next
  case (Some e)
  then have "n \<in> me_router ` set (rm_table m)"
    by (metis by_key_None option.distinct(1))
  with Some show ?thesis
    by (simp add: rm_addEntry_def rm_addMapEntry_def by_key_def)
qed

lemma rm_wf_addEntry [inv_intros]: "rm_wf m \<Longrightarrow> rm_wf (rm_addEntry n m)"
  by (auto simp: rm_wf_def rm_addEntry_alt)

lemma routers_addEntry:
  "me_router ` set (rm_table (rm_addEntry n m)) = insert n (me_router ` set (rm_table m))"
  by (auto simp: rm_addEntry_alt)

lemma fold_addEntry:
  "rm_wf m \<Longrightarrow> rm_wf (fold (\<lambda>a. rm_addEntry (f a)) xs m)"
  "me_router ` set (rm_table (fold (\<lambda>a. rm_addEntry (f a)) xs m)) =
     f ` set xs \<union> me_router ` set (rm_table m)"
  by (induction xs arbitrary: m) (auto simp: rm_wf_addEntry routers_addEntry)

lemma rm_wf_create [inv_intros]: "rm_wf m \<Longrightarrow> rm_wf (createFromAdjLsdb lsdb m)"
  unfolding createFromAdjLsdb_def
  by (induction lsdb arbitrary: m) (simp_all add: fold_addEntry rm_wf_addEntry)

lemma routers_create:
  "me_router ` set (rm_table (createFromAdjLsdb lsdb m)) =
     ls_origRouter ` set lsdb \<union> (\<Union>l\<in>set lsdb. ad_name ` set (al_adl l)) \<union> me_router ` set (rm_table m)"
  unfolding createFromAdjLsdb_def
  by (induction lsdb arbitrary: m) (auto simp: fold_addEntry routers_addEntry)

lemma getMappingNo_iff:
  assumes "rm_wf m"
  shows "getMappingNoByRouterName n m = -1 \<longleftrightarrow> n \<notin> me_router ` set (rm_table m)"
proof (cases "by_key me_router n (rm_table m)")
  case None
  then show ?thesis
    by (simp add: getMappingNoByRouterName_def by_key_None) (simp add: None [unfolded by_key_def])
next
  case (Some e)
  then have e: "e \<in> set (rm_table m)" "me_router e = n"
    by (auto dest: by_key_SomeD)
  then have "me_mappingNumber e \<in> set (map int [0..<length (rm_table m)])"
    using assms by (metis image_eqI list.set_map rm_wf_def)
  with e Some show ?thesis
    by (auto simp: getMappingNoByRouterName_def by_key_def)
qed

lemma rm_nth:
  assumes "rm_wf m" and "i < length (rm_table m)"
  shows "me_mappingNumber (rm_table m ! i) = int i"
proof -
  have "map me_mappingNumber (rm_table m) ! i = map int [0..<length (rm_table m)] ! i"
    using assms by (simp add: rm_wf_def)
  with assms(2) show ?thesis by simp
qed

lemma rm_numbers_distinct: "rm_wf m \<Longrightarrow> distinct (map me_mappingNumber (rm_table m))"
  by (auto simp: rm_wf_def distinct_map)

lemma getMappingNo_nth:
  assumes "rm_wf m" and "i < length (rm_table m)"
  shows "getMappingNoByRouterName (me_router (rm_table m ! i)) m = int i"
  using by_key_mem [of me_router "rm_table m" "rm_table m ! i"] rm_nth [OF assms] assms
  by (simp add: getMappingNoByRouterName_def by_key_def rm_wf_def)

lemma getRouterName_nth:
  assumes "rm_wf m" and "i < length (rm_table m)"
  shows "getRouterNameByMappingNo (int i) m = me_router (rm_table m ! i)"
  using by_key_mem [OF rm_numbers_distinct, of m "rm_table m ! i"] rm_nth [OF assms] assms
  by (simp add: getRouterNameByMappingNo_def by_key_def)

interpretation rm: numbering getRouterNameByMappingNo getMappingNoByRouterName getMapSize rm_wf
proof
  fix m :: router_map and n :: name and i :: int
  assume wf: "rm_wf m"
  show "getMappingNoByRouterName n m = -1 \<or>
      0 \<le> getMappingNoByRouterName n m \<and> getMappingNoByRouterName n m < int (getMapSize m)"
    using getMappingNo_iff [OF wf, of n] getMappingNo_nth [OF wf]
    by (auto simp: getMapSize_def in_set_conv_nth)
  show "getMappingNoByRouterName n m \<noteq> -1 \<Longrightarrow>
      getRouterNameByMappingNo (getMappingNoByRouterName n m) m = n"
    using getMappingNo_iff [OF wf, of n] getMappingNo_nth [OF wf] getRouterName_nth [OF wf]
    by (auto simp: in_set_conv_nth)
  show "0 \<le> i \<Longrightarrow> i < int (getMapSize m) \<Longrightarrow>
      getMappingNoByRouterName (getRouterNameByMappingNo i m) m = i"
    using getMappingNo_nth [OF wf, of "nat i"] getRouterName_nth [OF wf, of "nat i"]
    by (simp add: getMapSize_def nat_less_iff)
qed

lemma getRouterName_absent: "rm_wf m \<Longrightarrow> \<not> (0 \<le> i \<and> i < int (getMapSize m)) \<Longrightarrow>
   getRouterNameByMappingNo i m = []"
proof -
  assume wf: "rm_wf m" and i: "\<not> (0 \<le> i \<and> i < int (getMapSize m))"
  have "find (\<lambda>e. me_mappingNumber e = i) (rm_table m) = None"
    unfolding find_None_all
  proof
    fix e assume "e \<in> set (rm_table m)"
    then obtain j where "j < length (rm_table m)" and "e = rm_table m ! j"
      by (auto simp: in_set_conv_nth)
    with i rm_nth [OF wf, of j] show "me_mappingNumber e \<noteq> i"
      by (auto simp: getMapSize_def)
  qed
  then show ?thesis by (simp add: getRouterNameByMappingNo_def)
qed

end
