(* ===== verification/Fib.thy ===== *)
theory Fib
  imports Nexthop Adjacency
begin

text \<open>
  The table of routes given to the local forwarder (src/src/route/fib.cpp, fib-entry.hpp,
  face-map.hpp). \<open>Fib\<close> refers to the adjacency list and the configuration, which are
  arguments here; its commands to the forwarder and its timers go through \<open>io\<close>.
\<close>

section \<open>Face identifiers of the URIs that were registered\<close>

record face_map_entry =
  fm_faceUri :: string
  fm_faceId :: "32 word"

type_synonym face_map = "face_map_entry list"

definition fm_update :: "string \<Rightarrow> 32 word \<Rightarrow> face_map \<Rightarrow> face_map" where
  "fm_update uri fid m = (case find (\<lambda>e. uri = fm_faceUri e) m of
       None \<Rightarrow> m @ [\<lparr>fm_faceUri = uri, fm_faceId = fid\<rparr>]
     | Some _ \<Rightarrow> update_first (\<lambda>e. uri = fm_faceUri e) (\<lambda>e. e\<lparr>fm_faceId := fid\<rparr>) m)"

definition fm_getFaceId :: "string \<Rightarrow> face_map \<Rightarrow> 32 word" where
  "fm_getFaceId uri m = (case find (\<lambda>e. uri = fm_faceUri e) m of
       Some e \<Rightarrow> fm_faceId e
     | None \<Rightarrow> 0)"

text \<open>What the table of routes relies on: the last identifier stored is the one found.\<close>

locale last_value_store =
  fixes put :: "'k \<Rightarrow> 'v \<Rightarrow> 's \<Rightarrow> 's"
    and get :: "'k \<Rightarrow> 's \<Rightarrow> 'v"
  assumes get_put: "get k (put k' v s) = (if k = k' then v else get k s)"
begin

lemma get_put_same [simp]: "get k (put k v s) = v"
  by (simp add: get_put)

lemma get_put_other [simp]: "k \<noteq> k' \<Longrightarrow> get k (put k' v s) = get k s"
  by (simp add: get_put)

text \<open>After a sequence of updates the value is that of the last update of the key.\<close>

lemma get_fold_put:
  "get k (fold (\<lambda>(k, v). put k v) kvs s) =
     (case map_of (rev kvs) k of None \<Rightarrow> get k s | Some v \<Rightarrow> v)"
proof (induction kvs arbitrary: s)
  case (Cons kv kvs)
  then show ?case
    by (cases kv) (auto simp: get_put map_add_def split: option.split)
qed simp

end

lemma fm_alt:
  "fm_update uri fid m = (case by_key fm_faceUri uri m of
       None \<Rightarrow> m @ [\<lparr>fm_faceUri = uri, fm_faceId = fid\<rparr>]
     | Some _ \<Rightarrow> update_first (\<lambda>e. fm_faceUri e = uri) (\<lambda>e. e\<lparr>fm_faceId := fid\<rparr>) m)"
  "fm_getFaceId uri m = (case by_key fm_faceUri uri m of Some e \<Rightarrow> fm_faceId e | None \<Rightarrow> 0)"
  unfolding fm_update_def fm_getFaceId_def by_key_def
  by (simp_all only: eq_commute [of uri])

interpretation fm: last_value_store fm_update fm_getFaceId
proof
  fix k k' :: string and v :: "32 word" and s :: face_map
  show "fm_getFaceId k (fm_update k' v s) = (if k = k' then v else fm_getFaceId k s)"
    by (auto simp: fm_alt by_key_append by_key_update_first split: option.split)
qed

section \<open>State\<close>

record fib_entry =
  fe_name :: name
  fe_expiration :: time_point
  fe_event :: event_id
  fe_seqNo :: "32 word"
  fe_hops :: nexthop_list

definition fib_entry_named :: "name \<Rightarrow> fib_entry" where
  "fib_entry_named n = \<lparr>fe_name = n, fe_expiration = 0, fe_event = None, fe_seqNo = 0, fe_hops = []\<rparr>"

record fib =
  fib_table :: "fib_entry list"
  fib_refreshTime :: "32 word"
  fib_faceMap :: face_map

definition fib_empty :: fib where
  "fib_empty = \<lparr>fib_table = [], fib_refreshTime = 0, fib_faceMap = []\<rparr>"

definition GRACE_PERIOD :: "64 word" where
  "GRACE_PERIOD = 10"

definition setEntryRefreshTime :: "32 word \<Rightarrow> fib \<Rightarrow> fib" where
  "setEntryRefreshTime t f = f\<lparr>fib_refreshTime := t\<rparr>"

section \<open>Commands to the forwarder\<close>

definition isPrefixUpdatable :: "adjacency_list \<Rightarrow> name \<Rightarrow> bool" where
  "isPrefixUpdatable adl n = (if \<not> isNeighbor n adl then True else False)"

definition registerPrefixInNfd ::
  "control_parameters \<Rightarrow> string \<Rightarrow> 8 word \<Rightarrow> io \<Rightarrow> io" where
  "registerPrefixInNfd p uri tries s = emit (RibRegister p (CbFib uri tries)) s"

text \<open>The expiration period is in milliseconds.\<close>

definition registerPrefix ::
  "adjacency_list \<Rightarrow> name \<Rightarrow> string \<Rightarrow> 64 word \<Rightarrow> int \<Rightarrow> 64 word \<Rightarrow> 8 word \<Rightarrow> io \<Rightarrow> io" where
  "registerPrefix adl n uri cost timeout flags tries s =
     (let fid = adl_getFaceId uri adl
      in if fid \<noteq> 0
         then registerPrefixInNfd \<lparr>cp_name = n, cp_faceId = Some fid, cp_flags = flags,
                cp_cost = cost, cp_expiration = timeout, cp_origin = 128\<rparr> uri tries s
         else s)"

text \<open>The overload for a face that is first created, with the caller's callbacks.\<close>

definition fib_createFace :: "string \<Rightarrow> face_continuation \<Rightarrow> io \<Rightarrow> io" where
  "fib_createFace uri k s = emit (CreateFace uri k) s"

definition registerPrefixOnNewFace ::
  "name \<Rightarrow> string \<Rightarrow> 64 word \<Rightarrow> int \<Rightarrow> 64 word \<Rightarrow> 8 word \<Rightarrow> rib_callback \<Rightarrow> io \<Rightarrow> io" where
  "registerPrefixOnNewFace n uri cost timeout flags tries cb s =
     fib_createFace uri (ThenRegister \<lparr>cp_name = n, cp_faceId = None, cp_flags = flags,
       cp_cost = cost, cp_expiration = timeout, cp_origin = 128\<rparr> tries cb) s"

definition registerOnCreatedFace ::
  "64 word \<Rightarrow> control_parameters \<Rightarrow> 8 word \<Rightarrow> rib_callback \<Rightarrow> io \<Rightarrow> io" where
  "registerOnCreatedFace fid p tries cb s =
     emit (RibRegister \<lparr>cp_name = cp_name p, cp_faceId = Some fid, cp_flags = cp_flags p,
       cp_cost = cp_cost p, cp_expiration = cp_expiration p, cp_origin = 128\<rparr> cb) s"

definition fib_destroyFace :: "string \<Rightarrow> io \<Rightarrow> io" where
  "fib_destroyFace uri s = fib_createFace uri ThenDestroy s"

definition destroyFaceInNfd :: "64 word \<Rightarrow> io \<Rightarrow> io" where
  "destroyFaceInNfd fid s = emit (DestroyFace fid) s"

definition unregisterPrefix :: "fib \<Rightarrow> name \<Rightarrow> string \<Rightarrow> io \<Rightarrow> io" where
  "unregisterPrefix f n uri s =
     (let fid = fm_getFaceId uri (fib_faceMap f)
      in if fid > 0 then emit (RibUnregister n fid) s else s)"

definition fib_setStrategy :: "name \<Rightarrow> string \<Rightarrow> 32 word \<Rightarrow> io \<Rightarrow> io" where
  "fib_setStrategy n strategy retries s = emit (SetStrategy n strategy retries) s"

text \<open>Replies of the forwarder. The face identifier is narrowed to 32 bits.\<close>

definition fib_onRegistration :: "64 word \<Rightarrow> string \<Rightarrow> fib \<Rightarrow> fib" where
  "fib_onRegistration fid uri f = f\<lparr>fib_faceMap := fm_update uri (ucast fid) (fib_faceMap f)\<rparr>"

definition onRegistrationFailure ::
  "adjacency_list \<Rightarrow> control_parameters \<Rightarrow> string \<Rightarrow> 8 word \<Rightarrow> io \<Rightarrow> io" where
  "onRegistrationFailure adl p uri tries s =
     (if tries < 3
      then registerPrefix adl (cp_name p) uri (cp_cost p) (cp_expiration p) (cp_flags p) (tries + 1) s
      else s)"

definition onSetStrategyFailure :: "name \<Rightarrow> string \<Rightarrow> 32 word \<Rightarrow> io \<Rightarrow> io" where
  "onSetStrategyFailure n strategy retries s =
     (if retries < 3 then fib_setStrategy n strategy (retries + 1) s else s)"

section \<open>Operations on the table\<close>

definition fib_find :: "name \<Rightarrow> fib \<Rightarrow> fib_entry option" where
  "fib_find n f = find (\<lambda>e. fe_name e = n) (fib_table f)"

definition scheduleEntryExpiration :: "name \<Rightarrow> 32 word \<Rightarrow> int \<Rightarrow> io \<Rightarrow> event_id \<times> io" where
  "scheduleEntryExpiration n seqNo expTime s = scheduleEvent expTime (EvFibRemove n) s"

definition unregisterUpdatable ::
  "adjacency_list \<Rightarrow> fib \<Rightarrow> name \<Rightarrow> string \<Rightarrow> io \<Rightarrow> io" where
  "unregisterUpdatable adl f n uri s =
     (if isPrefixUpdatable adl n then unregisterPrefix f n uri s else s)"

definition fib_remove :: "adjacency_list \<Rightarrow> name \<Rightarrow> fib \<times> io \<Rightarrow> fib \<times> io" where
  "fib_remove adl n = (\<lambda>(f, s). case fib_find n f of
       Some e \<Rightarrow>
         let s = fold (\<lambda>h. unregisterUpdatable adl f (fe_name e) (nh_faceUri h)) (fe_hops e) s
         in (f\<lparr>fib_table := erase_first (\<lambda>e. fe_name e = n) (fib_table f)\<rparr>,
             cancelEvent (fe_event e) s)
     | None \<Rightarrow> (f, s))"

text \<open>\<open>m_refreshTime + GRACE_PERIOD\<close> is computed in \<open>uint64_t\<close>.\<close>

definition registrationPeriod :: "fib \<Rightarrow> int" where
  "registrationPeriod f = sint (scast (fib_refreshTime f) + GRACE_PERIOD) * 1000"

definition addNextHopsToFibEntryAndNfd ::
  "ndn_lib \<Rightarrow> adjacency_list \<Rightarrow> fib \<Rightarrow> nexthop_list \<Rightarrow> fib_entry \<times> io \<Rightarrow> fib_entry \<times> io" where
  "addNextHopsToFibEntryAndNfd L adl f hopsToAdd es =
     (let (e, s) = fold (\<lambda>h (e, s).
            (e\<lparr>fe_hops := addNextHop h (fe_hops e)\<rparr>,
             if isPrefixUpdatable adl (fe_name e)
             then registerPrefix adl (fe_name e) (nh_faceUri h) (getRouteCostAsAdjustedInteger h)
                    (registrationPeriod f) (routeFlagCapture L) 0 s
             else s)) hopsToAdd es
      in (e\<lparr>fe_hops := nhl_sort (fe_hops e)\<rparr>, s))"

text \<open>
  The iterator walks over the entry's hops; \<open>kept\<close> are those it has passed. The hop is
  removed by a search from the front for one with its URI and cost.
\<close>

fun removeOldHops ::
  "adjacency_list \<Rightarrow> fib \<Rightarrow> name \<Rightarrow> nexthop_list \<Rightarrow> nexthop_list \<Rightarrow> nexthop_list \<Rightarrow> io \<Rightarrow> nexthop_list \<times> io" where
  "removeOldHops adl f n installed kept [] s = (kept, s)"
| "removeOldHops adl f n installed kept (h # hs) s =
     (case find (\<lambda>x. nh_faceUri x = nh_faceUri h) installed of
        None \<Rightarrow> removeOldHops adl f n installed (removeNextHop h (kept @ [h])) hs
                 (unregisterUpdatable adl f n (nh_faceUri h) s)
      | Some _ \<Rightarrow> removeOldHops adl f n installed (kept @ [h]) hs s)"

definition removeOldNextHopsFromFibEntryAndNfd ::
  "adjacency_list \<Rightarrow> fib \<Rightarrow> nexthop_list \<Rightarrow> fib_entry \<times> io \<Rightarrow> fib_entry \<times> io" where
  "removeOldNextHopsFromFibEntryAndNfd adl f installed = (\<lambda>(e, s).
     case removeOldHops adl f (fe_name e) installed [] (fe_hops e) s of
       (hops, s) \<Rightarrow> (e\<lparr>fe_hops := hops\<rparr>, s))"

definition getNumberOfFacesForName :: "conf \<Rightarrow> nexthop_list \<Rightarrow> 32 word" where
  "getNumberOfFacesForName c hops =
     (let nNextHops = of_nat (length hops); nMaxFaces = cf_maxFacesPerPrefix c
      in if nMaxFaces = 0 then nNextHops else min nNextHops nMaxFaces)"

definition hopsToInstall :: "conf \<Rightarrow> nexthop_list \<Rightarrow> nexthop_list" where
  "hopsToInstall c allHops =
     (let sorted = nhl_sort allHops
      in fold addNextHop (take (unat (getNumberOfFacesForName c sorted)) sorted) [])"

definition refreshEntry :: "name \<Rightarrow> 32 word \<Rightarrow> fib \<Rightarrow> fib_entry \<times> io \<Rightarrow> fib_entry \<times> io" where
  "refreshEntry n seqNo f = (\<lambda>(e, s).
     let period = sint (fib_refreshTime f) * second;
         e = e\<lparr>fe_expiration := io_system_now s + period, fe_seqNo := seqNo\<rparr>;
         (eid, s) = scheduleEntryExpiration n seqNo period s
     in (e\<lparr>fe_event := eid\<rparr>, s))"

definition fib_update ::
  "ndn_lib \<Rightarrow> conf \<Rightarrow> adjacency_list \<Rightarrow> name \<Rightarrow> nexthop_list \<Rightarrow> fib \<times> io \<Rightarrow> fib \<times> io" where
  "fib_update L c adl n allHops = (\<lambda>(f, s).
     let hopsToAdd = hopsToInstall c allHops in
     case fib_find n f of
       None \<Rightarrow>
         if hopsToAdd = [] then (f, s)
         else
           let es = addNextHopsToFibEntryAndNfd L adl f hopsToAdd (fib_entry_named n, s);
               (e, s) = refreshEntry n 1 f es
           in (f\<lparr>fib_table := fib_table f @ [e]\<rparr>, s)
     | Some entry \<Rightarrow>
         if hopsToAdd = [] then fib_remove adl n (f, s)
         else
           let es = addNextHopsToFibEntryAndNfd L adl f hopsToAdd (entry, s);
               (e, s) = removeOldNextHopsFromFibEntryAndNfd adl f hopsToAdd es;
               (e, s) = refreshEntry n (fe_seqNo e + 1) f (e, cancelEvent (fe_event e) s)
           in (f\<lparr>fib_table := update_first (\<lambda>e. fe_name e = n) (\<lambda>_. e) (fib_table f)\<rparr>, s))"

definition fib_clean :: "fib \<times> io \<Rightarrow> fib \<times> io" where
  "fib_clean = (\<lambda>(f, s).
     (f\<lparr>fib_table := []\<rparr>,
      fold (\<lambda>e s. fold (\<lambda>h. unregisterPrefix f (fe_name e) (nh_faceUri h)) (fe_hops e)
                    (cancelEvent (fe_event e) s)) (fib_table f) s))"

definition fib_removeHop ::
  "adjacency_list \<Rightarrow> fib \<Rightarrow> nexthop_list \<Rightarrow> string \<Rightarrow> name \<Rightarrow> io \<Rightarrow> io" where
  "fib_removeHop adl f nl keep n s =
     fold (\<lambda>h s. if nh_faceUri h \<noteq> keep then unregisterUpdatable adl f n (nh_faceUri h) s else s) nl s"

section \<open>What the operations leave alone\<close>

text \<open>Commands do not touch the timers and the clocks.\<close>

definition timers :: "io \<Rightarrow> (nat \<times> int \<times> event) list \<times> nat \<times> time_point \<times> time_point" where
  "timers s = (io_pending s, io_next_id s, io_system_now s, io_steady_now s)"

lemma timers_emit [simp]: "timers (emit x s) = timers s"
  by (simp add: timers_def emit_def)

lemma timers_fold: "(\<And>x s. timers (g x s) = timers s) \<Longrightarrow> timers (fold g xs s) = timers s"
  by (induction xs arbitrary: s) simp_all

lemma timers_commands [simp]:
  "timers (registerPrefix adl n uri cost t fl tries s) = timers s"
  "timers (unregisterPrefix f n uri s) = timers s"
  "timers (unregisterUpdatable adl f n uri s) = timers s"
  by (simp_all add: registerPrefix_def registerPrefixInNfd_def unregisterPrefix_def
      unregisterUpdatable_def Let_def)

lemma timersD:
  "timers s = timers t \<Longrightarrow> io_pending s = io_pending t"
  "timers s = timers t \<Longrightarrow> io_next_id s = io_next_id t"
  "timers s = timers t \<Longrightarrow> io_system_now s = io_system_now t"
  "timers s = timers t \<Longrightarrow> io_steady_now s = io_steady_now t"
  by (simp_all add: timers_def)

definition registerHops ::
  "ndn_lib \<Rightarrow> adjacency_list \<Rightarrow> fib \<Rightarrow> name \<Rightarrow> nexthop_list \<Rightarrow> io \<Rightarrow> io" where
  "registerHops L adl f n hs s = (if isPrefixUpdatable adl n
     then fold (\<lambda>h. registerPrefix adl n (nh_faceUri h) (getRouteCostAsAdjustedInteger h)
                    (registrationPeriod f) (routeFlagCapture L) 0) hs s
     else s)"

lemma timers_registerHops [simp]: "timers (registerHops L adl f n hs s) = timers s"
  by (simp add: registerHops_def timers_fold)

lemma addNextHopsToFibEntryAndNfd_alt:
  "addNextHopsToFibEntryAndNfd L adl f hs (e, s) =
     (e\<lparr>fe_hops := nhl_sort (fold addNextHop hs (fe_hops e))\<rparr>, registerHops L adl f (fe_name e) hs s)"
proof -
  have "fold (\<lambda>h (e, s). (e\<lparr>fe_hops := addNextHop h (fe_hops e)\<rparr>,
             if isPrefixUpdatable adl (fe_name e)
             then registerPrefix adl (fe_name e) (nh_faceUri h) (getRouteCostAsAdjustedInteger h)
                    (registrationPeriod f) (routeFlagCapture L) 0 s
             else s)) hs (e, s) =
    (e\<lparr>fe_hops := fold addNextHop hs (fe_hops e)\<rparr>, registerHops L adl f (fe_name e) hs s)"
    by (induction hs arbitrary: e s) (simp_all add: registerHops_def)
  then show ?thesis
    by (simp add: addNextHopsToFibEntryAndNfd_def)
qed

section \<open>Removing the hops that are no longer installed\<close>

lemma removeNextHop_last:
  assumes "nh_faceUri h \<notin> nh_faceUri ` set kept"
  shows "removeNextHop h (kept @ [h]) = kept"
  using assms by (induction kept) (auto simp: removeNextHop_def nexthopRemoveCompare_def)

lemma removeOldHops_hops:
  assumes "nhl_wf (kept @ hs)"
  shows "fst (removeOldHops adl f n installed kept hs s) =
    kept @ filter (\<lambda>h. nh_faceUri h \<in> nh_faceUri ` set installed) hs"
  using assms
proof (induction hs arbitrary: kept s)
  case (Cons h hs)
  then have new: "nh_faceUri h \<notin> nh_faceUri ` set kept"
    by (simp add: nhl_wf_def)
  show ?case
  proof (cases "find (\<lambda>x. nh_faceUri x = nh_faceUri h) installed")
    case None
    then have "nh_faceUri h \<notin> nh_faceUri ` set installed"
      by (auto simp: find_None_all)
    with Cons None show ?thesis
      by (simp add: removeNextHop_last [OF new] nhl_wf_def)
  next
    case (Some x)
    then have "nh_faceUri h \<in> nh_faceUri ` set installed"
      by (auto dest!: find_SomeD simp: image_iff intro: sym)
    with Cons Some show ?thesis
      by simp
  qed
qed simp

lemma timers_removeOldHops [simp]:
  "timers (snd (removeOldHops adl f n installed kept hs s)) = timers s"
  by (induction hs arbitrary: kept s) (simp_all split: option.split)

section \<open>Well-formed tables\<close>

definition entry_wf :: "conf \<Rightarrow> fib_entry \<Rightarrow> bool" where
  "entry_wf c e \<longleftrightarrow> fe_hops e \<noteq> [] \<and> nhl_wf (fe_hops e) \<and> nhl_sorted (fe_hops e) \<and>
     (cf_maxFacesPerPrefix c \<noteq> 0 \<longrightarrow> length (fe_hops e) \<le> unat (cf_maxFacesPerPrefix c))"

definition fib_wf :: "conf \<Rightarrow> fib \<Rightarrow> bool" where
  "fib_wf c f \<longleftrightarrow> distinct (map fe_name (fib_table f)) \<and> list_all (entry_wf c) (fib_table f)"

lemma fib_find_by_key: "fib_find n f = by_key fe_name n (fib_table f)"
  by (simp add: fib_find_def by_key_def)

lemma numberOfFaces_le:
  assumes "cf_maxFacesPerPrefix c \<noteq> 0"
  shows "unat (getNumberOfFacesForName c l) \<le> unat (cf_maxFacesPerPrefix c)"
  using assms by (simp add: getNumberOfFacesForName_def Let_def word_le_nat_alt [symmetric])

lemma length_fold_add:
  "length (fold addNextHop hs l) \<le> length l + length hs"
proof (induction hs arbitrary: l)
  case (Cons h hs)
  have "length (addNextHop h l) \<le> Suc (length l)"
    by (simp add: addNextHop_def split: option.split)
  with Cons.IH [of "addNextHop h l"] show ?case by simp
qed simp

lemma nhl_wf_hopsToInstall [simp]: "nhl_wf (hopsToInstall c hs)"
  by (simp add: hopsToInstall_def Let_def nhl_wf_fold)

lemma length_hopsToInstall:
  assumes "cf_maxFacesPerPrefix c \<noteq> 0"
  shows "length (hopsToInstall c hs) \<le> unat (cf_maxFacesPerPrefix c)"
  using numberOfFaces_le [OF assms, of "nhl_sort hs"]
    length_fold_add [of "take (unat (getNumberOfFacesForName c (nhl_sort hs))) (nhl_sort hs)" "[]"]
  by (simp add: hopsToInstall_def Let_def)

text \<open>For hops with distinct URIs these are the first of the sorted list.\<close>

lemma hopsToInstall_distinct:
  assumes "nhl_wf hs"
  shows "hopsToInstall c hs = take (unat (getNumberOfFacesForName c (nhl_sort hs))) (nhl_sort hs)"
  using assms fold_add_distinct [of "[]" "take (unat (getNumberOfFacesForName c (nhl_sort hs))) (nhl_sort hs)"]
  by (simp add: hopsToInstall_def Let_def nhl_wf_def take_map [symmetric] distinct_take)

lemma installed_length:
  assumes wf: "nhl_wf l"
  shows "length (filter (\<lambda>h. nh_faceUri h \<in> nh_faceUri ` set H) l) \<le> length H"
proof -
  let ?F = "filter (\<lambda>h. nh_faceUri h \<in> nh_faceUri ` set H) l"
  have "length ?F = card (nh_faceUri ` set ?F)"
    using wf by (metis distinct_card distinct_map_filter length_map list.set_map nhl_wf_def)
  also have "\<dots> \<le> card (nh_faceUri ` set H)"
    by (rule card_mono) auto
  also have "\<dots> \<le> length H"
    by (metis card_image_le card_length finite_set le_trans)
  finally show ?thesis .
qed

definition hops_after :: "nexthop_list \<Rightarrow> nexthop_list \<Rightarrow> nexthop_list" where
  "hops_after H old = filter (\<lambda>h. nh_faceUri h \<in> nh_faceUri ` set H) (nhl_sort (fold addNextHop H old))"

lemma nhl_sorted_filter: "nhl_sorted l \<Longrightarrow> nhl_sorted (filter P l)"
  by (simp add: nhl_sorted_def sorted_wrt_filter)

lemma nhl_wf_filter: "nhl_wf l \<Longrightarrow> nhl_wf (filter P l)"
  by (simp add: nhl_wf_def distinct_map_filter)

lemma hops_after_uris: "nh_faceUri ` set (hops_after H old) = nh_faceUri ` set H"
proof -
  have "f ` {x \<in> A. f x \<in> U} = f ` A \<inter> U" for f :: "nexthop \<Rightarrow> string" and A U
    by auto
  then show ?thesis
    using uris_fold_add [of H old] by (auto simp: hops_after_def)
qed

lemma hops_after_new: "hops_after H [] = nhl_sort (fold addNextHop H [])"
proof -
  have "\<forall>h\<in>set (nhl_sort (fold addNextHop H [])). nh_faceUri h \<in> nh_faceUri ` set H"
    using uris_fold_add [of H "[]"] by auto
  then show ?thesis
    by (simp add: hops_after_def filter_True)
qed

lemma nhl_cost_filter:
  assumes "nhl_wf l"
  shows "nhl_cost (filter (\<lambda>h. nh_faceUri h \<in> U) l) u = (if u \<in> U then nhl_cost l u else None)"
  using assms by (induction l) (auto simp: nhl_cost_def nhl_wf_def by_key_None)

lemma nhl_cost_fold:
  assumes "nhl_wf H"
  shows "nhl_cost (fold addNextHop H old) u = (case nhl_cost H u of
    None \<Rightarrow> nhl_cost old u | Some c \<Rightarrow> Some (min_opt (nhl_cost old u) c))"
  using assms
proof (induction H arbitrary: old)
  case (Cons h H)
  then have no: "nhl_cost H (nh_faceUri h) = None" and wf: "nhl_wf H"
    by (simp_all add: nhl_cost_def by_key_None nhl_wf_def)
  have hd: "nhl_cost (h # H) v = (if v = nh_faceUri h then Some (nh_cost h) else nhl_cost H v)" for v
    by (simp add: nhl_cost_def)
  show ?case
    using Cons.IH [OF wf, of "addNextHop h old"] no
    by (cases "u = nh_faceUri h") (simp_all add: hd nhl.cost_add_other split: option.split)
qed (simp add: nhl_cost_def)

lemma hops_after_cost:
  assumes "nhl_wf H" and "nhl_wf old"
  shows "nhl_cost (hops_after H old) u =
    map_option (min_opt (nhl_cost old u)) (nhl_cost H u)"
proof -
  have "nhl_wf (fold addNextHop H old)"
    using assms(2) by (rule nhl_wf_fold)
  then have "nhl_cost (hops_after H old) u =
      (if u \<in> nh_faceUri ` set H then nhl_cost (fold addNextHop H old) u else None)"
    by (simp add: hops_after_def nhl_cost_filter)
  moreover have "u \<in> nh_faceUri ` set H \<longleftrightarrow> nhl_cost H u \<noteq> None"
    by (simp add: nhl_cost_def by_key_None)
  ultimately show ?thesis
    using assms(1) by (auto simp: nhl_cost_fold split: option.split)
qed

lemma hops_after_wf:
  assumes "nhl_wf old" and "hopsToInstall c hs \<noteq> []"
  shows "entry_wf c (e\<lparr>fe_hops := hops_after (hopsToInstall c hs) old\<rparr>)"
proof -
  let ?H = "hopsToInstall c hs"
  let ?S = "nhl_sort (fold addNextHop ?H old)"
  have wf: "nhl_wf ?S"
    using assms(1) by (simp add: nhl_wf_fold)
  have "nh_faceUri ` set (hops_after ?H old) \<noteq> {}"
    using assms(2) by (simp add: hops_after_uris)
  then have "hops_after ?H old \<noteq> []"
    by auto
  moreover have "nhl_wf (hops_after ?H old)"
    unfolding hops_after_def by (rule nhl_wf_filter) (rule wf)
  moreover have "nhl_sorted (hops_after ?H old)"
    unfolding hops_after_def by (rule nhl_sorted_filter) simp
  moreover have "length (hops_after ?H old) \<le> unat (cf_maxFacesPerPrefix c)"
    if "cf_maxFacesPerPrefix c \<noteq> 0"
    unfolding hops_after_def
    by (rule le_trans [OF installed_length [OF wf] length_hopsToInstall [OF that]])
  ultimately show ?thesis
    by (simp add: entry_wf_def)
qed

section \<open>The four outcomes of an update\<close>

definition refreshed :: "name \<Rightarrow> 32 word \<Rightarrow> nexthop_list \<Rightarrow> fib \<Rightarrow> io \<Rightarrow> fib_entry" where
  "refreshed n seqNo hops f s = \<lparr>fe_name = n,
     fe_expiration = io_system_now s + sint (fib_refreshTime f) * second,
     fe_event = Some (io_next_id s), fe_seqNo = seqNo, fe_hops = hops\<rparr>"

definition timer_added :: "name \<Rightarrow> fib \<Rightarrow> io \<Rightarrow> io \<Rightarrow> bool" where
  "timer_added n f s s' \<longleftrightarrow>
     io_pending s' = io_pending s @ [(io_next_id s, sint (fib_refreshTime f) * second, EvFibRemove n)] \<and>
     io_next_id s' = Suc (io_next_id s)"

lemma refreshEntry_alt:
  assumes "timers s = timers t" and "fe_name e = n"
  shows "fst (refreshEntry n seqNo f (e, s)) = refreshed n seqNo (fe_hops e) f t"
    and "timer_added n f t (snd (refreshEntry n seqNo f (e, s)))"
  using assms by (auto simp: refreshEntry_def refreshed_def timers_def timer_added_def
      scheduleEntryExpiration_def scheduleEvent_def Let_def)

lemma timers_cancel: "timers s = timers t \<Longrightarrow> timers (cancelEvent i s) = timers (cancelEvent i t)"
  by (simp add: timers_def cancelEvent_def split: option.split)

lemma fib_update_nothing:
  assumes "hopsToInstall c hs = []"
  shows "fib_update L c adl n hs (f, s) =
    (case fib_find n f of None \<Rightarrow> (f, s) | Some _ \<Rightarrow> fib_remove adl n (f, s))"
  using assms by (simp add: fib_update_def split: option.split)

lemma fib_update_new:
  assumes "hopsToInstall c hs \<noteq> []" and "fib_find n f = None"
  obtains s' where "fib_update L c adl n hs (f, s) =
      (f\<lparr>fib_table := fib_table f @ [refreshed n 1 (hops_after (hopsToInstall c hs) []) f s]\<rparr>, s')"
    and "timer_added n f s s'"
proof -
  let ?H = "hopsToInstall c hs"
  let ?s = "registerHops L adl f n ?H s"
  let ?e = "(fib_entry_named n)\<lparr>fe_hops := hops_after ?H []\<rparr>"
  have e: "addNextHopsToFibEntryAndNfd L adl f ?H (fib_entry_named n, s) = (?e, ?s)"
    by (simp add: addNextHopsToFibEntryAndNfd_alt hops_after_new fib_entry_named_def)
  have "fib_update L c adl n hs (f, s) = (f\<lparr>fib_table := fib_table f @
      [fst (refreshEntry n 1 f (?e, ?s))]\<rparr>, snd (refreshEntry n 1 f (?e, ?s)))"
    using assms by (simp add: fib_update_def e split: prod.split)
  moreover have "timers ?s = timers s" and "fe_name ?e = n" and "fe_hops ?e = hops_after ?H []"
    by (simp_all add: fib_entry_named_def)
  ultimately show ?thesis
    using refreshEntry_alt [where s = ?s and t = s and e = ?e and n = n and f = f and seqNo = 1] that by metis
qed

lemma fib_update_existing:
  assumes H: "hopsToInstall c hs \<noteq> []" and e: "fib_find n f = Some e" and wf: "nhl_wf (fe_hops e)"
  obtains s' where "fib_update L c adl n hs (f, s) =
      (f\<lparr>fib_table := update_first (\<lambda>e. fe_name e = n)
          (\<lambda>_. refreshed n (fe_seqNo e + 1) (hops_after (hopsToInstall c hs) (fe_hops e)) f s)
          (fib_table f)\<rparr>, s')"
    and "timer_added n f (cancelEvent (fe_event e) s) s'"
proof -
  let ?H = "hopsToInstall c hs"
  let ?s1 = "registerHops L adl f n ?H s"
  let ?e1 = "e\<lparr>fe_hops := nhl_sort (fold addNextHop ?H (fe_hops e))\<rparr>"
  have n: "fe_name e = n"
    using e by (auto simp: fib_find_def dest: find_SomeD)
  obtain hops s2 where r: "removeOldHops adl f n ?H [] (fe_hops ?e1) ?s1 = (hops, s2)"
    by fastforce
  have wf1: "nhl_wf ([] @ fe_hops ?e1)"
    using wf by (simp add: nhl_wf_fold)
  have hops: "hops = hops_after ?H (fe_hops e)"
    using removeOldHops_hops [OF wf1, of adl f n ?H ?s1] r by (simp add: hops_after_def)
  have t2: "timers s2 = timers s"
    using timers_removeOldHops [of adl f n ?H "[]" "fe_hops ?e1" ?s1] r by (simp del: timers_removeOldHops)
  let ?e2 = "e\<lparr>fe_hops := hops\<rparr>"
  let ?r = "refreshEntry n (fe_seqNo e + 1) f (?e2, cancelEvent (fe_event e) s2)"
  have "fib_update L c adl n hs (f, s) =
      (f\<lparr>fib_table := update_first (\<lambda>e. fe_name e = n) (\<lambda>_. fst ?r) (fib_table f)\<rparr>, snd ?r)"
    using H e n r by (simp add: fib_update_def addNextHopsToFibEntryAndNfd_alt
        removeOldNextHopsFromFibEntryAndNfd_def split: prod.split)
  moreover have "fst ?r = refreshed n (fe_seqNo e + 1) hops f (cancelEvent (fe_event e) s)"
    and "timer_added n f (cancelEvent (fe_event e) s) (snd ?r)"
    using refreshEntry_alt [OF timers_cancel [OF t2, of "fe_event e"], where e = ?e2 and n = n and f = f and seqNo = "fe_seqNo e + 1"] n
    by simp_all
  moreover have "refreshed n k hops f (cancelEvent i s) = refreshed n k hops f s" for k i
    by (simp add: refreshed_def cancelEvent_def split: option.split)
  ultimately show ?thesis
    using that hops by metis
qed

lemma fib_remove_alt:
  assumes "fib_find n f = Some e"
  obtains s' where "fib_remove adl n (f, s) =
      (f\<lparr>fib_table := erase_first (\<lambda>e. fe_name e = n) (fib_table f)\<rparr>, cancelEvent (fe_event e) s')"
    and "timers s' = timers s"
  using assms that by (simp add: fib_remove_def Let_def timers_fold)

lemma fib_remove_absent: "fib_find n f = None \<Longrightarrow> fib_remove adl n (f, s) = (f, s)"
  by (simp add: fib_remove_def)

lemma fib_wf_remove [inv_intros]: "fib_wf c f \<Longrightarrow> fib_wf c (fst (fib_remove adl n (f, s)))"
proof (cases "fib_find n f")
  case (Some e)
  assume "fib_wf c f"
  with Some show ?thesis
    using set_erase_first [of "\<lambda>e. fe_name e = n" "fib_table f"]
    by (auto simp: fib_wf_def fib_remove_def Let_def distinct_erase_first list_all_iff)
qed (simp add: fib_remove_absent)

lemma fib_find_remove:
  assumes "fib_wf c f"
  shows "fib_find m (fst (fib_remove adl n (f, s))) = (if m = n then None else fib_find m f)"
proof (cases "fib_find n f")
  case (Some e)
  with assms show ?thesis
    by (simp add: fib_wf_def fib_remove_def Let_def fib_find_by_key by_key_erase_first)
qed (auto simp: fib_remove_absent)

lemma entry_wf_refreshed:
  "hopsToInstall c hs \<noteq> [] \<Longrightarrow> nhl_wf old \<Longrightarrow>
   entry_wf c (refreshed n k (hops_after (hopsToInstall c hs) old) f s)"
  using hops_after_wf [of old c hs undefined] by (simp add: entry_wf_def refreshed_def)

lemma fib_wf_update [inv_intros]:
  assumes wf: "fib_wf c f"
  shows "fib_wf c (fst (fib_update L c adl n hs (f, s)))"
proof (cases "hopsToInstall c hs = []")
  case True
  then show ?thesis
    using wf by (auto simp: fib_update_nothing fib_wf_remove split: option.split)
next
  case H: False
  show ?thesis
  proof (cases "fib_find n f")
    case None
    from fib_update_new [OF H None, of L adl s] obtain s' where
      "fib_update L c adl n hs (f, s) =
        (f\<lparr>fib_table := fib_table f @ [refreshed n 1 (hops_after (hopsToInstall c hs) []) f s]\<rparr>, s')"
      by blast
    with wf None show ?thesis
      using entry_wf_refreshed [OF H, of "[]" n 1 f s]
      by (auto simp: fib_wf_def fib_find_by_key by_key_None refreshed_def)
  next
    case (Some e)
    then have e: "e \<in> set (fib_table f)" "fe_name e = n"
      by (auto simp: fib_find_by_key dest: by_key_SomeD)
    then have hops: "nhl_wf (fe_hops e)"
      using wf by (auto simp: fib_wf_def list_all_iff entry_wf_def)
    let ?r = "refreshed n (fe_seqNo e + 1) (hops_after (hopsToInstall c hs) (fe_hops e)) f s"
    from fib_update_existing [OF H Some hops, of L adl s] obtain s' where
      u: "fib_update L c adl n hs (f, s) =
        (f\<lparr>fib_table := update_first (\<lambda>e. fe_name e = n) (\<lambda>_. ?r) (fib_table f)\<rparr>, s')"
      by blast
    have "map fe_name (update_first (\<lambda>e. fe_name e = n) (\<lambda>_. ?r) (fib_table f)) =
        map fe_name (fib_table f)"
      by (rule map_update_first_same) (simp add: refreshed_def)
    with u wf entry_wf_refreshed [OF H hops, of n "fe_seqNo e + 1" f s]
      set_update_first [of "\<lambda>e. fe_name e = n" "\<lambda>_. ?r" "fib_table f"] show ?thesis
      by (auto simp: fib_wf_def list_all_iff)
  qed
qed

text \<open>What an entry holds after the update.\<close>

definition old_hops :: "name \<Rightarrow> fib \<Rightarrow> nexthop_list" where
  "old_hops n f = (case fib_find n f of None \<Rightarrow> [] | Some e \<Rightarrow> fe_hops e)"

lemma fib_find_update:
  assumes wf: "fib_wf c f" and H: "hopsToInstall c hs \<noteq> []"
  shows "\<exists>e. fib_find n (fst (fib_update L c adl n hs (f, s))) = Some e \<and>
     fe_hops e = hops_after (hopsToInstall c hs) (old_hops n f)"
    and "m \<noteq> n \<Longrightarrow> fib_find m (fst (fib_update L c adl n hs (f, s))) = fib_find m f"
proof -
  have "(\<exists>e. fib_find n (fst (fib_update L c adl n hs (f, s))) = Some e \<and>
     fe_hops e = hops_after (hopsToInstall c hs) (old_hops n f)) \<and>
    (m \<noteq> n \<longrightarrow> fib_find m (fst (fib_update L c adl n hs (f, s))) = fib_find m f)"
  proof (cases "fib_find n f")
    case None
    from fib_update_new [OF H None, of L adl s] obtain s' where
      "fib_update L c adl n hs (f, s) =
        (f\<lparr>fib_table := fib_table f @ [refreshed n 1 (hops_after (hopsToInstall c hs) []) f s]\<rparr>, s')"
      by blast
    with None show ?thesis
      by (simp add: fib_find_by_key by_key_append refreshed_def old_hops_def split: option.split)
  next
    case (Some e)
    then have e: "e \<in> set (fib_table f)" "fe_name e = n"
      by (auto simp: fib_find_by_key dest: by_key_SomeD)
    then have hops: "nhl_wf (fe_hops e)"
      using wf by (auto simp: fib_wf_def list_all_iff entry_wf_def)
    have upd: "by_key fe_name m (update_first (\<lambda>e. fe_name e = n) (\<lambda>_. r) l) =
        (if m = n then map_option (\<lambda>_. r) (by_key fe_name m l) else by_key fe_name m l)"
      if "fe_name r = n" for m r l
      using that by (induction l) auto
    let ?r = "refreshed n (fe_seqNo e + 1) (hops_after (hopsToInstall c hs) (fe_hops e)) f s"
    from fib_update_existing [OF H Some hops, of L adl s] obtain s' where
      "fib_update L c adl n hs (f, s) =
        (f\<lparr>fib_table := update_first (\<lambda>e. fe_name e = n) (\<lambda>_. ?r) (fib_table f)\<rparr>, s')"
      by blast
    with Some show ?thesis
      by (simp add: fib_find_by_key upd refreshed_def old_hops_def)
  qed
  then show "\<exists>e. fib_find n (fst (fib_update L c adl n hs (f, s))) = Some e \<and>
     fe_hops e = hops_after (hopsToInstall c hs) (old_hops n f)"
    and "m \<noteq> n \<Longrightarrow> fib_find m (fst (fib_update L c adl n hs (f, s))) = fib_find m f"
    by blast+
qed

end
