(* ===== verification/Fib_Timers.thy ===== *)
theory Fib_Timers
  imports Fib
begin

text \<open>
  The timers of the FIB entries, the commands an update sends and the bound on the
  retries: every entry has exactly one pending expiration, no other expiration of an
  entry is pending, and the operations leave the timers of the other components alone.
\<close>

section \<open>One timer per entry\<close>

definition fib_timers_ok :: "fib \<Rightarrow> io \<Rightarrow> bool" where
  "fib_timers_ok f s \<longleftrightarrow> agenda_ok s \<and>
     (\<forall>e\<in>set (fib_table f). \<exists>i d. fe_event e = Some i \<and> (i, d, EvFibRemove (fe_name e)) \<in> set (io_pending s)) \<and>
     (\<forall>i d n. (i, d, EvFibRemove n) \<in> set (io_pending s) \<longrightarrow>
        (\<exists>e\<in>set (fib_table f). fe_name e = n \<and> fe_event e = Some i))"

definition is_fib_event :: "event \<Rightarrow> bool" where
  "is_fib_event ev = (case ev of EvFibRemove _ \<Rightarrow> True | _ \<Rightarrow> False)"

definition other_events :: "io \<Rightarrow> event list" where
  "other_events s = filter (\<lambda>ev. \<not> is_fib_event ev) (events s)"

lemma is_fib_event_iff: "is_fib_event ev \<longleftrightarrow> (\<exists>n. ev = EvFibRemove n)"
  by (cases ev) (simp_all add: is_fib_event_def)

lemma fib_timers_ok_cong:
  "timers s = timers s' \<Longrightarrow> fib_timers_ok f s = fib_timers_ok f s'"
  by (simp add: fib_timers_ok_def agenda_ok_def timers_def)

lemma agenda_event_unique:
  "agenda_ok s \<Longrightarrow> (i, d, ev) \<in> set (io_pending s) \<Longrightarrow> (i, d', ev') \<in> set (io_pending s) \<Longrightarrow> ev = ev'"
  by (metis agenda_ok_def eq_key_imp_eq_value prod.inject)

lemma set_pending_cancel:
  "set (io_pending (cancelEvent (Some i) s)) = {x \<in> set (io_pending s). fst x \<noteq> i}"
  by (auto simp: cancelEvent_def)

text \<open>Cancelling the timer of an entry and erasing the entry belong together.\<close>

lemma fib_timers_ok_erase:
  assumes ok: "fib_timers_ok f s" and wf: "distinct (map fe_name (fib_table f))"
    and e: "e \<in> set (fib_table f)" "fe_name e = n"
  shows "fib_timers_ok (f\<lparr>fib_table := erase_first (\<lambda>e. fe_name e = n) (fib_table f)\<rparr>)
    (cancelEvent (fe_event e) s)"
proof -
  obtain i d where i: "fe_event e = Some i" "(i, d, EvFibRemove n) \<in> set (io_pending s)"
    using ok e unfolding fib_timers_ok_def by blast
  have ag: "agenda_ok s"
    using ok by (simp add: fib_timers_ok_def)
  have left: "set (erase_first (\<lambda>e. fe_name e = n) (fib_table f)) = {x \<in> set (fib_table f). fe_name x \<noteq> n}"
    using wf by (rule set_erase_first_key)
  show ?thesis
    unfolding fib_timers_ok_def i(1)
  proof (intro conjI ballI allI impI)
    show "agenda_ok (cancelEvent (Some i) s)"
      using ag by (rule agenda_ok_cancel)
  next
    fix x assume "x \<in> set (fib_table (f\<lparr>fib_table := erase_first (\<lambda>e. fe_name e = n) (fib_table f)\<rparr>))"
    then have x: "x \<in> set (fib_table f)" "fe_name x \<noteq> n"
      by (simp_all add: left)
    then obtain j d' where j: "fe_event x = Some j" "(j, d', EvFibRemove (fe_name x)) \<in> set (io_pending s)"
      using ok unfolding fib_timers_ok_def by blast
    with x i agenda_event_unique [OF ag] have "j \<noteq> i"
      by blast
    with j show "\<exists>j d. fe_event x = Some j \<and>
        (j, d, EvFibRemove (fe_name x)) \<in> set (io_pending (cancelEvent (Some i) s))"
      by (auto simp: set_pending_cancel)
  next
    fix j d' m assume "(j, d', EvFibRemove m) \<in> set (io_pending (cancelEvent (Some i) s))"
    then have j: "j \<noteq> i" "(j, d', EvFibRemove m) \<in> set (io_pending s)"
      by (auto simp: set_pending_cancel)
    then obtain x where x: "x \<in> set (fib_table f)" "fe_name x = m" "fe_event x = Some j"
      using ok unfolding fib_timers_ok_def by blast
    have "m \<noteq> n"
    proof
      assume "m = n"
      then have "x = e"
        using x(1,2) e wf by (metis by_key_mem option.inject)
      with x(3) i(1) j(1) show False by simp
    qed
    with x show "\<exists>x\<in>set (fib_table (f\<lparr>fib_table := erase_first (\<lambda>e. fe_name e = n) (fib_table f)\<rparr>)).
        fe_name x = m \<and> fe_event x = Some j"
      by (auto simp: left)
  qed
qed

text \<open>Adding a timer together with the entry it belongs to.\<close>

lemma fib_timers_ok_add:
  assumes ok: "fib_timers_ok g t" and new: "n \<notin> fe_name ` set (fib_table g)"
    and tbl: "set (fib_table f') = insert e (set (fib_table g))"
    and e: "fe_name e = n" "fe_event e = Some (io_next_id t)"
    and add: "timer_added n f t s'"
  shows "fib_timers_ok f' s'"
proof -
  have pend: "set (io_pending s') =
      insert (io_next_id t, sint (fib_refreshTime f) * second, EvFibRemove n) (set (io_pending t))"
    and nid: "io_next_id s' = Suc (io_next_id t)"
    using add by (auto simp: timer_added_def)
  have ag: "agenda_ok t"
    using ok by (simp add: fib_timers_ok_def)
  have "agenda_ok s'"
    using ag add unfolding agenda_ok_def timer_added_def by (fastforce simp: less_Suc_eq)
  moreover have "\<exists>i d. fe_event x = Some i \<and> (i, d, EvFibRemove (fe_name x)) \<in> set (io_pending s')"
    if "x \<in> set (fib_table f')" for x
    using that ok e unfolding fib_timers_ok_def pend tbl by blast
  moreover have "\<exists>x\<in>set (fib_table f'). fe_name x = m \<and> fe_event x = Some i"
    if "(i, d, EvFibRemove m) \<in> set (io_pending s')" for i d m
    using that ok e unfolding fib_timers_ok_def pend tbl by auto
  ultimately show ?thesis
    unfolding fib_timers_ok_def by blast
qed

lemma fib_timers_ok_remove:
  assumes "fib_timers_ok f s" and "fib_wf c f" and "fib_remove adl n (f, s) = (f', s')"
  shows "fib_timers_ok f' s'"
proof (cases "fib_find n f")
  case None
  with assms show ?thesis by (simp add: fib_remove_absent)
next
  case (Some e)
  then have e: "e \<in> set (fib_table f)" "fe_name e = n"
    by (auto simp: fib_find_by_key dest: by_key_SomeD)
  from fib_remove_alt [OF Some, of adl s] obtain t where
    "fib_remove adl n (f, s) =
      (f\<lparr>fib_table := erase_first (\<lambda>e. fe_name e = n) (fib_table f)\<rparr>, cancelEvent (fe_event e) t)"
    and t: "timers t = timers s"
    by blast
  with assms(3) have r: "f' = f\<lparr>fib_table := erase_first (\<lambda>e. fe_name e = n) (fib_table f)\<rparr>"
      "s' = cancelEvent (fe_event e) t"
    by simp_all
  have "fib_timers_ok f t"
    using assms(1) fib_timers_ok_cong [OF t] by simp
  then show ?thesis
    unfolding r using assms(2) e by (intro fib_timers_ok_erase) (simp_all add: fib_wf_def)
qed

lemma fib_timers_ok_update:
  assumes ok: "fib_timers_ok f s" and wf: "fib_wf c f"
    and u: "fib_update L c adl n hs (f, s) = (f', s')"
  shows "fib_timers_ok f' s'"
proof (cases "hopsToInstall c hs = []")
  case True
  with ok wf u fib_timers_ok_remove [OF ok wf] show ?thesis
    by (auto simp: fib_update_nothing split: option.splits)
next
  case H: False
  show ?thesis
  proof (cases "fib_find n f")
    case None
    let ?r = "refreshed n 1 (hops_after (hopsToInstall c hs) []) f s"
    from fib_update_new [OF H None, of L adl s] obtain t where
      t: "fib_update L c adl n hs (f, s) = (f\<lparr>fib_table := fib_table f @ [?r]\<rparr>, t)"
      and "timer_added n f s t"
      by blast
    with u have f': "set (fib_table f') = insert (refreshed n 1 (hops_after (hopsToInstall c hs) []) f s) (set (fib_table f))"
      and add: "timer_added n f s s'"
      by auto
    from None have "n \<notin> fe_name ` set (fib_table f)"
      by (simp add: fib_find_by_key by_key_None)
    from fib_timers_ok_add [OF ok this f' _ _ add] show ?thesis
      by (simp add: refreshed_def)
  next
    case (Some e)
    then have e: "e \<in> set (fib_table f)" "fe_name e = n"
      by (auto simp: fib_find_by_key dest: by_key_SomeD)
    have hops: "nhl_wf (fe_hops e)" and dist: "distinct (map fe_name (fib_table f))"
      using wf e by (auto simp: fib_wf_def list_all_iff entry_wf_def)
    let ?r = "refreshed n (fe_seqNo e + 1) (hops_after (hopsToInstall c hs) (fe_hops e)) f s"
    let ?g = "f\<lparr>fib_table := erase_first (\<lambda>e. fe_name e = n) (fib_table f)\<rparr>"
    from fib_update_existing [OF H Some hops, of L adl s] obtain t where
      t: "fib_update L c adl n hs (f, s) =
        (f\<lparr>fib_table := update_first (\<lambda>e. fe_name e = n) (\<lambda>_. ?r) (fib_table f)\<rparr>, t)"
      and "timer_added n f (cancelEvent (fe_event e) s) t"
      by blast
    with u have f': "f' = f\<lparr>fib_table := update_first (\<lambda>e. fe_name e = n) (\<lambda>_. ?r) (fib_table f)\<rparr>"
      and add: "timer_added n f (cancelEvent (fe_event e) s) s'"
      by simp_all
    have "set (fib_table f') = insert ?r (set (fib_table f) - {e})"
      using set_update_first_key [OF dist, of n e "\<lambda>_. ?r"] Some by (simp add: f' fib_find_by_key)
    moreover have g: "set (fib_table ?g) = {x \<in> set (fib_table f). fe_name x \<noteq> n}"
      using set_erase_first_key [OF dist, of n] by simp
    moreover have "set (fib_table f) - {e} = {x \<in> set (fib_table f). fe_name x \<noteq> n}"
      using e dist by (auto simp: distinct_map dest: inj_onD)
    ultimately have tbl: "set (fib_table f') = insert ?r (set (fib_table ?g))"
      by simp
    have nid: "io_next_id (cancelEvent (fe_event e) s) = io_next_id s"
      by (simp add: cancelEvent_def split: option.split)
    have "n \<notin> fe_name ` set (fib_table ?g)"
      using g by auto
    from fib_timers_ok_add [OF fib_timers_ok_erase [OF ok dist e] this tbl _ _ add] show ?thesis
      by (simp add: refreshed_def nid)
  qed
qed

section \<open>The other timers\<close>

lemma other_events_timers: "timers s = timers t \<Longrightarrow> other_events s = other_events t"
  by (simp add: other_events_def events_def timers_def)

lemma other_events_cancel:
  assumes "agenda_ok s" and "(i, d, EvFibRemove n) \<in> set (io_pending s)"
  shows "other_events (cancelEvent (Some i) s) = other_events s"
proof -
  have "filter (\<lambda>ev. \<not> is_fib_event ev) (map (\<lambda>(_, _, ev). ev) (filter (\<lambda>(j, _). j \<noteq> i) l)) =
      filter (\<lambda>ev. \<not> is_fib_event ev) (map (\<lambda>(_, _, ev). ev) l)"
    if "\<forall>(j, d, ev)\<in>set l. j = i \<longrightarrow> is_fib_event ev" for l :: "(nat \<times> int \<times> event) list"
    using that by (induction l) auto
  moreover have "\<forall>(j, d, ev)\<in>set (io_pending s). j = i \<longrightarrow> is_fib_event ev"
    using agenda_event_unique [OF assms(1) assms(2)] by (fastforce simp: is_fib_event_iff)
  ultimately show ?thesis
    by (simp add: other_events_def events_def cancelEvent_def)
qed

lemma fib_timers_ok_event:
  assumes "fib_timers_ok f s" and "e \<in> set (fib_table f)"
  shows "other_events (cancelEvent (fe_event e) s) = other_events s"
  using assms other_events_cancel unfolding fib_timers_ok_def by metis

lemma other_events_added: "timer_added n f t s \<Longrightarrow> other_events s = other_events t"
  by (simp add: timer_added_def other_events_def events_def is_fib_event_def)

lemma other_events_remove:
  assumes "fib_timers_ok f s"
  shows "other_events (snd (fib_remove adl n (f, s))) = other_events s"
proof (cases "fib_find n f")
  case (Some e)
  then have e: "e \<in> set (fib_table f)"
    by (auto simp: fib_find_by_key dest: by_key_SomeD)
  from fib_remove_alt [OF Some, of adl s] obtain t g where
    "fib_remove adl n (f, s) = (g, cancelEvent (fe_event e) t)" and t: "timers t = timers s"
    by blast
  with e assms show ?thesis
    using fib_timers_ok_event [of f t e] fib_timers_ok_cong [OF t] other_events_timers [OF t] by simp
qed (simp add: fib_remove_absent)

lemma other_events_update:
  assumes ok: "fib_timers_ok f s" and wf: "fib_wf c f"
  shows "other_events (snd (fib_update L c adl n hs (f, s))) = other_events s"
proof (cases "hopsToInstall c hs = []")
  case True
  with other_events_remove [OF ok] show ?thesis
    by (auto simp: fib_update_nothing split: option.split)
next
  case H: False
  show ?thesis
  proof (cases "fib_find n f")
    case None
    from fib_update_new [OF H None, of L adl s] other_events_added show ?thesis
      by (metis snd_conv)
  next
    case (Some e)
    then have e: "e \<in> set (fib_table f)"
      by (auto simp: fib_find_by_key dest: by_key_SomeD)
    have "nhl_wf (fe_hops e)"
      using wf e by (auto simp: fib_wf_def list_all_iff entry_wf_def)
    from fib_update_existing [OF H Some this, of L adl s] obtain t g where
      "fib_update L c adl n hs (f, s) = (g, t)" and "timer_added n f (cancelEvent (fe_event e) s) t"
      by blast
    then show ?thesis
      using fib_timers_ok_event [OF ok e] by (simp add: other_events_added)
  qed
qed

section \<open>What is sent to the forwarder\<close>

text \<open>The registrations of one update, in the order of the hops.\<close>

definition registration ::
  "ndn_lib \<Rightarrow> adjacency_list \<Rightarrow> fib \<Rightarrow> name \<Rightarrow> nexthop \<Rightarrow> out" where
  "registration L adl f n h = RibRegister
     \<lparr>cp_name = n, cp_faceId = Some (adl_getFaceId (nh_faceUri h) adl), cp_flags = routeFlagCapture L,
      cp_cost = getRouteCostAsAdjustedInteger h, cp_expiration = registrationPeriod f, cp_origin = 128\<rparr>
     (CbFib (nh_faceUri h) 0)"

lemma out_registerHops:
  "io_out (registerHops L adl f n hs s) = io_out s @
     (if isPrefixUpdatable adl n
      then map (registration L adl f n) (filter (\<lambda>h. adl_getFaceId (nh_faceUri h) adl \<noteq> 0) hs)
      else [])"
proof -
  have "io_out (fold (\<lambda>h. registerPrefix adl n (nh_faceUri h) (getRouteCostAsAdjustedInteger h)
          (registrationPeriod f) (routeFlagCapture L) 0) hs s) =
      io_out s @ map (registration L adl f n) (filter (\<lambda>h. adl_getFaceId (nh_faceUri h) adl \<noteq> 0) hs)"
    by (induction hs arbitrary: s)
      (simp_all add: registerPrefix_def registerPrefixInNfd_def registration_def Let_def)
  then show ?thesis by (simp add: registerHops_def)
qed

definition unregistrations :: "adjacency_list \<Rightarrow> fib \<Rightarrow> name \<Rightarrow> nexthop_list \<Rightarrow> out list" where
  "unregistrations adl f n hs = (if isPrefixUpdatable adl n
     then map (\<lambda>h. RibUnregister n (fm_getFaceId (nh_faceUri h) (fib_faceMap f)))
            (filter (\<lambda>h. fm_getFaceId (nh_faceUri h) (fib_faceMap f) \<noteq> 0) hs)
     else [])"

lemma out_unregister:
  "io_out (unregisterUpdatable adl f n (nh_faceUri h) s) = io_out s @ unregistrations adl f n [h]"
  by (simp add: unregisterUpdatable_def unregisterPrefix_def unregistrations_def Let_def word_neq_0_conv)

lemma unregistrations_Cons:
  "unregistrations adl f n (h # hs) = unregistrations adl f n [h] @ unregistrations adl f n hs"
  by (simp add: unregistrations_def)

lemma out_removeOldHops:
  "io_out (snd (removeOldHops adl f n installed kept hs s)) = io_out s @
     unregistrations adl f n (filter (\<lambda>h. nh_faceUri h \<notin> nh_faceUri ` set installed) hs)"
proof (induction hs arbitrary: kept s)
  case (Cons h hs)
  show ?case
  proof (cases "find (\<lambda>x. nh_faceUri x = nh_faceUri h) installed")
    case None
    then have "nh_faceUri h \<notin> nh_faceUri ` set installed"
      by (auto simp: find_None_all)
    with Cons None show ?thesis
      by (simp add: out_unregister unregistrations_Cons [of adl f n h "filter _ hs"])
  next
    case (Some x)
    then have "nh_faceUri h \<in> nh_faceUri ` set installed"
      by (auto dest!: find_SomeD simp: image_iff intro: sym)
    with Cons Some show ?thesis by simp
  qed
qed (simp add: unregistrations_def)

lemma out_timer: "io_out (snd (refreshEntry n k f (e, s))) = io_out s"
  by (simp add: refreshEntry_def scheduleEntryExpiration_def Let_def split: prod.split)
    (metis io_out_simps(2) snd_conv)

text \<open>An update registers the installed hops, then unregisters the old ones.\<close>

lemma out_fib_update:
  assumes H: "hopsToInstall c hs \<noteq> []"
  shows "io_out (snd (fib_update L c adl n hs (f, s))) = io_out s @
    (if isPrefixUpdatable adl n
     then map (registration L adl f n)
            (filter (\<lambda>h. adl_getFaceId (nh_faceUri h) adl \<noteq> 0) (hopsToInstall c hs))
     else []) @
    unregistrations adl f n (filter (\<lambda>h. nh_faceUri h \<notin> nh_faceUri ` set (hopsToInstall c hs))
      (nhl_sort (fold addNextHop (hopsToInstall c hs) (old_hops n f))))"
proof (cases "fib_find n f")
  case None
  have e: "fe_name (fib_entry_named n) = n" "fe_hops (fib_entry_named n) = []"
    by (simp_all add: fib_entry_named_def)
  have "filter (\<lambda>h. nh_faceUri h \<notin> nh_faceUri ` set H) (nhl_sort (fold addNextHop H [])) = []" for H
    using uris_fold_add [of H "[]"] by (auto simp: filter_empty_conv)
  with None H e show ?thesis
    by (simp add: fib_update_def addNextHopsToFibEntryAndNfd_alt old_hops_def out_timer
        out_registerHops unregistrations_def Let_def split_beta)
next
  case (Some e)
  then have n: "fe_name e = n"
    by (auto simp: fib_find_by_key dest: by_key_SomeD)
  have "io_out (snd (fib_update L c adl n hs (f, s))) =
      io_out (snd (removeOldHops adl f n (hopsToInstall c hs) []
        (nhl_sort (fold addNextHop (hopsToInstall c hs) (fe_hops e)))
        (registerHops L adl f n (hopsToInstall c hs) s)))"
    using Some H n by (simp add: fib_update_def addNextHopsToFibEntryAndNfd_alt out_timer
        removeOldNextHopsFromFibEntryAndNfd_def Let_def split_beta)
  with Some show ?thesis
    by (simp add: out_removeOldHops out_registerHops old_hops_def)
qed

section \<open>Retries\<close>

text \<open>
  A run in which the forwarder refuses every registration: the reply to each command is
  its failure handler, for at most \<open>fuel\<close> replies. The result is the number of commands
  sent again, \<open>None\<close> when the fuel runs out before the handler gives up.
\<close>

fun refused_registrations ::
  "nat \<Rightarrow> adjacency_list \<Rightarrow> control_parameters \<Rightarrow> string \<Rightarrow> 8 word \<Rightarrow> io \<Rightarrow> (nat \<times> io) option" where
  "refused_registrations 0 adl p uri tries s = None"
| "refused_registrations (Suc fuel) adl p uri tries s =
     (let s' = onRegistrationFailure adl p uri tries s
      in if io_out s' = io_out s then Some (0, s')
         else map_option (\<lambda>(k, t). (Suc k, t)) (refused_registrations fuel adl p uri (tries + 1) s'))"

fun refused_strategies ::
  "nat \<Rightarrow> name \<Rightarrow> string \<Rightarrow> 32 word \<Rightarrow> io \<Rightarrow> (nat \<times> io) option" where
  "refused_strategies 0 n strategy retries s = None"
| "refused_strategies (Suc fuel) n strategy retries s =
     (let s' = onSetStrategyFailure n strategy retries s
      in if io_out s' = io_out s then Some (0, s')
         else map_option (\<lambda>(k, t). (Suc k, t)) (refused_strategies fuel n strategy (retries + 1) s'))"

lemma onRegistrationFailure_out:
  "io_out (onRegistrationFailure adl p uri tries s) = io_out s @
     (if tries < 3 \<and> adl_getFaceId uri adl \<noteq> 0
      then [RibRegister (p\<lparr>cp_faceId := Some (adl_getFaceId uri adl), cp_origin := 128\<rparr>) (CbFib uri (tries + 1))]
      else [])"
  by (simp add: onRegistrationFailure_def registerPrefix_def registerPrefixInNfd_def Let_def)

lemma refused_registrations_three:
  "\<exists>t. refused_registrations 4 adl p uri 0 s = Some (if adl_getFaceId uri adl = 0 then 0 else 3, t)"
proof -
  have four: "(4::nat) = Suc (Suc (Suc (Suc 0)))" by simp
  show ?thesis
    unfolding four by (simp add: Let_def onRegistrationFailure_out)
qed

lemma refused_strategies_three:
  "\<exists>t. refused_strategies 4 n strategy 0 s = Some (3, t)"
proof -
  have four: "(4::nat) = Suc (Suc (Suc (Suc 0)))" by simp
  show ?thesis
    unfolding four by (simp add: Let_def onSetStrategyFailure_def fib_setStrategy_def)
qed

end
