(* ===== verification/Routing_Table.thy ===== *)
theory Routing_Table
  imports Conf Nexthop Lsa
begin

text \<open>
  \<open>RoutingTable\<close> (src/src/route/routing-table.cpp, routing-table-entry.hpp): per destination
  router the next hops that were calculated, and the table of the hyperbolic dry run. The
  calculation itself is in Calculator.
\<close>

record rt_entry =
  rte_destination :: name
  rte_hops :: nexthop_list

record routing_table =
  rt_table :: "rt_entry list"
  rt_dryTable :: "rt_entry list"
  rt_calcInterval :: int

definition rt_empty :: routing_table where
  "rt_empty = \<lparr>rt_table = [], rt_dryTable = [], rt_calcInterval = int ROUTING_CALC_INTERVAL_DEFAULT\<rparr>"

definition findRoutingTableEntry :: "name \<Rightarrow> rt_entry list \<Rightarrow> rt_entry option" where
  "findRoutingTableEntry d t = find (\<lambda>e. rte_destination e = d) t"

definition rt_insert :: "name \<Rightarrow> nexthop \<Rightarrow> rt_entry list \<Rightarrow> rt_entry list" where
  "rt_insert d nh t = (case findRoutingTableEntry d t of
       None \<Rightarrow> t @ [\<lparr>rte_destination = d, rte_hops = addNextHop nh []\<rparr>]
     | Some _ \<Rightarrow> update_first (\<lambda>e. rte_destination e = d)
                  (\<lambda>e. e\<lparr>rte_hops := addNextHop nh (rte_hops e)\<rparr>) t)"

definition rt_addNextHop :: "name \<Rightarrow> nexthop \<Rightarrow> routing_table \<Rightarrow> routing_table" where
  "rt_addNextHop d nh rt = rt\<lparr>rt_table := rt_insert d nh (rt_table rt)\<rparr>"

definition addNextHopToDryTable :: "name \<Rightarrow> nexthop \<Rightarrow> routing_table \<Rightarrow> routing_table" where
  "addNextHopToDryTable d nh rt = rt\<lparr>rt_dryTable := rt_insert d nh (rt_dryTable rt)\<rparr>"

definition clearRoutingTable :: "routing_table \<Rightarrow> routing_table" where
  "clearRoutingTable rt = (if length (rt_table rt) > 0 then rt\<lparr>rt_table := []\<rparr> else rt)"

definition clearDryRoutingTable :: "routing_table \<Rightarrow> routing_table" where
  "clearDryRoutingTable rt = (if length (rt_dryTable rt) > 0 then rt\<lparr>rt_dryTable := []\<rparr> else rt)"

section \<open>Laws\<close>

lemma clearRoutingTable_alt [simp]: "clearRoutingTable rt = rt\<lparr>rt_table := []\<rparr>"
  by (cases rt) (simp add: clearRoutingTable_def)

lemma clearDryRoutingTable_alt [simp]: "clearDryRoutingTable rt = rt\<lparr>rt_dryTable := []\<rparr>"
  by (cases rt) (simp add: clearDryRoutingTable_def)

lemma find_rte_by_key: "findRoutingTableEntry d t = by_key rte_destination d t"
  by (simp add: findRoutingTableEntry_def by_key_def)

definition rt_wf :: "rt_entry list \<Rightarrow> bool" where
  "rt_wf t \<longleftrightarrow> distinct (map rte_destination t) \<and>
     list_all (\<lambda>e. nhl_wf (rte_hops e) \<and> rte_hops e \<noteq> []) t"

lemma rt_wf_Nil [simp]: "rt_wf []"
  by (simp add: rt_wf_def)

definition rt_cost :: "rt_entry list \<Rightarrow> name \<times> string \<Rightarrow> real option" where
  "rt_cost t du = (case findRoutingTableEntry (fst du) t of
       None \<Rightarrow> None
     | Some e \<Rightarrow> nhl_cost (rte_hops e) (snd du))"

lemma addNextHop_nonempty [simp]: "addNextHop nh l \<noteq> []"
  using uris_addNextHop [of nh l] by auto

lemma find_rt_insert:
  "findRoutingTableEntry d' (rt_insert d nh t) = (if d' = d then
     Some \<lparr>rte_destination = d, rte_hops = addNextHop nh
        (case findRoutingTableEntry d t of None \<Rightarrow> [] | Some e \<Rightarrow> rte_hops e)\<rparr>
   else findRoutingTableEntry d' t)"
proof (cases "by_key rte_destination d t")
  case None
  then show ?thesis
    by (simp add: rt_insert_def find_rte_by_key by_key_append split: option.split)
next
  case (Some e)
  then have "rte_destination e = d"
    by (auto dest: by_key_SomeD)
  with Some show ?thesis
    by (simp add: rt_insert_def find_rte_by_key by_key_update_first)
qed

lemma rt_wf_insert [inv_intros]:
  assumes "rt_wf t"
  shows "rt_wf (rt_insert d nh t)"
proof (cases "by_key rte_destination d t")
  case None
  then have "rt_insert d nh t = t @ [\<lparr>rte_destination = d, rte_hops = addNextHop nh []\<rparr>]"
    and "d \<notin> rte_destination ` set t"
    by (simp add: rt_insert_def find_rte_by_key) (use None in \<open>simp add: by_key_None\<close>)
  with assms show ?thesis
    by (auto simp: rt_wf_def nhl_wf_add)
next
  case (Some e)
  let ?f = "\<lambda>e :: rt_entry. e\<lparr>rte_hops := addNextHop nh (rte_hops e)\<rparr>"
  have "map rte_destination (update_first (\<lambda>e. rte_destination e = d) ?f t) = map rte_destination t"
    by (rule map_update_first_same) simp
  with Some assms set_update_first [of "\<lambda>e. rte_destination e = d" ?f t] show ?thesis
    by (auto simp: rt_insert_def find_rte_by_key rt_wf_def list_all_iff nhl_wf_add)
qed

text \<open>Per destination and face the table holds the least cost added.\<close>

interpretation rt: min_cost_table
  "\<lambda>h. rt_insert (fst h) (snd h)" "\<lambda>h. (fst h, nh_faceUri (snd h))" "\<lambda>h. nh_cost (snd h)" rt_cost
proof
  fix h :: "name \<times> nexthop" and t
  show "rt_cost (rt_insert (fst h) (snd h) t) =
      (rt_cost t)((fst h, nh_faceUri (snd h)) \<mapsto>
        min_opt (rt_cost t (fst h, nh_faceUri (snd h))) (nh_cost (snd h)))"
  proof
    fix k :: "name \<times> string"
    show "rt_cost (rt_insert (fst h) (snd h) t) k =
      ((rt_cost t)((fst h, nh_faceUri (snd h)) \<mapsto>
        min_opt (rt_cost t (fst h, nh_faceUri (snd h))) (nh_cost (snd h)))) k"
      by (cases k) (auto simp: rt_cost_def find_rt_insert nhl.cost_add nhl_cost_def
          split: option.split)
  qed
qed

lemma rt_wf_fold [inv_intros]: "rt_wf t \<Longrightarrow> rt_wf (fold (\<lambda>h. rt_insert (fst h) (snd h)) hs t)"
  by (induction hs arbitrary: t) (auto simp: rt_wf_insert)

end
