(* ===== verification/Npt.thy ===== *)
theory Npt
  imports Routing_Table Fib_Timers
begin

text \<open>
  \<open>NamePrefixTable\<close> (src/src/route/name-prefix-table.cpp, name-prefix-table-entry.cpp): the
  routers that advertise each name prefix, with their routes, and the next hops of the
  prefix, which are the union of the routes. Every change goes on to the FIB.
\<close>

record npt_entry =
  npe_namePrefix :: name
  npe_rteList :: "rt_entry list"
  npe_hops :: nexthop_list

type_synonym npt = "npt_entry list"

definition npt_entry_named :: "name \<Rightarrow> npt_entry" where
  "npt_entry_named n = \<lparr>npe_namePrefix = n, npe_rteList = [], npe_hops = []\<rparr>"

definition resetRteListNextHop :: "npt_entry \<Rightarrow> npt_entry" where
  "resetRteListNextHop e = e\<lparr>npe_rteList := map (\<lambda>r. r\<lparr>rte_hops := []\<rparr>) (npe_rteList e)\<rparr>"

definition generateNhlfromRteList :: "npt_entry \<Rightarrow> npt_entry" where
  "generateNhlfromRteList e =
     e\<lparr>npe_hops := fold (\<lambda>r. fold addNextHop (rte_hops r)) (npe_rteList e) []\<rparr>"

definition removeRoutingTableEntry :: "rt_entry \<Rightarrow> npt_entry \<Rightarrow> npt_entry" where
  "removeRoutingTableEntry rte e =
     e\<lparr>npe_rteList := erase_first (\<lambda>r. rte_destination r = rte_destination rte) (npe_rteList e)\<rparr>"

definition addRoutingTableEntry :: "rt_entry \<Rightarrow> npt_entry \<Rightarrow> npt_entry" where
  "addRoutingTableEntry rte e =
     (case find (\<lambda>r. rte_destination r = rte_destination rte) (npe_rteList e) of
        None \<Rightarrow> e\<lparr>npe_rteList := npe_rteList e @ [rte]\<rparr>
      | Some _ \<Rightarrow> e\<lparr>npe_rteList := update_first (\<lambda>r. rte_destination r = rte_destination rte)
                    (\<lambda>r. r\<lparr>rte_hops := fold addNextHop (rte_hops rte) []\<rparr>) (npe_rteList e)\<rparr>)"

definition npe_sort :: "npt_entry \<Rightarrow> npt_entry" where
  "npe_sort e = e\<lparr>npe_hops := nhl_sort (npe_hops e)\<rparr>"

definition npt_find :: "name \<Rightarrow> npt \<Rightarrow> npt_entry option" where
  "npt_find n t = find (\<lambda>e. npe_namePrefix e = n) t"

text \<open>
  The table's state is its list together with the FIB and \<open>io\<close>. \<open>Fib::update\<close> sorts the
  hops it is given in place; here they are already sorted.
\<close>

definition npt_addRte ::
  "ndn_lib \<Rightarrow> conf \<Rightarrow> adjacency_list \<Rightarrow> name \<Rightarrow> rt_entry \<Rightarrow> npt \<times> fib \<times> io \<Rightarrow> npt \<times> fib \<times> io" where
  "npt_addRte L c adl n rte = (\<lambda>(t, fs). case npt_find n t of
       None \<Rightarrow>
         let entry = npe_sort (generateNhlfromRteList (addRoutingTableEntry rte (npt_entry_named n)))
         in (t @ [entry],
             if length (rte_hops rte) > 0 then fib_update L c adl n (npe_hops entry) fs else fs)
     | Some it \<Rightarrow>
         let entry = npe_sort (generateNhlfromRteList (addRoutingTableEntry rte it))
         in (update_first (\<lambda>e. npe_namePrefix e = n) (\<lambda>_. entry) t,
             if length (npe_hops entry) > 0 then fib_update L c adl n (npe_hops entry) fs
             else fib_remove adl n fs))"

definition npt_removeRte ::
  "ndn_lib \<Rightarrow> conf \<Rightarrow> adjacency_list \<Rightarrow> name \<Rightarrow> rt_entry \<Rightarrow> npt \<times> fib \<times> io \<Rightarrow> npt \<times> fib \<times> io" where
  "npt_removeRte L c adl n rte = (\<lambda>(t, fs). case npt_find n t of
       None \<Rightarrow> (t, fs)
     | Some it \<Rightarrow>
         let entry = removeRoutingTableEntry rte it
         in if length (npe_rteList entry) = 0
            then (erase_first (\<lambda>e. npe_namePrefix e = n) t, fib_remove adl n fs)
            else let entry = npe_sort (generateNhlfromRteList entry)
                 in (update_first (\<lambda>e. npe_namePrefix e = n) (\<lambda>_. entry) t,
                     fib_update L c adl n (npe_hops entry) fs))"

definition rte_of :: "name \<Rightarrow> rt_entry list \<Rightarrow> rt_entry" where
  "rte_of d t = (case findRoutingTableEntry d t of
       Some r \<Rightarrow> r
     | None \<Rightarrow> \<lparr>rte_destination = d, rte_hops = []\<rparr>)"

definition npt_addEntry ::
  "ndn_lib \<Rightarrow> conf \<Rightarrow> adjacency_list \<Rightarrow> rt_entry list \<Rightarrow> name \<Rightarrow> name \<Rightarrow> npt \<times> fib \<times> io \<Rightarrow> npt \<times> fib \<times> io" where
  "npt_addEntry L c adl rt n d = npt_addRte L c adl n (rte_of d rt)"

definition npt_removeEntry ::
  "ndn_lib \<Rightarrow> conf \<Rightarrow> adjacency_list \<Rightarrow> rt_entry list \<Rightarrow> name \<Rightarrow> name \<Rightarrow> npt \<times> fib \<times> io \<Rightarrow> npt \<times> fib \<times> io" where
  "npt_removeEntry L c adl rt n d = npt_removeRte L c adl n (rte_of d rt)"

text \<open>
  The loops iterate over the table while \<open>addEntry\<close> changes it; for an entry that exists
  the change leaves the prefixes and the destinations in their places, so the pairs that
  are visited are those of the table at the start.
\<close>

definition prefix_origins :: "npt \<Rightarrow> (name \<times> name) list" where
  "prefix_origins t = concat (map (\<lambda>e. map (\<lambda>r. (npe_namePrefix e, rte_destination r)) (npe_rteList e)) t)"

definition updateWithNewRoute ::
  "ndn_lib \<Rightarrow> conf \<Rightarrow> adjacency_list \<Rightarrow> rt_entry list \<Rightarrow> npt \<times> fib \<times> io \<Rightarrow> npt \<times> fib \<times> io" where
  "updateWithNewRoute L c adl rt = (\<lambda>(t, fs).
     fold (\<lambda>(n, d). npt_addEntry L c adl rt n d) (prefix_origins t) (t, fs))"

section \<open>The table's invariant\<close>

lemma rte_of_destination [simp]: "rte_destination (rte_of d t) = d"
  by (auto simp: rte_of_def find_rte_by_key dest: by_key_SomeD split: option.split)

lemma rte_of_wf: "rt_wf t \<Longrightarrow> nhl_wf (rte_hops (rte_of d t))"
  by (auto simp: rte_of_def find_rte_by_key rt_wf_def list_all_iff dest: by_key_SomeD split: option.split)

definition all_hops :: "rt_entry list \<Rightarrow> nexthop_list" where
  "all_hops rs = nhl_sort (fold (\<lambda>r. fold addNextHop (rte_hops r)) rs [])"

definition npe_wf :: "npt_entry \<Rightarrow> bool" where
  "npe_wf e \<longleftrightarrow> npe_rteList e \<noteq> [] \<and> distinct (map rte_destination (npe_rteList e)) \<and>
     npe_hops e = all_hops (npe_rteList e)"

definition npt_wf :: "npt \<Rightarrow> bool" where
  "npt_wf t \<longleftrightarrow> distinct (map npe_namePrefix t) \<and> list_all npe_wf t"

lemma npt_find_by_key: "npt_find n t = by_key npe_namePrefix n t"
  by (simp add: npt_find_def by_key_def)

lemma regenerate: "npe_sort (generateNhlfromRteList e) = e\<lparr>npe_hops := all_hops (npe_rteList e)\<rparr>"
  by (simp add: npe_sort_def generateNhlfromRteList_def all_hops_def)

lemma addRte_list:
  "npe_rteList (addRoutingTableEntry rte e) =
     (if rte_destination rte \<in> rte_destination ` set (npe_rteList e)
      then update_first (\<lambda>r. rte_destination r = rte_destination rte)
             (\<lambda>r. r\<lparr>rte_hops := fold addNextHop (rte_hops rte) []\<rparr>) (npe_rteList e)
      else npe_rteList e @ [rte])"
proof (cases "find (\<lambda>r. rte_destination r = rte_destination rte) (npe_rteList e)")
  case None
  then have "rte_destination rte \<notin> rte_destination ` set (npe_rteList e)"
    by (auto simp: find_None_all)
  with None show ?thesis by (simp add: addRoutingTableEntry_def)
next
  case (Some r)
  then have "rte_destination rte \<in> rte_destination ` set (npe_rteList e)"
    by (auto dest!: find_SomeD simp: image_iff intro: sym)
  with Some show ?thesis by (simp add: addRoutingTableEntry_def)
qed

lemma addRte_prefix [simp]: "npe_namePrefix (addRoutingTableEntry rte e) = npe_namePrefix e"
  by (simp add: addRoutingTableEntry_def split: option.split)

lemma removeRte_prefix [simp]: "npe_namePrefix (removeRoutingTableEntry rte e) = npe_namePrefix e"
  by (simp add: removeRoutingTableEntry_def)

lemma addRte_nonempty [simp]: "npe_rteList (addRoutingTableEntry rte e) \<noteq> []"
proof -
  have "npe_rteList e = [] \<Longrightarrow> npe_rteList (addRoutingTableEntry rte e) \<noteq> []"
    by (simp add: addRte_list)
  moreover have "length (npe_rteList e) \<le> length (npe_rteList (addRoutingTableEntry rte e))"
    by (simp add: addRte_list)
  ultimately show ?thesis by (cases "npe_rteList e") auto
qed

lemma addRte_destinations:
  "map rte_destination (npe_rteList (addRoutingTableEntry rte e)) =
     (if rte_destination rte \<in> rte_destination ` set (npe_rteList e)
      then map rte_destination (npe_rteList e)
      else map rte_destination (npe_rteList e) @ [rte_destination rte])"
proof -
  have "map rte_destination (update_first P (\<lambda>r. r\<lparr>rte_hops := hs\<rparr>) l) = map rte_destination l"
    for P hs and l :: "rt_entry list"
    by (rule map_update_first_same) simp
  then show ?thesis by (simp add: addRte_list)
qed

lemma npe_wf_add [inv_intros]:
  "distinct (map rte_destination (npe_rteList e)) \<Longrightarrow>
   npe_wf (npe_sort (generateNhlfromRteList (addRoutingTableEntry rte e)))"
  by (simp add: regenerate npe_wf_def addRte_destinations)

lemma npe_wf_remove [inv_intros]:
  "npe_wf e \<Longrightarrow> npe_rteList (removeRoutingTableEntry rte e) \<noteq> [] \<Longrightarrow>
   npe_wf (npe_sort (generateNhlfromRteList (removeRoutingTableEntry rte e)))"
  by (simp add: regenerate npe_wf_def removeRoutingTableEntry_def distinct_erase_first)

lemma npt_wf_append:
  "npt_wf t \<Longrightarrow> npt_find (npe_namePrefix e) t = None \<Longrightarrow> npe_wf e \<Longrightarrow> npt_wf (t @ [e])"
  by (auto simp: npt_wf_def npt_find_by_key by_key_None)

lemma npt_wf_replace:
  assumes "npt_wf t" and "npe_namePrefix e = n" and "npe_wf e"
  shows "npt_wf (update_first (\<lambda>e. npe_namePrefix e = n) (\<lambda>_. e) t)"
proof -
  have "map npe_namePrefix (update_first (\<lambda>e. npe_namePrefix e = n) (\<lambda>_. e) t) = map npe_namePrefix t"
    by (rule map_update_first_same) (simp add: assms(2))
  with assms set_update_first [of "\<lambda>e. npe_namePrefix e = n" "\<lambda>_. e" t] show ?thesis
    by (auto simp: npt_wf_def list_all_iff)
qed

lemma npt_find_wf: "npt_wf t \<Longrightarrow> npt_find n t = Some e \<Longrightarrow> npe_wf e \<and> npe_namePrefix e = n"
  by (auto simp: npt_wf_def npt_find_by_key list_all_iff dest: by_key_SomeD)

lemma npt_wf_addRte [inv_intros]: "npt_wf t \<Longrightarrow> npt_wf (fst (npt_addRte L c adl n rte (t, fs)))"
proof (cases "npt_find n t")
  case None
  moreover assume "npt_wf t"
  ultimately show ?thesis
    using npe_wf_add [of "npt_entry_named n" rte]
    by (simp add: npt_addRte_def Let_def)
      (rule npt_wf_append, simp_all add: npt_entry_named_def npe_sort_def generateNhlfromRteList_def)
next
  case (Some e)
  moreover assume "npt_wf t"
  ultimately show ?thesis
    using npt_find_wf [of t n e] npe_wf_add [of e rte]
    by (simp add: npt_addRte_def Let_def)
      (rule npt_wf_replace, simp_all add: npe_wf_def npe_sort_def generateNhlfromRteList_def)
qed

lemma npt_wf_removeRte [inv_intros]: "npt_wf t \<Longrightarrow> npt_wf (fst (npt_removeRte L c adl n rte (t, fs)))"
proof (cases "npt_find n t")
  case (Some e)
  moreover assume wf: "npt_wf t"
  moreover have "npt_wf (erase_first P t)" for P
    using wf set_erase_first [of P t] by (auto simp: npt_wf_def distinct_erase_first list_all_iff)
  moreover have "npe_namePrefix (npe_sort (generateNhlfromRteList (removeRoutingTableEntry rte e))) = n"
    using npt_find_wf [OF wf Some] by (simp add: npe_sort_def generateNhlfromRteList_def)
  with wf have "npe_rteList (removeRoutingTableEntry rte e) \<noteq> [] \<Longrightarrow>
      npt_wf (update_first (\<lambda>e. npe_namePrefix e = n)
        (\<lambda>_. npe_sort (generateNhlfromRteList (removeRoutingTableEntry rte e))) t)"
    using npt_find_wf [OF wf Some] by (intro npt_wf_replace npe_wf_remove) simp_all
  ultimately show ?thesis
    by (simp add: npt_removeRte_def Let_def)
qed (simp add: npt_removeRte_def)

section \<open>The FIB follows the table\<close>

text \<open>
  \<open>fib_match\<close>: the FIB entry of a prefix has exactly the faces of the cheapest hops of the
  prefix, and there is none when the prefix has no hops. FIB entries expire, so only one
  direction of it, \<open>fib_npt_ok\<close>, holds all the time.
\<close>

definition fib_match :: "conf \<Rightarrow> npt \<Rightarrow> fib \<Rightarrow> name \<Rightarrow> bool" where
  "fib_match c t f n \<longleftrightarrow> (case npt_find n t of
       None \<Rightarrow> fib_find n f = None
     | Some p \<Rightarrow>
         if hopsToInstall c (npe_hops p) = [] then fib_find n f = None
         else \<exists>e. fib_find n f = Some e \<and>
           nh_faceUri ` set (fe_hops e) = nh_faceUri ` set (hopsToInstall c (npe_hops p)))"

definition fib_npt_ok :: "conf \<Rightarrow> npt \<Rightarrow> fib \<Rightarrow> bool" where
  "fib_npt_ok c t f \<longleftrightarrow> (\<forall>n. fib_find n f \<noteq> None \<longrightarrow> fib_match c t f n)"

definition tables_ok :: "conf \<Rightarrow> npt \<Rightarrow> fib \<Rightarrow> io \<Rightarrow> bool" where
  "tables_ok c t f s \<longleftrightarrow> npt_wf t \<and> fib_wf c f \<and> fib_timers_ok f s \<and> fib_npt_ok c t f"

lemma fib_match_cong:
  "fib_find n f = fib_find n f' \<Longrightarrow> npt_find n t = npt_find n t' \<Longrightarrow>
   fib_match c t f n = fib_match c t' f' n"
  by (simp add: fib_match_def split: option.split)

lemma hopsToInstall_Nil [simp]: "hopsToInstall c [] = []"
  by (simp add: hopsToInstall_def nhl_sort_def)

lemma fib_update_match:
  assumes "fib_wf c f" and "npt_find n t = Some p" and "npe_hops p = hs"
    and "fib_update L c adl n hs (f, s) = (f', s')"
  shows "fib_match c t f' n"
proof (cases "hopsToInstall c hs = []")
  case True
  have "fib_find n f' = None"
    using assms(4) fib_find_remove [OF assms(1), of n adl n s]
    by (auto simp: fib_update_nothing [OF True] split: option.splits)
  with True assms(2,3) show ?thesis
    by (simp add: fib_match_def)
next
  case False
  with fib_find_update(1) [OF assms(1) False, where L = L and adl = adl and n = n and s = s] assms(2-4) show ?thesis
    by (auto simp: fib_match_def hops_after_uris)
qed

lemma fib_update_other:
  assumes "fib_wf c f" and "m \<noteq> n"
  shows "fib_find m (fst (fib_update L c adl n hs (f, s))) = fib_find m f"
proof (cases "hopsToInstall c hs = []")
  case True
  with assms fib_find_remove [OF assms(1), of m adl n s] show ?thesis
    by (auto simp: fib_update_nothing split: option.split)
next
  case False
  with assms show ?thesis by (simp add: fib_find_update(2))
qed

lemma npt_find_replace:
  assumes "npe_namePrefix e = n"
  shows "npt_find m (update_first (\<lambda>e. npe_namePrefix e = n) (\<lambda>_. e) t) =
    (if m = n then map_option (\<lambda>_. e) (npt_find m t) else npt_find m t)"
  unfolding npt_find_by_key using assms by (induction t) auto

lemma npt_find_append:
  "npt_find m (t @ [e]) = (case npt_find m t of
     Some x \<Rightarrow> Some x | None \<Rightarrow> if npe_namePrefix e = m then Some e else None)"
  by (simp add: npt_find_by_key by_key_append split: option.split)

lemma npt_find_erase:
  "npt_wf t \<Longrightarrow> npt_find m (erase_first (\<lambda>e. npe_namePrefix e = n) t) =
    (if m = n then None else npt_find m t)"
  by (simp add: npt_find_by_key by_key_erase_first npt_wf_def)

text \<open>The entry that \<open>addEntry\<close> leaves in the table.\<close>

definition added_entry :: "npt \<Rightarrow> name \<Rightarrow> rt_entry \<Rightarrow> npt_entry" where
  "added_entry t n rte = npe_sort (generateNhlfromRteList (addRoutingTableEntry rte
     (case npt_find n t of None \<Rightarrow> npt_entry_named n | Some e \<Rightarrow> e)))"

lemma added_entry_prefix: "npe_namePrefix (added_entry t n rte) = n"
proof -
  have "npt_find n t = Some e \<Longrightarrow> npe_namePrefix e = n" for e
    by (auto simp: npt_find_by_key dest: by_key_SomeD)
  then show ?thesis
    by (simp add: added_entry_def npe_sort_def generateNhlfromRteList_def npt_entry_named_def
        split: option.split)
qed

lemma added_entry_new:
  "npt_find n t = None \<Longrightarrow> npe_hops (added_entry t n rte) = nhl_sort (fold addNextHop (rte_hops rte) [])"
  by (simp add: added_entry_def npe_sort_def generateNhlfromRteList_def addRoutingTableEntry_def
      npt_entry_named_def)

lemma npt_addRte_alt:
  "npt_addRte L c adl n rte (t, fs) =
    ((case npt_find n t of None \<Rightarrow> t @ [added_entry t n rte]
      | Some _ \<Rightarrow> update_first (\<lambda>e. npe_namePrefix e = n) (\<lambda>_. added_entry t n rte) t),
     (if npe_hops (added_entry t n rte) \<noteq> [] then fib_update L c adl n (npe_hops (added_entry t n rte)) fs
      else if npt_find n t = None then fs else fib_remove adl n fs))"
proof (cases "npt_find n t")
  case None
  then show ?thesis
    using added_entry_new [OF None, of rte]
    by (simp add: npt_addRte_def added_entry_def Let_def)
qed (simp add: npt_addRte_def added_entry_def Let_def)

lemma npt_find_addRte:
  "npt_find m (fst (npt_addRte L c adl n rte (t, fs))) =
     (if m = n then Some (added_entry t n rte) else npt_find m t)"
  by (auto simp: npt_addRte_alt npt_find_replace npt_find_append added_entry_prefix split: option.split)

lemma tables_ok_remove [inv_intros]:
  assumes "tables_ok c t f s" and "fib_remove adl n (f, s) = (f', s')"
  shows "tables_ok c t f' s'"
proof -
  have wf: "fib_wf c f" and tm: "fib_timers_ok f s"
    using assms(1) by (simp_all add: tables_ok_def)
  have find: "fib_find m f' = (if m = n then None else fib_find m f)" for m
    using fib_find_remove [OF wf, of m adl n s] assms(2) by simp
  have "fib_npt_ok c t f'"
    unfolding fib_npt_ok_def
  proof (intro allI impI)
    fix m assume m: "fib_find m f' \<noteq> None"
    then have "fib_match c t f m"
      using assms(1) find [of m] by (simp add: tables_ok_def fib_npt_ok_def split: if_splits)
    moreover have "fib_find m f = fib_find m f'"
      using m find [of m] by (simp split: if_splits)
    ultimately show "fib_match c t f' m"
      using fib_match_cong [of m f f' t t c] by simp
  qed
  with assms show ?thesis
    using fib_wf_remove [OF wf, of adl n s] fib_timers_ok_remove [OF tm wf assms(2)]
    by (simp add: tables_ok_def)
qed

lemma addRte_step:
  assumes ok: "tables_ok c t f s" and step: "npt_addRte L c adl n rte (t, f, s) = (t', f', s')"
  shows "fib_wf c f'" and "fib_timers_ok f' s'" and "fib_match c t' f' n"
    and "m \<noteq> n \<Longrightarrow> fib_find m f' = fib_find m f" and "m \<noteq> n \<Longrightarrow> npt_find m t' = npt_find m t"
proof -
  let ?e = "added_entry t n rte"
  have wf: "fib_wf c f" and tm: "fib_timers_ok f s"
    using ok by (simp_all add: tables_ok_def)
  have t': "npt_find m t' = (if m = n then Some ?e else npt_find m t)" for m
    using npt_find_addRte [of m L c adl n rte t "(f, s)"] step by simp
  have "fib_wf c f' \<and> fib_timers_ok f' s' \<and> fib_match c t' f' n \<and> (m \<noteq> n \<longrightarrow> fib_find m f' = fib_find m f)"
  proof (cases "npe_hops ?e = []")
    case False
    then have u: "fib_update L c adl n (npe_hops ?e) (f, s) = (f', s')"
      using step by (simp add: npt_addRte_alt)
    then show ?thesis
      using fib_wf_update [OF wf, of L adl n "npe_hops ?e" s] fib_timers_ok_update [OF tm wf u]
        fib_update_match [OF wf _ _ u, of t' ?e] fib_update_other [OF wf, of m n L adl "npe_hops ?e" s] t'
      by simp
  next
    case empty: True
    show ?thesis
    proof (cases "npt_find n t = None")
      case True
      then have "f' = f" "s' = s"
        using step empty by (simp_all add: npt_addRte_alt)
      moreover have "fib_find n f = None"
        using ok True by (force simp: tables_ok_def fib_npt_ok_def fib_match_def)
      ultimately show ?thesis
        using wf tm t' empty by (simp add: fib_match_def)
    next
      case False
      then have r: "fib_remove adl n (f, s) = (f', s')"
        using step empty by (auto simp: npt_addRte_alt)
      then show ?thesis
        using fib_wf_remove [OF wf, of adl n s] fib_timers_ok_remove [OF tm wf r]
          fib_find_remove [OF wf, of _ adl n s] t' empty
        by (simp add: fib_match_def)
    qed
  qed
  then show "fib_wf c f'" and "fib_timers_ok f' s'" and "fib_match c t' f' n"
    and "m \<noteq> n \<Longrightarrow> fib_find m f' = fib_find m f"
    by blast+
  show "m \<noteq> n \<Longrightarrow> npt_find m t' = npt_find m t"
    by (simp add: t')
qed

lemma tables_ok_addRte [inv_intros]:
  assumes ok: "tables_ok c t f s" and step: "npt_addRte L c adl n rte (t, f, s) = (t', f', s')"
  shows "tables_ok c t' f' s'"
proof -
  have "npt_wf t'"
    using npt_wf_addRte [of t L c adl n rte "(f, s)"] ok step by (simp add: tables_ok_def)
  moreover have "fib_npt_ok c t' f'"
    unfolding fib_npt_ok_def
  proof (intro allI impI)
    fix m assume m: "fib_find m f' \<noteq> None"
    show "fib_match c t' f' m"
    proof (cases "m = n")
      case True
      with addRte_step(3) [OF ok step] show ?thesis by simp
    next
      case False
      note eq = addRte_step(4,5) [OF ok step False]
      with m ok have "fib_match c t f m"
        by (simp add: tables_ok_def fib_npt_ok_def)
      with fib_match_cong [OF eq] show ?thesis by simp
    qed
  qed
  ultimately show ?thesis
    using addRte_step(1,2) [OF ok step] by (simp add: tables_ok_def)
qed

lemma removeRte_step:
  assumes ok: "tables_ok c t f s" and step: "npt_removeRte L c adl n rte (t, f, s) = (t', f', s')"
  shows "fib_wf c f'" and "fib_timers_ok f' s'" and "npt_find n t \<noteq> None \<Longrightarrow> fib_match c t' f' n"
    and "m \<noteq> n \<Longrightarrow> fib_find m f' = fib_find m f" and "m \<noteq> n \<Longrightarrow> npt_find m t' = npt_find m t"
    and "npt_find n t = None \<Longrightarrow> t' = t \<and> f' = f \<and> s' = s"
proof -
  have wf: "fib_wf c f" and tm: "fib_timers_ok f s" and nwf: "npt_wf t"
    using ok by (simp_all add: tables_ok_def)
  have "fib_wf c f' \<and> fib_timers_ok f' s' \<and> (npt_find n t \<noteq> None \<longrightarrow> fib_match c t' f' n) \<and>
    (m \<noteq> n \<longrightarrow> fib_find m f' = fib_find m f) \<and> (m \<noteq> n \<longrightarrow> npt_find m t' = npt_find m t) \<and>
    (npt_find n t = None \<longrightarrow> t' = t \<and> f' = f \<and> s' = s)"
  proof (cases "npt_find n t")
    case None
    with step wf tm show ?thesis by (simp add: npt_removeRte_def)
  next
    case (Some it)
    let ?e = "removeRoutingTableEntry rte it"
    show ?thesis
    proof (cases "npe_rteList ?e = []")
      case True
      then have r: "fib_remove adl n (f, s) = (f', s')"
        and t': "t' = erase_first (\<lambda>e. npe_namePrefix e = n) t"
        using step Some by (simp_all add: npt_removeRte_def)
      then show ?thesis
        using fib_wf_remove [OF wf, of adl n s] fib_timers_ok_remove [OF tm wf r]
          fib_find_remove [OF wf, of _ adl n s] Some
        by (simp add: fib_match_def npt_find_erase [OF nwf])
    next
      case False
      let ?g = "npe_sort (generateNhlfromRteList ?e)"
      have u: "fib_update L c adl n (npe_hops ?g) (f, s) = (f', s')"
        and t': "t' = update_first (\<lambda>e. npe_namePrefix e = n) (\<lambda>_. ?g) t"
        using step Some False by (simp_all add: npt_removeRte_def Let_def)
      have "npe_namePrefix ?g = n"
        using npt_find_wf [OF nwf Some] by (simp add: npe_sort_def generateNhlfromRteList_def)
      then have "npt_find m t' = (if m = n then Some ?g else npt_find m t)" for m
        by (simp add: t' npt_find_replace Some)
      then show ?thesis
        using fib_wf_update [OF wf, of L adl n "npe_hops ?g" s] fib_timers_ok_update [OF tm wf u]
          fib_update_match [OF wf _ _ u, of t' ?g] fib_update_other [OF wf, of m n L adl "npe_hops ?g" s] u Some
        by simp
    qed
  qed
  then show "fib_wf c f'" and "fib_timers_ok f' s'" and "npt_find n t \<noteq> None \<Longrightarrow> fib_match c t' f' n"
    and "m \<noteq> n \<Longrightarrow> fib_find m f' = fib_find m f" and "m \<noteq> n \<Longrightarrow> npt_find m t' = npt_find m t"
    and "npt_find n t = None \<Longrightarrow> t' = t \<and> f' = f \<and> s' = s"
    by blast+
qed

lemma tables_ok_removeRte [inv_intros]:
  assumes ok: "tables_ok c t f s" and step: "npt_removeRte L c adl n rte (t, f, s) = (t', f', s')"
  shows "tables_ok c t' f' s'"
proof (cases "npt_find n t = None")
  case True
  with removeRte_step(6) [OF ok step] ok show ?thesis by simp
next
  case found: False
  have "npt_wf t'"
    using npt_wf_removeRte [of t L c adl n rte "(f, s)"] ok step by (simp add: tables_ok_def)
  moreover have "fib_npt_ok c t' f'"
    unfolding fib_npt_ok_def
  proof (intro allI impI)
    fix m assume m: "fib_find m f' \<noteq> None"
    show "fib_match c t' f' m"
    proof (cases "m = n")
      case True
      with removeRte_step(3) [OF ok step found] show ?thesis by simp
    next
      case False
      note eq = removeRte_step(4,5) [OF ok step False]
      with m ok have "fib_match c t f m"
        by (simp add: tables_ok_def fib_npt_ok_def)
      with fib_match_cong [OF eq] show ?thesis by simp
    qed
  qed
  ultimately show ?thesis
    using removeRte_step(1,2) [OF ok step] by (simp add: tables_ok_def)
qed

section \<open>After a route calculation\<close>

definition add_pairs ::
  "ndn_lib \<Rightarrow> conf \<Rightarrow> adjacency_list \<Rightarrow> rt_entry list \<Rightarrow> (name \<times> name) list \<Rightarrow> npt \<times> fib \<times> io \<Rightarrow> npt \<times> fib \<times> io" where
  "add_pairs L c adl rt ps = fold (\<lambda>(n, d). npt_addEntry L c adl rt n d) ps"

lemma updateWithNewRoute_pairs:
  "updateWithNewRoute L c adl rt (t, fs) = add_pairs L c adl rt (prefix_origins t) (t, fs)"
  by (simp add: updateWithNewRoute_def add_pairs_def)

lemma add_pairs_simps:
  "add_pairs L c adl rt [] st = st"
  "add_pairs L c adl rt ((n, d) # ps) st =
     add_pairs L c adl rt ps (npt_addRte L c adl n (rte_of d rt) st)"
  by (simp_all add: add_pairs_def npt_addEntry_def)

lemma tables_ok_pairs:
  "tables_ok c t f s \<Longrightarrow> add_pairs L c adl rt ps (t, f, s) = (t', f', s') \<Longrightarrow> tables_ok c t' f' s'"
proof (induction ps arbitrary: t f s)
  case (Cons p ps)
  obtain n d where p: "p = (n, d)" by fastforce
  obtain t1 f1 s1 where st: "npt_addRte L c adl n (rte_of d rt) (t, f, s) = (t1, f1, s1)"
    by (cases "npt_addRte L c adl n (rte_of d rt) (t, f, s)") auto
  with Cons.prems tables_ok_addRte [OF Cons.prems(1) st] Cons.IH [of t1 f1 s1] show ?case
    by (simp add: p add_pairs_simps)
qed (simp add: add_pairs_simps)

lemma add_pairs_match:
  assumes "tables_ok c t f s" and "add_pairs L c adl rt ps (t, f, s) = (t', f', s')"
    and "fib_match c t f n \<or> n \<in> fst ` set ps"
  shows "fib_match c t' f' n"
  using assms
proof (induction ps arbitrary: t f s)
  case (Cons p ps)
  obtain m d where p: "p = (m, d)" by fastforce
  obtain t1 f1 s1 where st: "npt_addRte L c adl m (rte_of d rt) (t, f, s) = (t1, f1, s1)"
    by (cases "npt_addRte L c adl m (rte_of d rt) (t, f, s)") auto
  have "fib_match c t1 f1 n \<or> n \<in> fst ` set ps"
  proof (cases "n = m")
    case True
    with addRte_step(3) [OF Cons.prems(1) st] show ?thesis by simp
  next
    case False
    from fib_match_cong [OF addRte_step(4,5) [OF Cons.prems(1) st False], of c] Cons.prems(3) False
    show ?thesis by (auto simp: p)
  qed
  with Cons.IH [OF tables_ok_addRte [OF Cons.prems(1) st]] Cons.prems(2) st show ?case
    by (simp add: p add_pairs_simps)
qed (simp add: add_pairs_simps)

lemma prefixes_in_pairs:
  assumes "npt_wf t" and "npt_find n t = Some e"
  shows "n \<in> fst ` set (prefix_origins t)"
proof -
  have e: "e \<in> set t" "npe_namePrefix e = n"
    using assms(2) by (auto simp: npt_find_by_key dest: by_key_SomeD)
  moreover from e(1) assms(1) have "npe_rteList e \<noteq> []"
    by (auto simp: npt_wf_def npe_wf_def list_all_iff)
  then obtain r where "r \<in> set (npe_rteList e)"
    by (cases "npe_rteList e") auto
  ultimately show ?thesis
    by (force simp: prefix_origins_def)
qed

lemma updateWithNewRoute_match:
  assumes ok: "tables_ok c t f s" and u: "updateWithNewRoute L c adl rt (t, f, s) = (t', f', s')"
  shows "fib_match c t' f' n"
proof (cases "npt_find n t")
  case None
  then have "fib_match c t f n"
    using ok by (fastforce simp: tables_ok_def fib_npt_ok_def fib_match_def)
  with add_pairs_match [OF ok] u show ?thesis
    by (simp add: updateWithNewRoute_pairs)
next
  case (Some e)
  then have "n \<in> fst ` set (prefix_origins t)"
    using ok prefixes_in_pairs by (auto simp: tables_ok_def)
  with add_pairs_match [OF ok] u show ?thesis
    by (simp add: updateWithNewRoute_pairs)
qed

text \<open>Which routes the entries hold then.\<close>

definition with_routes :: "rt_entry list \<Rightarrow> npt_entry \<Rightarrow> npt_entry" where
  "with_routes rt e = (let rs = map (\<lambda>r. rte_of (rte_destination r) rt) (npe_rteList e)
     in e\<lparr>npe_rteList := rs, npe_hops := all_hops rs\<rparr>)"

lemma rte_reset_readd:
  assumes "nhl_wf hs"
  shows "fold addNextHop hs [] = hs"
  using assms fold_add_distinct [of "[]" hs] by (simp add: nhl_wf_def)

text \<open>One step replaces the route of one origin; the list keeps its order.\<close>

definition replace_route :: "rt_entry list \<Rightarrow> name \<Rightarrow> rt_entry list \<Rightarrow> rt_entry list" where
  "replace_route rt d rs = map (\<lambda>r. if rte_destination r = d then rte_of d rt else r) rs"

lemma replace_route_add:
  assumes "rt_wf rt" and "distinct (map rte_destination (npe_rteList e))"
    and "d \<in> rte_destination ` set (npe_rteList e)"
  shows "npe_rteList (addRoutingTableEntry (rte_of d rt) e) = replace_route rt d (npe_rteList e)"
proof -
  let ?h = "rte_hops (rte_of d rt)"
  have hs: "fold addNextHop ?h [] = ?h"
    by (rule rte_reset_readd) (rule rte_of_wf [OF assms(1)])
  have same: "r\<lparr>rte_hops := ?h\<rparr> = rte_of d rt" if "rte_destination r = d" for r
    using that rte_of_destination [of d rt] by (metis (full_types) rt_entry.surjective rt_entry.update_convs(2) old.unit.exhaust)
  have "update_first (\<lambda>r. rte_destination r = d) (\<lambda>r. r\<lparr>rte_hops := ?h\<rparr>) rs = replace_route rt d rs"
    if "distinct (map rte_destination rs)" for rs
    using that
  proof (induction rs)
    case (Cons r rs)
    show ?case
    proof (cases "rte_destination r = d")
      case True
      with Cons.prems have "replace_route rt d rs = rs"
        unfolding replace_route_def by (intro map_idI) (auto simp: image_iff)
      with True same [of r] show ?thesis
        by (simp add: replace_route_def)
    next
      case False
      with Cons show ?thesis
        by (simp add: replace_route_def)
    qed
  qed (simp add: replace_route_def)
  with assms show ?thesis
    by (simp add: addRte_list hs)
qed

lemma replace_route_destinations [simp]:
  "map rte_destination (replace_route rt d rs) = map rte_destination rs"
  by (simp add: replace_route_def)

lemma fold_replace_route:
  "fold (replace_route rt) ds rs =
     map (\<lambda>r. if rte_destination r \<in> set ds then rte_of (rte_destination r) rt else r) rs"
  by (induction ds arbitrary: rs) (auto simp: replace_route_def)

text \<open>The routes of a prefix after a sequence of additions of origins it has.\<close>

lemma pairs_routes:
  assumes "npt_wf t" and "rt_wf rt"
    and "\<forall>(n, d)\<in>set ps. \<exists>e. npt_find n t = Some e \<and> d \<in> rte_destination ` set (npe_rteList e)"
    and "npt_find m t = Some e"
  shows "\<exists>e'. npt_find m (fst (add_pairs L c adl rt ps (t, fs))) = Some e' \<and>
    npe_rteList e' = fold (replace_route rt) (map snd (filter (\<lambda>p. fst p = m) ps)) (npe_rteList e)"
  using assms(1,3,4)
proof (induction ps arbitrary: t fs e)
  case (Cons p ps)
  obtain n d where p: "p = (n, d)" by fastforce
  obtain t1 fs1 where st: "npt_addRte L c adl n (rte_of d rt) (t, fs) = (t1, fs1)"
    by (cases "npt_addRte L c adl n (rte_of d rt) (t, fs)")
  from Cons.prems(2) obtain en where en: "npt_find n t = Some en"
      "d \<in> rte_destination ` set (npe_rteList en)"
    by (auto simp: p)
  then have "distinct (map rte_destination (npe_rteList en))"
    using npt_find_wf [OF Cons.prems(1)] by (simp add: npe_wf_def)
  then have added: "npe_rteList (added_entry t n (rte_of d rt)) = replace_route rt d (npe_rteList en)"
    using en replace_route_add [OF assms(2)]
    by (simp add: added_entry_def regenerate)
  have t1: "npt_find k t1 = (if k = n then Some (added_entry t n (rte_of d rt)) else npt_find k t)" for k
    using npt_find_addRte [of k L c adl n "rte_of d rt" t fs] st by simp
  have "npt_wf t1"
    using npt_wf_addRte [OF Cons.prems(1)] st by (metis fst_conv)
  moreover have "\<forall>(k, d')\<in>set ps. \<exists>e. npt_find k t1 = Some e \<and> d' \<in> rte_destination ` set (npe_rteList e)"
  proof (clarify)
    fix k d' assume "(k, d') \<in> set ps"
    with Cons.prems(2) obtain ek where "npt_find k t = Some ek" "d' \<in> rte_destination ` set (npe_rteList ek)"
      by (auto simp: p)
    moreover have "rte_destination ` set (replace_route rt d rs) = rte_destination ` set rs" for rs
      by (metis list.set_map replace_route_destinations)
    ultimately show "\<exists>e. npt_find k t1 = Some e \<and> d' \<in> rte_destination ` set (npe_rteList e)"
      using en by (auto simp: t1 added)
  qed
  moreover have "npt_find m t1 = Some (if m = n then added_entry t n (rte_of d rt) else e)"
    using Cons.prems(3) by (simp add: t1)
  ultimately show ?case
    using Cons.IH [of t1 _ fs1] Cons.prems(3) en added st
    by (cases "m = n") (simp_all add: p add_pairs_simps)
qed (simp add: add_pairs_simps)

lemma npt_wf_pairs:
  "npt_wf t \<Longrightarrow> npt_wf (fst (add_pairs L c adl rt ps (t, fs)))"
proof (induction ps arbitrary: t fs)
  case (Cons p ps)
  obtain n d where p: "p = (n, d)" by fastforce
  obtain t1 fs1 where "npt_addRte L c adl n (rte_of d rt) (t, fs) = (t1, fs1)"
    by (cases "npt_addRte L c adl n (rte_of d rt) (t, fs)")
  moreover from this npt_wf_addRte [OF Cons.prems] have "npt_wf t1"
    by (metis fst_conv)
  ultimately show ?case
    using Cons.IH [of t1 fs1] by (simp add: p add_pairs_simps)
qed (simp add: add_pairs_simps)

lemma updateWithNewRoute_routes:
  assumes wf: "npt_wf t" and rt: "rt_wf rt" and e: "npt_find n t = Some e"
  shows "\<exists>e'. npt_find n (fst (updateWithNewRoute L c adl rt (t, fs))) = Some e' \<and>
    npe_rteList e' = map (\<lambda>r. rte_of (rte_destination r) rt) (npe_rteList e) \<and>
    npe_hops e' = all_hops (npe_rteList e')"
proof -
  let ?ps = "prefix_origins t" and ?t' = "fst (updateWithNewRoute L c adl rt (t, fs))"
  have dist: "distinct (map npe_namePrefix t)"
    using wf by (simp add: npt_wf_def)
  have mem: "e \<in> set t" "npe_namePrefix e = n"
    using e by (auto simp: npt_find_by_key dest: by_key_SomeD)
  have "\<forall>(n, d)\<in>set ?ps. \<exists>e. npt_find n t = Some e \<and> d \<in> rte_destination ` set (npe_rteList e)"
  proof (clarify)
    fix k d assume "(k, d) \<in> set ?ps"
    then obtain x where "x \<in> set t" "npe_namePrefix x = k" "d \<in> rte_destination ` set (npe_rteList x)"
      by (auto simp: prefix_origins_def)
    then show "\<exists>e. npt_find k t = Some e \<and> d \<in> rte_destination ` set (npe_rteList e)"
      using by_key_mem [OF dist] by (auto simp: npt_find_by_key)
  qed
  from pairs_routes [OF wf rt this e, of L c adl fs] obtain e' where
    e': "npt_find n ?t' = Some e'" and
    rs: "npe_rteList e' = fold (replace_route rt) (map snd (filter (\<lambda>p. fst p = n) ?ps)) (npe_rteList e)"
    by (auto simp: updateWithNewRoute_pairs)
  have own: "rte_destination r \<in> set (map snd (filter (\<lambda>p. fst p = n) ?ps))"
    if "r \<in> set (npe_rteList e)" for r
    using that mem by (force simp: prefix_origins_def)
  have "npt_wf ?t'"
    using npt_wf_pairs [OF wf] by (simp add: updateWithNewRoute_pairs)
  with e' have "npe_hops e' = all_hops (npe_rteList e')"
    using npt_find_wf by (auto simp: npe_wf_def)
  moreover have "npe_rteList e' = map (\<lambda>r. rte_of (rte_destination r) rt) (npe_rteList e)"
    unfolding rs fold_replace_route using own by (intro map_cong) auto
  ultimately show ?thesis
    using e' by blast
qed

text \<open>The hops of an entry are the cheapest per face over its routes.\<close>

lemma all_hops_fold: "all_hops rs = nhl_sort (fold addNextHop (concat (map rte_hops rs)) [])"
proof -
  have "fold (\<lambda>r. fold addNextHop (rte_hops r)) rs l = fold addNextHop (concat (map rte_hops rs)) l" for l
    by (induction rs arbitrary: l) simp_all
  then show ?thesis by (simp add: all_hops_def)
qed

lemma all_hops_wf: "nhl_wf (all_hops rs)" "nhl_sorted (all_hops rs)"
  by (simp_all add: all_hops_fold nhl_wf_fold)

lemma all_hops_cost:
  "nhl_cost (all_hops rs) u = (if \<exists>r\<in>set rs. u \<in> nh_faceUri ` set (rte_hops r)
     then Some (Min (nh_cost ` {h. (\<exists>r\<in>set rs. h \<in> set (rte_hops r)) \<and> nh_faceUri h = u})) else None)"
proof -
  let ?hs = "concat (map rte_hops rs)"
  have wf: "nhl_wf (fold addNextHop ?hs [])"
    by (simp add: nhl_wf_fold)
  have "nhl_cost [] u = None"
    by (simp add: nhl_cost_def)
  from nhl.cost_fold_Min [OF this, of ?hs] have "nhl_cost (all_hops rs) u =
      (if u \<in> nh_faceUri ` set ?hs then Some (Min (nh_cost ` {h \<in> set ?hs. nh_faceUri h = u})) else None)"
    by (simp add: all_hops_fold nhl_cost_sort [OF wf])
  moreover have "{h \<in> set ?hs. nh_faceUri h = u} =
      {h. (\<exists>r\<in>set rs. h \<in> set (rte_hops r)) \<and> nh_faceUri h = u}"
    by auto
  ultimately show ?thesis by auto
qed

end
