(* ===== verification/Adj_Matrix.thy ===== *)
theory Adj_Matrix
  imports Router_Map
begin

text \<open>
  The cost matrix of \<open>RoutingTableCalculator\<close> (src/src/route/routing-table-calculator.cpp).
  \<open>double\<close> is modelled by \<open>real\<close>; the costs are integers, which \<open>double\<close> represents
  exactly up to \<open>2\<^sup>5\<^sup>3\<close>. Entry 0 is no link.
\<close>

type_synonym matrix = "real list list"

definition entry :: "matrix \<Rightarrow> nat \<Rightarrow> nat \<Rightarrow> real" where
  "entry m i j = m ! i ! j"

definition set_entry :: "nat \<Rightarrow> nat \<Rightarrow> real \<Rightarrow> matrix \<Rightarrow> matrix" where
  "set_entry i j c m = m[i := (m ! i)[j := c]]"

definition initMatrix :: "nat \<Rightarrow> matrix" where
  "initMatrix n = replicate n (replicate n 0)"

definition setLink :: "nat \<Rightarrow> int \<Rightarrow> int \<Rightarrow> real \<Rightarrow> matrix \<Rightarrow> matrix" where
  "setLink n row col cost m =
     (if (0 \<le> row \<and> row < int n) \<and> (0 \<le> col \<and> col < int n)
      then set_entry (nat row) (nat col) cost m else m)"

definition linkWeight :: "adjacent \<Rightarrow> real" where
  "linkWeight a = real (unat (getLinkCost a))"

definition fillMatrix :: "nat \<Rightarrow> router_map \<Rightarrow> adj_lsa list \<Rightarrow> matrix \<Rightarrow> matrix" where
  "fillMatrix n pMap lsdb m =
     fold (\<lambda>l m. let row = getMappingNoByRouterName (ls_origRouter l) pMap
       in fold (\<lambda>a. setLink n row (getMappingNoByRouterName (ad_name a) pMap) (linkWeight a))
            (al_adl l) m) lsdb m"

definition correctLink :: "nat \<Rightarrow> nat \<Rightarrow> matrix \<Rightarrow> matrix" where
  "correctLink row col m =
     (let toCost = entry m row col; fromCost = entry m col row
      in if fromCost \<noteq> toCost
         then let correctedCost = (if toCost \<noteq> 0 \<and> fromCost \<noteq> 0 then max toCost fromCost else 0)
              in set_entry col row correctedCost (set_entry row col correctedCost m)
         else m)"

definition correctMatrix :: "nat \<Rightarrow> matrix \<Rightarrow> matrix" where
  "correctMatrix n m = fold (\<lambda>row. fold (correctLink row) [0..<n]) [0..<n] m"

definition makeAdjMatrix :: "nat \<Rightarrow> router_map \<Rightarrow> adj_lsa list \<Rightarrow> matrix \<Rightarrow> matrix" where
  "makeAdjMatrix n pMap lsdb m = correctMatrix n (fillMatrix n pMap lsdb m)"

definition adjustAdMatrix :: "nat \<Rightarrow> nat \<Rightarrow> nat \<Rightarrow> real \<Rightarrow> matrix \<Rightarrow> matrix" where
  "adjustAdMatrix n source link linkCost m =
     fold (\<lambda>i. if i = link then set_entry source i linkCost else set_entry source i 0) [0..<n] m"

definition getNumOfLinkfromAdjMatrix :: "nat \<Rightarrow> matrix \<Rightarrow> nat \<Rightarrow> nat" where
  "getNumOfLinkfromAdjMatrix n m s = fold (\<lambda>i k. if entry m s i > 0 then Suc k else k) [0..<n] 0"

definition getLinksFromAdjMatrix :: "nat \<Rightarrow> matrix \<Rightarrow> nat \<Rightarrow> (nat \<times> real) list" where
  "getLinksFromAdjMatrix n m s =
     fold (\<lambda>i links. if entry m s i > 0 then links @ [(i, entry m s i)] else links) [0..<n] []"

section \<open>Entries\<close>

definition dims :: "nat \<Rightarrow> matrix \<Rightarrow> bool" where
  "dims n m \<longleftrightarrow> length m = n \<and> (\<forall>i<n. length (m ! i) = n)"

lemma dims_init [simp]: "dims n (initMatrix n)"
  by (simp add: dims_def initMatrix_def)

lemma dims_set [simp]: "dims n m \<Longrightarrow> dims n (set_entry i j c m)"
  by (cases "i < n") (auto simp: dims_def set_entry_def nth_list_update)

lemma entry_init: "i < n \<Longrightarrow> j < n \<Longrightarrow> entry (initMatrix n) i j = 0"
  by (simp add: entry_def initMatrix_def)

lemma entry_set:
  "dims n m \<Longrightarrow> i < n \<Longrightarrow> j < n \<Longrightarrow> entry (set_entry k l c m) i j = (if i = k \<and> j = l then c else entry m i j)"
  by (cases "k < n"; cases "l < n") (auto simp: dims_def entry_def set_entry_def nth_list_update)

lemma dims_setLink [simp]: "dims n m \<Longrightarrow> dims n (setLink n r c x m)"
  by (simp add: setLink_def)

lemma fold_inv: "P s \<Longrightarrow> (\<And>x s. x \<in> set xs \<Longrightarrow> P s \<Longrightarrow> P (f x s)) \<Longrightarrow> P (fold f xs s)"
  by (induction xs arbitrary: s) simp_all

lemma dims_fill: "dims n m \<Longrightarrow> dims n (fillMatrix n pMap lsdb m)"
  unfolding fillMatrix_def Let_def
proof (rule fold_inv)
  fix l and m :: matrix assume "dims n m"
  then show "dims n (fold (\<lambda>a. setLink n (getMappingNoByRouterName (ls_origRouter l) pMap)
      (getMappingNoByRouterName (ad_name a) pMap) (linkWeight a)) (al_adl l) m)"
    by (rule fold_inv) simp
qed

section \<open>The corrected matrix\<close>

definition corrected :: "real \<Rightarrow> real \<Rightarrow> real" where
  "corrected a b = (if a = b then a else if a \<noteq> 0 \<and> b \<noteq> 0 then max a b else 0)"

lemma corrected_idem: "corrected (corrected a b) (corrected b a) = corrected a b"
  by (auto simp: corrected_def max_def)

lemma corrected_sym: "corrected a b = corrected b a"
  by (auto simp: corrected_def max_def)

lemma dims_correctLink [simp]: "dims n m \<Longrightarrow> dims n (correctLink r c m)"
  by (simp add: correctLink_def Let_def)

lemma entry_correctLink:
  assumes "dims n m" and "i < n" and "j < n"
  shows "entry (correctLink r c m) i j =
    (if i = r \<and> j = c \<or> i = c \<and> j = r then corrected (entry m i j) (entry m j i) else entry m i j)"
proof -
  have e: "entry (set_entry c r x (set_entry r c x m)) i j =
      (if i = r \<and> j = c \<or> i = c \<and> j = r then x else entry m i j)" for x
    unfolding entry_set [OF dims_set [OF assms(1)] assms(2,3)] entry_set [OF assms] by presburger
  show ?thesis
  proof (cases "entry m c r = entry m r c")
    case True
    then have "correctLink r c m = m"
      by (simp add: correctLink_def)
    moreover have "corrected (entry m i j) (entry m j i) = entry m i j" if "i = r \<and> j = c \<or> i = c \<and> j = r"
      using that True by (elim disjE conjE) (simp_all add: corrected_def)
    ultimately show ?thesis by simp
  next
    case False
    define x where "x = corrected (entry m r c) (entry m c r)"
    have "correctLink r c m = set_entry c r x (set_entry r c x m)"
      using False unfolding correctLink_def Let_def x_def corrected_def by simp
    moreover have "corrected (entry m i j) (entry m j i) = x" if "i = r \<and> j = c \<or> i = c \<and> j = r"
      using that corrected_sym unfolding x_def by (elim disjE conjE) simp_all
    ultimately show ?thesis by (simp add: e)
  qed
qed

text \<open>The two loops as one loop over the pairs of indices.\<close>

lemma correctMatrix_pairs:
  "correctMatrix n m = fold (\<lambda>(r, c). correctLink r c) (List.product [0..<n] [0..<n]) m"
proof -
  have "fold (\<lambda>row. fold (correctLink row) cs) rs m =
      fold (\<lambda>(r, c). correctLink r c) (List.product rs cs) m" for rs cs
  proof (induction rs arbitrary: m)
    case (Cons r rs)
    have "fold (correctLink r) cs m = fold (\<lambda>(r, c). correctLink r c) (map (Pair r) cs) m" for m
      by (induction cs arbitrary: m) simp_all
    with Cons show ?case by simp
  qed simp
  then show ?thesis by (simp add: correctMatrix_def)
qed

lemma entry_correct_pairs:
  assumes "dims n m"
  shows "dims n (fold (\<lambda>(r, c). correctLink r c) ps m)"
    and "i < n \<Longrightarrow> j < n \<Longrightarrow> entry (fold (\<lambda>(r, c). correctLink r c) ps m) i j =
      (if (i, j) \<in> set ps \<or> (j, i) \<in> set ps then corrected (entry m i j) (entry m j i) else entry m i j)"
  using assms
proof (induction ps arbitrary: m)
  case (Cons p ps)
  obtain r c where p: "p = (r, c)" by fastforce
  { case 1
    then show ?case using Cons.IH(1) [of "correctLink r c m"] by (simp add: p) }
  { case 2
    have "entry (fold (\<lambda>(r, c). correctLink r c) ps (correctLink r c m)) i j =
      (if (i, j) \<in> set ps \<or> (j, i) \<in> set ps
       then corrected (entry (correctLink r c m) i j) (entry (correctLink r c m) j i)
       else entry (correctLink r c m) i j)"
      using Cons.IH(2) [of "correctLink r c m"] 2 by simp
    moreover have "entry (correctLink r c m) k l =
        (if (k = r \<and> l = c \<or> k = c \<and> l = r) then corrected (entry m k l) (entry m l k) else entry m k l)"
      if "k < n" "l < n" for k l
      using entry_correctLink [OF 2(3) that] by simp
    ultimately show ?case
      using 2 by (auto simp: p corrected_idem) }
qed simp_all

lemma dims_correct: "dims n m \<Longrightarrow> dims n (correctMatrix n m)"
  by (simp add: correctMatrix_pairs entry_correct_pairs(1))

lemma entry_correct:
  "dims n m \<Longrightarrow> i < n \<Longrightarrow> j < n \<Longrightarrow>
   entry (correctMatrix n m) i j = corrected (entry m i j) (entry m j i)"
  by (simp add: correctMatrix_pairs entry_correct_pairs(2))

section \<open>Which links the LSAs give\<close>

text \<open>The last LSA with a link from \<open>i\<close> to \<open>j\<close> decides; keys are unique in the LSDB.\<close>

definition advertised :: "adj_lsa list \<Rightarrow> name \<Rightarrow> name \<Rightarrow> real" where
  "advertised lsdb a b = (case by_key ls_origRouter a lsdb of
       None \<Rightarrow> 0
     | Some l \<Rightarrow> (case by_key ad_name b (al_adl l) of
           None \<Rightarrow> 0
         | Some x \<Rightarrow> linkWeight x))"

definition lsdb_keys_ok :: "adj_lsa list \<Rightarrow> bool" where
  "lsdb_keys_ok lsdb \<longleftrightarrow> distinct (map ls_origRouter lsdb) \<and> list_all adj_lsa_wf lsdb"

lemma entry_setLink:
  assumes "dims n m" and "i < n" and "j < n"
  shows "entry (setLink n r c x m) i j = (if int i = r \<and> int j = c then x else entry m i j)"
  using assms by (auto simp: setLink_def entry_set)

lemma number_iff:
  assumes "rm_wf pm" and "j < getMapSize pm"
  shows "int j = getMappingNoByRouterName a pm \<longleftrightarrow> a = getRouterNameByMappingNo (int j) pm"
proof
  assume "int j = getMappingNoByRouterName a pm"
  then show "a = getRouterNameByMappingNo (int j) pm"
    using rm.name_number [OF assms(1), of a] by simp
next
  assume "a = getRouterNameByMappingNo (int j) pm"
  then show "int j = getMappingNoByRouterName a pm"
    using rm.number_name [OF assms(1), of "int j"] assms(2) by simp
qed

abbreviation fillRow :: "nat \<Rightarrow> router_map \<Rightarrow> int \<Rightarrow> adjacency_list \<Rightarrow> matrix \<Rightarrow> matrix" where
  "fillRow n pm row \<equiv> fold (\<lambda>a. setLink n row (getMappingNoByRouterName (ad_name a) pm)
     (linkWeight a))"

lemma dims_fillRow: "dims n m \<Longrightarrow> dims n (fillRow n pm row adl m)"
  by (induction adl arbitrary: m) simp_all

lemma entry_fillRow:
  assumes "rm_wf pm" and "n = getMapSize pm" and "i < n" and "j < n" and "dims n m"
    and "distinct (map ad_name adl)"
  shows "entry (fillRow n pm row adl m) i j =
    (if int i = row then (case by_key ad_name (getRouterNameByMappingNo (int j) pm) adl of
        None \<Rightarrow> entry m i j | Some x \<Rightarrow> linkWeight x) else entry m i j)"
  using assms(5,6)
proof (induction adl arbitrary: m)
  case (Cons a adl)
  let ?m = "setLink n row (getMappingNoByRouterName (ad_name a) pm) (linkWeight a) m"
  have iff: "int j = getMappingNoByRouterName (ad_name a) pm \<longleftrightarrow> ad_name a = getRouterNameByMappingNo (int j) pm"
    using number_iff assms by blast
  have m: "entry ?m i j = (if int i = row \<and> ad_name a = getRouterNameByMappingNo (int j) pm
      then linkWeight a else entry m i j)"
    by (simp add: entry_setLink [OF Cons.prems(1) assms(3,4)] iff)
  have IH: "entry (fillRow n pm row adl ?m) i j =
    (if int i = row then (case by_key ad_name (getRouterNameByMappingNo (int j) pm) adl of
        None \<Rightarrow> entry ?m i j | Some x \<Rightarrow> linkWeight x) else entry ?m i j)"
    using Cons by simp
  have "by_key ad_name (ad_name a) adl = None"
    using Cons.prems(2) by (simp add: by_key_None)
  with IH m show ?case
    by (auto split: option.split)
qed simp

lemma entry_fill:
  assumes "rm_wf pm" and "n = getMapSize pm" and "i < n" and "j < n" and "dims n m"
    and "lsdb_keys_ok lsdb"
  shows "entry (fillMatrix n pm lsdb m) i j =
    (case by_key ls_origRouter (getRouterNameByMappingNo (int i) pm) lsdb of
        None \<Rightarrow> entry m i j
      | Some l \<Rightarrow> (case by_key ad_name (getRouterNameByMappingNo (int j) pm) (al_adl l) of
          None \<Rightarrow> entry m i j
        | Some x \<Rightarrow> linkWeight x))"
  using assms(5,6)
proof (induction lsdb arbitrary: m)
  case (Cons l lsdb)
  let ?row = "getMappingNoByRouterName (ls_origRouter l) pm"
  let ?m = "fillRow n pm ?row (al_adl l) m"
  have iff: "int i = ?row \<longleftrightarrow> ls_origRouter l = getRouterNameByMappingNo (int i) pm"
    using number_iff assms by blast
  have m: "entry ?m i j = (if ls_origRouter l = getRouterNameByMappingNo (int i) pm
      then (case by_key ad_name (getRouterNameByMappingNo (int j) pm) (al_adl l) of
        None \<Rightarrow> entry m i j | Some x \<Rightarrow> linkWeight x) else entry m i j)"
    using entry_fillRow [OF assms(1-4) Cons.prems(1), of "al_adl l" ?row] Cons.prems(2) iff
    by (simp add: lsdb_keys_ok_def adj_lsa_wf_def adl_wf_def)
  have IH: "entry (fillMatrix n pm lsdb ?m) i j =
    (case by_key ls_origRouter (getRouterNameByMappingNo (int i) pm) lsdb of
        None \<Rightarrow> entry ?m i j
      | Some l \<Rightarrow> (case by_key ad_name (getRouterNameByMappingNo (int j) pm) (al_adl l) of
          None \<Rightarrow> entry ?m i j
        | Some x \<Rightarrow> linkWeight x))"
    using Cons.IH [of ?m] Cons.prems by (simp add: dims_fillRow lsdb_keys_ok_def)
  have "by_key ls_origRouter (ls_origRouter l) lsdb = None"
    using Cons.prems(2) by (simp add: by_key_None lsdb_keys_ok_def)
  moreover have "fillMatrix n pm (l # lsdb) m = fillMatrix n pm lsdb ?m"
    by (simp add: fillMatrix_def Let_def)
  ultimately show ?case
    using IH m by (cases "ls_origRouter l = getRouterNameByMappingNo (int i) pm")
      (simp_all split: option.split)
qed (simp add: fillMatrix_def)

text \<open>
  An entry of the matrix is the larger of the two advertised costs when both routers
  advertise the link, and 0 otherwise.
\<close>

lemma entry_makeAdjMatrix:
  assumes "rm_wf pm" and "n = getMapSize pm" and "i < n" and "j < n" and "lsdb_keys_ok lsdb"
  shows "entry (makeAdjMatrix n pm lsdb (initMatrix n)) i j =
    corrected (advertised lsdb (getRouterNameByMappingNo (int i) pm) (getRouterNameByMappingNo (int j) pm))
      (advertised lsdb (getRouterNameByMappingNo (int j) pm) (getRouterNameByMappingNo (int i) pm))"
proof -
  have "entry (fillMatrix n pm lsdb (initMatrix n)) k l =
      advertised lsdb (getRouterNameByMappingNo (int k) pm) (getRouterNameByMappingNo (int l) pm)"
    if "k < n" "l < n" for k l
    using entry_fill [OF assms(1,2) that dims_init assms(5)] that
    by (simp add: advertised_def entry_init split: option.split)
  then show ?thesis
    using assms(3,4) by (simp add: makeAdjMatrix_def entry_correct dims_fill)
qed

lemma dims_make [simp]: "dims n m \<Longrightarrow> dims n (makeAdjMatrix n pm lsdb m)"
  by (simp add: makeAdjMatrix_def dims_correct dims_fill)

section \<open>The links of one router\<close>

lemma getLinks_alt:
  "getLinksFromAdjMatrix n m s = map (\<lambda>i. (i, entry m s i)) (filter (\<lambda>i. entry m s i > 0) [0..<n])"
proof -
  have "fold (\<lambda>i ls. if entry m s i > 0 then ls @ [(i, entry m s i)] else ls) is acc =
      acc @ map (\<lambda>i. (i, entry m s i)) (filter (\<lambda>i. entry m s i > 0) is)" for "is" acc
    by (induction "is" arbitrary: acc) simp_all
  then show ?thesis by (simp add: getLinksFromAdjMatrix_def)
qed

lemma getNumOfLink_length: "getNumOfLinkfromAdjMatrix n m s = length (getLinksFromAdjMatrix n m s)"
proof -
  have "fold (\<lambda>i k. if entry m s i > 0 then Suc k else k) is k = k + length (filter (\<lambda>i. entry m s i > 0) is)"
    for "is" k
    by (induction "is" arbitrary: k) simp_all
  then show ?thesis by (simp add: getNumOfLinkfromAdjMatrix_def getLinks_alt)
qed

lemma entry_adjust:
  assumes "dims n m" and "i < n" and "j < n"
  shows "entry (adjustAdMatrix n s link c m) i j =
    (if i = s then (if j = link then c else 0) else entry m i j)"
    and "dims n (adjustAdMatrix n s link c m)"
proof -
  let ?f = "\<lambda>k. if k = link then set_entry s k c else set_entry s k 0"
  have "dims n (fold ?f ks m) \<and> entry (fold ?f ks m) i j =
      (if i = s \<and> j \<in> set ks then (if j = link then c else 0) else entry m i j)" for ks
    using assms(1)
  proof (induction ks arbitrary: m)
    case (Cons k ks)
    then have "dims n (?f k m)" by simp
    moreover have "entry (?f k m) i j = (if i = s \<and> j = k then (if j = link then c else 0) else entry m i j)"
      using entry_set [OF Cons.prems assms(2,3), of s k] by (cases "k = link") auto
    ultimately have "dims n (fold ?f ks (?f k m)) \<and> entry (fold ?f ks (?f k m)) i j =
        (if i = s \<and> (j = k \<or> j \<in> set ks) then (if j = link then c else 0) else entry m i j)"
      using Cons.IH [of "?f k m"] by (cases "i = s"; cases "j = k"; cases "j \<in> set ks") simp_all
    then show ?case by simp
  qed simp
  from this [of "[0..<n]"] assms(3) show "entry (adjustAdMatrix n s link c m) i j =
    (if i = s then (if j = link then c else 0) else entry m i j)"
    and "dims n (adjustAdMatrix n s link c m)"
    by (simp_all add: adjustAdMatrix_def)
qed

end
