(* ===== verification/Dijkstra.thy ===== *)
theory Dijkstra
  imports Adj_Matrix
begin

text \<open>
  The shortest-path search of \<open>LinkStateRoutingTableCalculator\<close>
  (src/src/route/routing-table-calculator.cpp): the queue is an array of router numbers
  whose part from \<open>head\<close> on is sorted again in every round. What it computes is stated
  with \<open>path_cost\<close>: the costs of the walks from the source.
\<close>

definition EMPTY_PARENT :: int where "EMPTY_PARENT = -12345"
definition NO_NEXT_HOP :: int where "NO_NEXT_HOP = -12345"
definition NO_MAPPING_NUM :: int where "NO_MAPPING_NUM = -1"
definition INF_DISTANCE :: real where "INF_DISTANCE = 2147483647"

definition sortStep :: "real list \<Rightarrow> nat \<Rightarrow> nat \<Rightarrow> nat list \<Rightarrow> nat list" where
  "sortStep distance i j Q =
     (if distance ! (Q ! j) < distance ! (Q ! i) then Q[j := Q ! i, i := Q ! j] else Q)"

definition sortQueueByDistance :: "nat list \<Rightarrow> real list \<Rightarrow> nat \<Rightarrow> nat \<Rightarrow> nat list" where
  "sortQueueByDistance Q distance start element =
     fold (\<lambda>i. fold (sortStep distance i) [Suc i..<element]) [start..<element] Q"

definition isNotExplored :: "nat list \<Rightarrow> nat \<Rightarrow> nat \<Rightarrow> nat \<Rightarrow> bool" where
  "isNotExplored Q u start element = list_ex (\<lambda>i. Q ! i = u) [start..<element]"

definition relax ::
  "nat \<Rightarrow> matrix \<Rightarrow> nat list \<Rightarrow> nat \<Rightarrow> nat \<Rightarrow> nat \<Rightarrow> real list \<times> int list \<Rightarrow> real list \<times> int list" where
  "relax n adj Q head u v = (\<lambda>(distance, parent).
     if entry adj u v > 0 \<and> isNotExplored Q v (Suc head) n \<and> distance ! u + entry adj u v < distance ! v
     then (distance[v := distance ! u + entry adj u v], parent[v := int u])
     else (distance, parent))"

function dijkstraLoop ::
  "nat \<Rightarrow> matrix \<Rightarrow> nat \<Rightarrow> nat list \<Rightarrow> real list \<Rightarrow> int list \<Rightarrow> real list \<times> int list" where
  "dijkstraLoop n adj head Q distance parent =
     (if head < n then
        let u = Q ! head in
        if distance ! u = INF_DISTANCE then (distance, parent)
        else let (distance', parent') = fold (relax n adj Q head u) [0..<n] (distance, parent)
             in dijkstraLoop n adj (Suc head) (sortQueueByDistance Q distance' (Suc head) n) distance' parent'
      else (distance, parent))"
  by pat_completeness auto
termination by (relation "measure (\<lambda>(n, _, head, _). n - head)") auto

declare dijkstraLoop.simps [simp del]

text \<open>The source is the mapping number, \<open>NO_MAPPING_NUM\<close> when the router is unknown.\<close>

definition doDijkstraPathCalculation :: "nat \<Rightarrow> matrix \<Rightarrow> int \<Rightarrow> real list \<times> int list" where
  "doDijkstraPathCalculation n adj sourceRouter =
     (let parent = replicate n EMPTY_PARENT; distance = replicate n INF_DISTANCE; Q = [0..<n]
      in if sourceRouter \<noteq> NO_MAPPING_NUM
         then let distance = distance[nat sourceRouter := 0]
              in dijkstraLoop n adj 0 (sortQueueByDistance Q distance 0 n) distance parent
         else (distance, parent))"

section \<open>The exchange sort\<close>

lemma sortStep_props:
  assumes "i < j" and "j < length Q"
  shows "mset (sortStep distance i j Q) = mset Q" and "length (sortStep distance i j Q) = length Q"
    and "k \<noteq> i \<Longrightarrow> k \<noteq> j \<Longrightarrow> sortStep distance i j Q ! k = Q ! k"
    and "distance ! (sortStep distance i j Q ! i) \<le> distance ! (Q ! i)"
    and "distance ! (sortStep distance i j Q ! i) \<le> distance ! (sortStep distance i j Q ! j)"
proof -
  have "mset (Q[j := Q ! i, i := Q ! j]) = mset Q"
    using assms mset_swap [of i Q j] by (simp add: list_update_swap)
  then show "mset (sortStep distance i j Q) = mset Q"
    by (simp add: sortStep_def)
qed (use assms in \<open>auto simp: sortStep_def nth_list_update\<close>)

text \<open>One pass of the inner loop moves a minimum of the rest to position \<open>i\<close>.\<close>

lemma sort_pass:
  fixes distance :: "real list" and Q :: "nat list" and i k :: nat
  assumes "i < k" and "k \<le> length Q"
  defines "R \<equiv> fold (sortStep distance i) [Suc i..<k] Q"
  shows "mset R = mset Q" and "length R = length Q"
    and "\<And>j. j < i \<or> k \<le> j \<Longrightarrow> R ! j = Q ! j"
    and "\<And>j. i \<le> j \<Longrightarrow> j < k \<Longrightarrow> distance ! (R ! i) \<le> distance ! (R ! j)"
proof -
  have "mset R = mset Q \<and> length R = length Q \<and> (\<forall>j. j < i \<or> k \<le> j \<longrightarrow> R ! j = Q ! j) \<and>
    (\<forall>j. i \<le> j \<longrightarrow> j < k \<longrightarrow> distance ! (R ! i) \<le> distance ! (R ! j))"
    using assms(1,2) unfolding R_def
  proof (induction k)
    case (Suc k)
    show ?case
    proof (cases "k = i")
      case True
      then show ?thesis by (auto simp: le_less_Suc_eq)
    next
      case False
      with Suc.prems have k: "i < k" "k < length Q"
        by simp_all
      let ?R = "fold (sortStep distance i) [Suc i..<k] Q"
      note IH = Suc.IH [OF k(1) less_imp_le [OF k(2)]]
      have len: "k < length ?R"
        using IH k by simp
      have eq: "fold (sortStep distance i) [Suc i..<Suc k] Q = sortStep distance i k ?R"
        using k by simp
      note st = sortStep_props [OF k(1) len, where distance = distance]
      have "distance ! (sortStep distance i k ?R ! i) \<le> distance ! (sortStep distance i k ?R ! j)"
        if "i \<le> j" "j < Suc k" for j
      proof (cases "j = i \<or> j = k")
        case True
        with st(5) show ?thesis by auto
      next
        case False
        then have "j < k" and "sortStep distance i k ?R ! j = ?R ! j"
          using that st(3) [of j] by auto
        moreover have "distance ! (?R ! i) \<le> distance ! (?R ! j)"
          using IH that \<open>j < k\<close> by blast
        ultimately show ?thesis
          using st(4) by simp
      qed
      moreover have "sortStep distance i k ?R ! j = Q ! j" if "j < i \<or> Suc k \<le> j" for j
      proof -
        from that k have "j \<noteq> i" "j \<noteq> k" "j < i \<or> k \<le> j"
          by auto
        with st(3) [of j] IH show ?thesis by simp
      qed
      ultimately show ?thesis
        unfolding eq using IH st(1,2) by simp
    qed
  qed simp
  then show "mset R = mset Q" and "length R = length Q"
    and "\<And>j. j < i \<or> k \<le> j \<Longrightarrow> R ! j = Q ! j"
    and "\<And>j. i \<le> j \<Longrightarrow> j < k \<Longrightarrow> distance ! (R ! i) \<le> distance ! (R ! j)"
    by blast+
qed

lemma set_drop_nth: "x \<in> set (drop k xs) \<longleftrightarrow> (\<exists>l. k \<le> l \<and> l < length xs \<and> xs ! l = x)"
proof
  assume "x \<in> set (drop k xs)"
  then obtain i where "i < length xs - k" "xs ! (k + i) = x"
    by (auto simp: in_set_conv_nth)
  then show "\<exists>l. k \<le> l \<and> l < length xs \<and> xs ! l = x"
    by (intro exI [of _ "k + i"]) auto
next
  assume "\<exists>l. k \<le> l \<and> l < length xs \<and> xs ! l = x"
  then obtain l where "k \<le> l" "l < length xs" "xs ! l = x" by blast
  then show "x \<in> set (drop k xs)"
    by (auto simp: in_set_conv_nth intro!: exI [of _ "l - k"])
qed

lemma same_prefix_drop:
  assumes "mset R = mset Q" and "\<And>j. j < i \<Longrightarrow> R ! j = Q ! j" and "i \<le> length Q"
  shows "mset (drop i R) = mset (drop i Q)"
proof -
  have len: "length R = length Q"
    using assms(1) by (metis size_mset)
  have "take i R = take i Q"
    using assms(2,3) len by (intro nth_equalityI) simp_all
  moreover have "mset (take i R) + mset (drop i R) = mset (take i Q) + mset (drop i Q)"
    using assms(1) by (metis append_take_drop_id mset_append)
  ultimately show ?thesis by simp
qed

text \<open>The outer loop: up to the current position the rest is sorted and below what follows.\<close>

lemma sortQueue_props:
  fixes distance :: "real list" and Q :: "nat list" and start n :: nat
  assumes "start \<le> length Q" and "n = length Q"
  defines "R \<equiv> sortQueueByDistance Q distance start n"
  shows "mset R = mset Q" and "\<And>j. j < start \<Longrightarrow> R ! j = Q ! j"
    and "\<And>i j. start \<le> i \<Longrightarrow> i \<le> j \<Longrightarrow> j < n \<Longrightarrow> distance ! (R ! i) \<le> distance ! (R ! j)"
proof -
  let ?P = "\<lambda>k R. mset R = mset Q \<and> (\<forall>j < start. R ! j = Q ! j) \<and>
    (\<forall>i j. start \<le> i \<longrightarrow> i < k \<longrightarrow> i \<le> j \<longrightarrow> j < n \<longrightarrow> distance ! (R ! i) \<le> distance ! (R ! j))"
  have "?P k (fold (\<lambda>i. fold (sortStep distance i) [Suc i..<n]) [start..<k] Q)"
    if "start \<le> k" "k \<le> n" for k
    using that
  proof (induction k)
    case (Suc k)
    show ?case
    proof (cases "start = Suc k")
      case False
      with Suc.prems have k: "start \<le> k" "k < n"
        by simp_all
      let ?S = "fold (\<lambda>i. fold (sortStep distance i) [Suc i..<n]) [start..<k] Q"
      let ?T = "fold (sortStep distance k) [Suc k..<n] ?S"
      have IH: "?P k ?S"
        using Suc.IH k by simp
      then have len: "length ?S = n"
        using assms(2) by (metis size_mset)
      have srt: "\<And>i j. start \<le> i \<Longrightarrow> i < k \<Longrightarrow> i \<le> j \<Longrightarrow> j < n \<Longrightarrow>
          distance ! (?S ! i) \<le> distance ! (?S ! j)"
        using IH by blast
      have pass: "mset ?T = mset ?S" "\<And>j. j < k \<or> n \<le> j \<Longrightarrow> ?T ! j = ?S ! j"
        "\<And>j. k \<le> j \<Longrightarrow> j < n \<Longrightarrow> distance ! (?T ! k) \<le> distance ! (?T ! j)"
        using sort_pass [where i = k and k = n and Q = ?S and distance = distance] k len by auto
      have "mset (drop k ?T) = mset (drop k ?S)"
        by (rule same_prefix_drop) (use pass(1,2) len k in simp_all)
      then have tail: "set (drop k ?T) = set (drop k ?S)"
        by (rule mset_eq_setD)
      have "distance ! (?T ! i) \<le> distance ! (?T ! j)" if "start \<le> i" "i < Suc k" "i \<le> j" "j < n" for i j
      proof (cases "i = k")
        case True
        with pass(3) that show ?thesis by simp
      next
        case False
        then have i: "i < k" "?T ! i = ?S ! i"
          using that pass(2) [of i] by simp_all
        show ?thesis
        proof (cases "j < k")
          case True
          with i IH that pass(2) [of j] show ?thesis by simp
        next
          case False
          have "length ?T = n"
            using mset_eq_length [OF pass(1)] len by simp
          then have "?T ! j \<in> set (drop k ?T)"
            using False that unfolding set_drop_nth by (intro exI [of _ j]) simp
          then obtain l where "k \<le> l" "l < n" "?T ! j = ?S ! l"
            unfolding tail set_drop_nth using len by auto
          moreover have "distance ! (?S ! i) \<le> distance ! (?S ! l)"
            by (rule srt) (use that(1) i(1) \<open>k \<le> l\<close> \<open>l < n\<close> in simp_all)
          ultimately show ?thesis
            using i(2) by simp
        qed
      qed
      moreover have "?T ! j = Q ! j" if "j < start" for j
        using pass(2) [of j] IH that k by simp
      ultimately show ?thesis
        using k IH pass(1) by simp
    qed simp
  qed simp
  from this [of n] assms show "mset R = mset Q" and "\<And>j. j < start \<Longrightarrow> R ! j = Q ! j"
    and "\<And>i j. start \<le> i \<Longrightarrow> i \<le> j \<Longrightarrow> j < n \<Longrightarrow> distance ! (R ! i) \<le> distance ! (R ! j)"
    by (auto simp: sortQueueByDistance_def)
qed

section \<open>What a search round keeps\<close>

text \<open>\<open>path_cost n adj s v c\<close>: there is a walk over links from \<open>s\<close> to \<open>v\<close> of cost \<open>c\<close>.\<close>

inductive path_cost :: "nat \<Rightarrow> matrix \<Rightarrow> nat \<Rightarrow> nat \<Rightarrow> real \<Rightarrow> bool" for n adj s where
  here: "s < n \<Longrightarrow> path_cost n adj s s 0"
| link: "path_cost n adj s u c \<Longrightarrow> v < n \<Longrightarrow> entry adj u v > 0 \<Longrightarrow> path_cost n adj s v (c + entry adj u v)"

lemma path_cost_nonneg: "path_cost n adj s v c \<Longrightarrow> 0 \<le> c"
  by (induction rule: path_cost.induct) auto

lemma path_cost_bound: "path_cost n adj s v c \<Longrightarrow> v < n"
  by (induction rule: path_cost.induct) auto

text \<open>The part of the queue before \<open>head\<close> is explored.\<close>

definition search_inv ::
  "nat \<Rightarrow> matrix \<Rightarrow> nat \<Rightarrow> nat \<Rightarrow> nat list \<Rightarrow> real list \<Rightarrow> int list \<Rightarrow> bool" where
  "search_inv n adj s head Q ds ps \<longleftrightarrow>
     head \<le> n \<and> mset Q = mset [0..<n] \<and> length ds = n \<and> length ps = n \<and> s < n \<and>
     (\<forall>i j. i \<le> j \<longrightarrow> j < n \<longrightarrow> i < head \<longrightarrow> ds ! (Q ! i) \<le> ds ! (Q ! j)) \<and>
     (\<forall>i j. head \<le> i \<longrightarrow> i \<le> j \<longrightarrow> j < n \<longrightarrow> ds ! (Q ! i) \<le> ds ! (Q ! j)) \<and>
     (\<forall>i<head. ds ! (Q ! i) < INF_DISTANCE) \<and>
     ds ! s = 0 \<and> ps ! s = EMPTY_PARENT \<and>
     (\<forall>v<n. ds ! v \<le> INF_DISTANCE) \<and>
     (\<forall>v<n. ds ! v < INF_DISTANCE \<longrightarrow> path_cost n adj s v (ds ! v)) \<and>
     (\<forall>v<n. ds ! v = INF_DISTANCE \<longrightarrow> ps ! v = EMPTY_PARENT) \<and>
     (\<forall>v<n. v \<noteq> s \<longrightarrow> ds ! v < INF_DISTANCE \<longrightarrow>
        (\<exists>i<head. ps ! v = int (Q ! i) \<and> entry adj (Q ! i) v > 0 \<and>
           ds ! v = ds ! (Q ! i) + entry adj (Q ! i) v)) \<and>
     (\<forall>i<head. \<forall>v<n. entry adj (Q ! i) v > 0 \<longrightarrow> ds ! v \<le> ds ! (Q ! i) + entry adj (Q ! i) v)"

text \<open>What the search promises.\<close>

definition search_result ::
  "nat \<Rightarrow> matrix \<Rightarrow> nat \<Rightarrow> real list \<Rightarrow> int list \<Rightarrow> bool" where
  "search_result n adj s ds ps \<longleftrightarrow>
     length ds = n \<and> length ps = n \<and> ds ! s = 0 \<and> ps ! s = EMPTY_PARENT \<and>
     (\<forall>v<n. ds ! v \<le> INF_DISTANCE) \<and>
     (\<forall>v<n. ds ! v < INF_DISTANCE \<longrightarrow> path_cost n adj s v (ds ! v)) \<and>
     (\<forall>v c. path_cost n adj s v c \<longrightarrow> ds ! v \<le> c) \<and>
     (\<forall>v<n. ds ! v = INF_DISTANCE \<longrightarrow> ps ! v = EMPTY_PARENT) \<and>
     (\<forall>v<n. v \<noteq> s \<longrightarrow> ds ! v < INF_DISTANCE \<longrightarrow>
        (\<exists>u<n. ps ! v = int u \<and> entry adj u v > 0 \<and> ds ! v = ds ! u + entry adj u v))"

lemma queue_nth:
  assumes "mset Q = mset [0..<n]"
  shows "length Q = n" and "i < n \<Longrightarrow> Q ! i < n" and "v < n \<Longrightarrow> \<exists>i<n. Q ! i = v"
    and "i < n \<Longrightarrow> j < n \<Longrightarrow> Q ! i = Q ! j \<Longrightarrow> i = j"
proof -
  show len: "length Q = n"
    using assms by (metis diff_zero length_upt size_mset)
  have set: "set Q = {0..<n}"
    using mset_eq_setD [OF assms] by simp
  have dist: "distinct Q"
    using mset_eq_imp_distinct_iff [OF assms] by simp
  show "i < n \<Longrightarrow> Q ! i < n"
    using set len nth_mem [of i Q] by auto
  show "v < n \<Longrightarrow> \<exists>i<n. Q ! i = v"
    using set len by (metis atLeastLessThan_iff in_set_conv_nth zero_le)
  show "i < n \<Longrightarrow> j < n \<Longrightarrow> Q ! i = Q ! j \<Longrightarrow> i = j"
    using dist len by (metis nth_eq_iff_index_eq)
qed

lemma isNotExplored_iff:
  assumes "mset Q = mset [0..<n]" and "v < n"
  shows "isNotExplored Q v (Suc head) n \<longleftrightarrow> (\<forall>i\<le>head. i < n \<longrightarrow> Q ! i \<noteq> v)"
proof -
  obtain k where k: "k < n" "Q ! k = v"
    using queue_nth(3) [OF assms] by blast
  have inj: "i = k" if "i < n" "Q ! i = v" for i
    using queue_nth(4) [OF assms(1) that(1) k(1)] that(2) k(2) by simp
  show ?thesis
  proof
    assume "isNotExplored Q v (Suc head) n"
    then obtain i where "Suc head \<le> i" "i < n" "Q ! i = v"
      by (auto simp: isNotExplored_def list_ex_iff)
    with inj [of i] have "head < k"
      by simp
    with inj show "\<forall>i\<le>head. i < n \<longrightarrow> Q ! i \<noteq> v"
      by (metis leD)
  next
    assume "\<forall>i\<le>head. i < n \<longrightarrow> Q ! i \<noteq> v"
    with k have "\<not> k \<le> head"
      by blast
    then have "Suc head \<le> k"
      by simp
    with k show "isNotExplored Q v (Suc head) n"
      unfolding isNotExplored_def list_ex_iff by (intro bexI [of _ k]) simp_all
  qed
qed

text \<open>The effect of one round of relaxations on each router.\<close>

definition improves :: "nat \<Rightarrow> matrix \<Rightarrow> nat list \<Rightarrow> nat \<Rightarrow> nat \<Rightarrow> real list \<Rightarrow> nat \<Rightarrow> bool" where
  "improves n adj Q head u ds v \<longleftrightarrow> entry adj u v > 0 \<and> isNotExplored Q v (Suc head) n \<and>
     ds ! u + entry adj u v < ds ! v"

lemma relax_round:
  assumes "\<not> isNotExplored Q u (Suc head) n" and "length ds = n" and "length ps = n" and "u < n" and "k \<le> n"
  shows "\<exists>ds' ps'. fold (relax n adj Q head u) [0..<k] (ds, ps) = (ds', ps') \<and>
    length ds' = n \<and> length ps' = n \<and>
    (\<forall>v<n. ds' ! v = (if v < k \<and> improves n adj Q head u ds v then ds ! u + entry adj u v else ds ! v)) \<and>
    (\<forall>v<n. ps' ! v = (if v < k \<and> improves n adj Q head u ds v then int u else ps ! v))"
  using assms(5)
proof (induction k)
  case (Suc k)
  then obtain ds1 ps1 where IH: "fold (relax n adj Q head u) [0..<k] (ds, ps) = (ds1, ps1)"
    "length ds1 = n" "length ps1 = n"
    "\<forall>v<n. ds1 ! v = (if v < k \<and> improves n adj Q head u ds v then ds ! u + entry adj u v else ds ! v)"
    "\<forall>v<n. ps1 ! v = (if v < k \<and> improves n adj Q head u ds v then int u else ps ! v)"
    by auto
  have u: "ds1 ! u = ds ! u"
    using IH(4) assms(1,4) by (simp add: improves_def)
  have k: "k < n" "ds1 ! k = ds ! k"
    using Suc.prems IH(4) by simp_all
  have "relax n adj Q head u k (ds1, ps1) = (if improves n adj Q head u ds k
      then (ds1[k := ds ! u + entry adj u k], ps1[k := int u]) else (ds1, ps1))"
    using u k by (simp add: relax_def improves_def)
  then have "fold (relax n adj Q head u) [0..<Suc k] (ds, ps) = (if improves n adj Q head u ds k
      then (ds1[k := ds ! u + entry adj u k], ps1[k := int u]) else (ds1, ps1))"
    using IH(1) by simp
  with IH k show ?case
    by (cases "improves n adj Q head u ds k") (auto simp: nth_list_update less_Suc_eq)
qed (simp add: assms)

lemma search_step:
  assumes inv: "search_inv n adj s head Q ds ps" and head: "head < n"
    and fin: "ds ! (Q ! head) \<noteq> INF_DISTANCE"
    and round: "fold (relax n adj Q head (Q ! head)) [0..<n] (ds, ps) = (ds', ps')"
  shows "search_inv n adj s (Suc head) (sortQueueByDistance Q ds' (Suc head) n) ds' ps'"
proof -
  let ?u = "Q ! head" and ?Q = "sortQueueByDistance Q ds' (Suc head) n"
  let ?imp = "improves n adj Q head (Q ! head) ds"
  from inv have mQ: "mset Q = mset [0..<n]" and len: "length ds = n" "length ps = n" and s: "s < n"
    and ord1: "\<And>i j. i \<le> j \<Longrightarrow> j < n \<Longrightarrow> i < head \<Longrightarrow> ds ! (Q ! i) \<le> ds ! (Q ! j)"
    and ord2: "\<And>i j. head \<le> i \<Longrightarrow> i \<le> j \<Longrightarrow> j < n \<Longrightarrow> ds ! (Q ! i) \<le> ds ! (Q ! j)"
    and expl: "\<And>i. i < head \<Longrightarrow> ds ! (Q ! i) < INF_DISTANCE"
    and src: "ds ! s = 0" "ps ! s = EMPTY_PARENT"
    and le: "\<And>v. v < n \<Longrightarrow> ds ! v \<le> INF_DISTANCE"
    and path: "\<And>v. v < n \<Longrightarrow> ds ! v < INF_DISTANCE \<Longrightarrow> path_cost n adj s v (ds ! v)"
    and none: "\<And>v. v < n \<Longrightarrow> ds ! v = INF_DISTANCE \<Longrightarrow> ps ! v = EMPTY_PARENT"
    and par: "\<And>v. v < n \<Longrightarrow> v \<noteq> s \<Longrightarrow> ds ! v < INF_DISTANCE \<Longrightarrow> \<exists>i<head. ps ! v = int (Q ! i) \<and>
        entry adj (Q ! i) v > 0 \<and> ds ! v = ds ! (Q ! i) + entry adj (Q ! i) v"
    and rel: "\<And>i v. i < head \<Longrightarrow> v < n \<Longrightarrow> entry adj (Q ! i) v > 0 \<Longrightarrow>
        ds ! v \<le> ds ! (Q ! i) + entry adj (Q ! i) v"
    unfolding search_inv_def by blast+
  note q = queue_nth [OF mQ]
  have u: "?u < n" using q(2) head by simp
  have uINF: "ds ! ?u < INF_DISTANCE" using le [OF u] fin by simp
  have u0: "0 \<le> ds ! ?u" using path [OF u uINF] by (rule path_cost_nonneg)
  have expld: "\<not> isNotExplored Q (Q ! i) (Suc head) n" if "i \<le> head" for i
    using isNotExplored_iff [OF mQ, of "Q ! i" head] that head q(2) [of i] by auto
  from relax_round [OF expld [OF le_refl] len u le_refl, of adj] round
  have len': "length ds' = n" "length ps' = n"
    and ds': "\<And>v. v < n \<Longrightarrow> ds' ! v = (if ?imp v then ds ! ?u + entry adj ?u v else ds ! v)"
    and ps': "\<And>v. v < n \<Longrightarrow> ps' ! v = (if ?imp v then int ?u else ps ! v)"
    by auto
  have le': "ds' ! v \<le> ds ! v" if "v < n" for v
    using ds' [OF that] by (simp add: improves_def)
  have keep: "ds' ! (Q ! i) = ds ! (Q ! i)" if "i \<le> head" for i
    using ds' [of "Q ! i"] q(2) [of i] that head expld [OF that] by (simp add: improves_def)
  have lb: "min (ds ! v) (ds ! ?u) \<le> ds' ! v" if "v < n" for v
    using ds' [OF that] by (simp add: improves_def)
  have "Suc head \<le> length Q" "n = length Q" using q(1) head by simp_all
  note sorted = sortQueue_props [OF this, where distance = ds']
  have mQ': "mset ?Q = mset [0..<n]" using sorted(1) mQ by simp
  note q' = queue_nth [OF mQ']
  have pre: "?Q ! i = Q ! i" if "i \<le> head" for i
    using sorted(2) that by simp
  have s': "\<not> ?imp s" using src u0 by (simp add: improves_def)
  have ord1': "ds' ! (?Q ! i) \<le> ds' ! (?Q ! j)" if ij: "i \<le> j" "j < n" "i \<le> head" for i j
  proof -
    obtain l where l: "l < n" "Q ! l = ?Q ! j"
      using q(3) [OF q'(2) [OF ij(2)]] by blast
    have "i \<le> l"
    proof (cases "l \<le> head")
      case True
      with pre l ij(2) q'(4) [of l j] have "l = j" by simp
      with ij show ?thesis by simp
    qed (use ij in simp)
    then have "ds ! (Q ! i) \<le> ds ! (Q ! l)" and "ds ! (Q ! i) \<le> ds ! ?u"
      using ord1 [of i l] ord2 [of i l] ord1 [of i head] ij l head by (cases "i < head"; simp)+
    with lb [of "?Q ! j"] l q'(2) [OF ij(2)] show ?thesis
      by (simp add: pre [OF ij(3)] keep [OF ij(3)])
  qed
  have path': "path_cost n adj s v (ds' ! v)" if "v < n" "ds' ! v < INF_DISTANCE" for v
    using ds' [OF that(1)] path [OF that(1)] that path_cost.link [OF path [OF u uINF] that(1)]
    by (auto simp: improves_def split: if_splits)
  have none': "ps' ! v = EMPTY_PARENT" if "v < n" "ds' ! v = INF_DISTANCE" for v
    using ds' [OF that(1)] ps' [OF that(1)] le [OF that(1)] none [OF that(1)] that(2)
    by (auto simp: improves_def split: if_splits)
  have par': "\<exists>i<Suc head. ps' ! v = int (?Q ! i) \<and> entry adj (?Q ! i) v > 0 \<and>
      ds' ! v = ds' ! (?Q ! i) + entry adj (?Q ! i) v"
    if v: "v < n" "v \<noteq> s" "ds' ! v < INF_DISTANCE" for v
  proof (cases "?imp v")
    case True
    then show ?thesis
      using ds' [OF v(1)] ps' [OF v(1)] pre [OF le_refl] keep [OF le_refl]
      by (intro exI [of _ head]) (simp add: improves_def)
  next
    case False
    then obtain i where "i < head" "ps ! v = int (Q ! i)" "entry adj (Q ! i) v > 0"
      "ds ! v = ds ! (Q ! i) + entry adj (Q ! i) v"
      using par [OF v(1,2)] v(3) ds' [OF v(1)] by auto
    with False show ?thesis
      using ds' [OF v(1)] ps' [OF v(1)] pre [of i] keep [of i] by (intro exI [of _ i]) simp
  qed
  have rel': "ds' ! v \<le> ds' ! (?Q ! i) + entry adj (?Q ! i) v"
    if v: "i < Suc head" "v < n" "entry adj (?Q ! i) v > 0" for i v
  proof -
    have i: "?Q ! i = Q ! i" "ds' ! (Q ! i) = ds ! (Q ! i)"
      using pre keep v(1) by simp_all
    show ?thesis
    proof (cases "i < head")
      case True
      with rel [of i v] v i le' [OF v(2)] show ?thesis by simp
    next
      case False
      with v(1) have ih: "i = head" by simp
      show ?thesis
      proof (cases "isNotExplored Q v (Suc head) n")
        case True
        with v i ih ds' [OF v(2)] show ?thesis by (simp add: improves_def)
      next
        case False
        then obtain k where k: "k \<le> head" "Q ! k = v"
          using isNotExplored_iff [OF mQ v(2)] by blast
        have "ds ! (Q ! k) \<le> ds ! ?u"
          using ord1 [of k head] k(1) head by (cases "k < head") simp_all
        with k v i ih le' [OF v(2)] show ?thesis by simp
      qed
    qed
  qed
  have expl': "ds' ! (?Q ! i) < INF_DISTANCE" if "i < Suc head" for i
    using that expl [of i] uINF pre [of i] keep [of i] by (cases "i < head") (simp_all add: less_Suc_eq)
  have src': "ds' ! s = 0" "ps' ! s = EMPTY_PARENT"
    using ds' [OF s] ps' [OF s] s' src by simp_all
  have leINF': "ds' ! v \<le> INF_DISTANCE" if "v < n" for v
    using le' [OF that] le [OF that] by simp
  show ?thesis
    unfolding search_inv_def
    using head mQ' len' s ord1' sorted(3) expl' src' leINF' path' none' par' rel'
    by (intro conjI allI impI) (simp_all add: less_Suc_eq_le)
qed

section \<open>What the search finds\<close>

lemma search_init:
  assumes "s < n"
  defines "ds \<equiv> (replicate n INF_DISTANCE)[s := 0]"
  shows "search_inv n adj s 0 (sortQueueByDistance [0..<n] ds 0 n) ds (replicate n EMPTY_PARENT)"
proof -
  have sorted: "0 \<le> length [0..<n]" "n = length [0..<n]"
    by simp_all
  have "ds ! v = (if v = s then 0 else INF_DISTANCE)" if "v < n" for v
    using that assms by (simp add: nth_list_update)
  then show ?thesis
    using sortQueue_props [OF sorted, where distance = ds] assms(1) path_cost.here [OF assms(1), of adj]
    by (auto simp: search_inv_def ds_def INF_DISTANCE_def)
qed

lemma search_done:
  assumes inv: "search_inv n adj s head Q ds ps"
    and stop: "head = n \<or> head < n \<and> ds ! (Q ! head) = INF_DISTANCE"
  shows "search_result n adj s ds ps"
proof -
  from inv have mQ: "mset Q = mset [0..<n]" and s: "s < n"
    and ord2: "\<And>i j. head \<le> i \<Longrightarrow> i \<le> j \<Longrightarrow> j < n \<Longrightarrow> ds ! (Q ! i) \<le> ds ! (Q ! j)"
    and le: "\<And>v. v < n \<Longrightarrow> ds ! v \<le> INF_DISTANCE" and hd: "head \<le> n"
    and src: "ds ! s = 0"
    and par: "\<And>v. v < n \<Longrightarrow> v \<noteq> s \<Longrightarrow> ds ! v < INF_DISTANCE \<Longrightarrow> \<exists>i<head. ps ! v = int (Q ! i) \<and>
        entry adj (Q ! i) v > 0 \<and> ds ! v = ds ! (Q ! i) + entry adj (Q ! i) v"
    and rel: "\<And>i v. i < head \<Longrightarrow> v < n \<Longrightarrow> entry adj (Q ! i) v > 0 \<Longrightarrow>
        ds ! v \<le> ds ! (Q ! i) + entry adj (Q ! i) v"
    unfolding search_inv_def by blast+
  note q = queue_nth [OF mQ]
  have rest: "ds ! (Q ! j) = INF_DISTANCE" if "head \<le> j" "j < n" for j
    using ord2 [of head j] le [OF q(2)] stop that by (metis antisym le_neq_implies_less leD le_refl)
  have edge: "ds ! v \<le> ds ! u + entry adj u v" if "u < n" "v < n" "entry adj u v > 0" for u v
  proof -
    obtain i where i: "i < n" "Q ! i = u" using q(3) [OF \<open>u < n\<close>] by blast
    show ?thesis
    proof (cases "i < head")
      case True
      with rel [of i v] that i show ?thesis by simp
    next
      case False
      with rest [of i] i le [OF \<open>v < n\<close>] that show ?thesis by simp
    qed
  qed
  have "ds ! v \<le> c" if "path_cost n adj s v c" for v c
    using that
  proof (induction rule: path_cost.induct)
    case (link u c v)
    with edge [of u v] path_cost_bound [OF link.hyps(1)] show ?case by simp
  qed (simp add: src)
  moreover have "\<exists>u<n. ps ! v = int u \<and> entry adj u v > 0 \<and> ds ! v = ds ! u + entry adj u v"
    if v: "v < n" "v \<noteq> s" "ds ! v < INF_DISTANCE" for v
  proof -
    obtain i where i: "i < head" "ps ! v = int (Q ! i)" "entry adj (Q ! i) v > 0"
        "ds ! v = ds ! (Q ! i) + entry adj (Q ! i) v"
      using par [OF v] by blast
    moreover from i(1) hd have "Q ! i < n" using q(2) by simp
    ultimately show ?thesis by blast
  qed
  ultimately show ?thesis
    using inv unfolding search_inv_def search_result_def by blast
qed

lemma dijkstraLoop_result:
  "search_inv n adj s head Q ds ps \<Longrightarrow>
   search_result n adj s (fst (dijkstraLoop n adj head Q ds ps)) (snd (dijkstraLoop n adj head Q ds ps))"
proof (induction n adj head Q ds ps rule: dijkstraLoop.induct)
  case (1 n adj head Q ds ps)
  show ?case
  proof (cases "head < n \<and> ds ! (Q ! head) \<noteq> INF_DISTANCE")
    case False
    have "head \<le> n"
      using "1.prems" by (simp add: search_inv_def)
    with False have "head = n \<or> head < n \<and> ds ! (Q ! head) = INF_DISTANCE"
      by auto
    moreover from this have "dijkstraLoop n adj head Q ds ps = (ds, ps)"
      by (auto simp: dijkstraLoop.simps [of n adj head Q ds ps] Let_def)
    ultimately show ?thesis
      using search_done [OF "1.prems"] by simp
  next
    case True
    obtain ds' ps' where round: "fold (relax n adj Q head (Q ! head)) [0..<n] (ds, ps) = (ds', ps')"
      by (cases "fold (relax n adj Q head (Q ! head)) [0..<n] (ds, ps)")
    have "dijkstraLoop n adj head Q ds ps =
        dijkstraLoop n adj (Suc head) (sortQueueByDistance Q ds' (Suc head) n) ds' ps'"
      using True round by (simp add: dijkstraLoop.simps [of n adj head Q ds ps] Let_def)
    with "1.IH" [OF _ refl _ round [symmetric] refl] True search_step [OF "1.prems" _ _ round]
    show ?thesis by simp
  qed
qed

lemma doDijkstra_result:
  assumes "s < n"
  shows "case doDijkstraPathCalculation n adj (int s) of (ds, ps) \<Rightarrow> search_result n adj s ds ps"
  using dijkstraLoop_result [OF search_init [OF assms, of adj]]
  by (simp add: doDijkstraPathCalculation_def NO_MAPPING_NUM_def split_beta Let_def)

lemma doDijkstra_unknown:
  "doDijkstraPathCalculation n adj NO_MAPPING_NUM = (replicate n INF_DISTANCE, replicate n EMPTY_PARENT)"
  by (simp add: doDijkstraPathCalculation_def)

end
