(* ===== verification/Calculator.thy ===== *)
theory Calculator
  imports Dijkstra Routing_Table
begin

text \<open>
  The link-state calculation (src/src/route/routing-table-calculator.cpp): the next hop is
  read off the parents the search leaves, for one search (a single path per prefix) or for
  one search per link of this router (multipath).
\<close>

partial_function (option) followParents :: "int list \<Rightarrow> int \<Rightarrow> int \<Rightarrow> (int \<times> int) option" where
  "followParents parent d nextHop =
     (if parent ! nat d \<noteq> EMPTY_PARENT then followParents parent (parent ! nat d) d
      else Some (d, nextHop))"

text \<open>\<open>None\<close> stands for a loop that does not end.\<close>

definition getLsNextHop :: "int list \<Rightarrow> int \<Rightarrow> int \<Rightarrow> int option" where
  "getLsNextHop parent d source = (case followParents parent d NO_NEXT_HOP of
       None \<Rightarrow> None
     | Some (d, nextHop) \<Rightarrow> Some (if d \<noteq> source then NO_NEXT_HOP else nextHop))"

fun addAllLsNextHops ::
  "adjacency_list \<Rightarrow> router_map \<Rightarrow> int \<Rightarrow> real list \<Rightarrow> int list \<Rightarrow> nat list \<Rightarrow> routing_table \<Rightarrow> routing_table option" where
  "addAllLsNextHops adl pMap source distance parent [] rt = Some rt"
| "addAllLsNextHops adl pMap source distance parent (i # is) rt =
     (if int i \<noteq> source then
        (case getLsNextHop parent (int i) source of
           None \<Rightarrow> None
         | Some nextHopRouter \<Rightarrow>
             if nextHopRouter \<noteq> NO_NEXT_HOP then
               let routeCost = distance ! i;
                   nextHopRouterName = getRouterNameByMappingNo nextHopRouter pMap;
                   nextHopFace = ad_faceUri (getAdjacent nextHopRouterName adl);
                   nh = \<lparr>nh_faceUri = nextHopFace, nh_cost = routeCost, nh_hyperbolic = False\<rparr>
               in addAllLsNextHops adl pMap source distance parent is
                    (rt_addNextHop (getRouterNameByMappingNo (int i) pMap) nh rt)
             else addAllLsNextHops adl pMap source distance parent is rt)
      else addAllLsNextHops adl pMap source distance parent is rt)"

definition addAllLsNextHopsToRoutingTable ::
  "nat \<Rightarrow> adjacency_list \<Rightarrow> router_map \<Rightarrow> int \<Rightarrow> real list \<times> int list \<Rightarrow> routing_table \<Rightarrow> routing_table option" where
  "addAllLsNextHopsToRoutingTable n adl pMap source = (\<lambda>(distance, parent).
     addAllLsNextHops adl pMap source distance parent [0..<n])"

text \<open>The multipath loop: the source's row of the matrix is overwritten for every link.\<close>

fun multiPath ::
  "nat \<Rightarrow> adjacency_list \<Rightarrow> router_map \<Rightarrow> nat \<Rightarrow> (nat \<times> real) list \<Rightarrow> matrix \<Rightarrow> routing_table \<Rightarrow> routing_table option" where
  "multiPath n adl pMap s [] adj rt = Some rt"
| "multiPath n adl pMap s ((link, linkCost) # links) adj rt =
     (let adj = adjustAdMatrix n s link linkCost adj
      in case addAllLsNextHopsToRoutingTable n adl pMap (int s)
               (doDijkstraPathCalculation n adj (int s)) rt of
           None \<Rightarrow> None
         | Some rt \<Rightarrow> multiPath n adl pMap s links adj rt)"

text \<open>
  \<open>calculatePath\<close>; also \<open>None\<close>: the matrix is indexed with \<open>-1\<close>, in the multipath case for
  a router that is not in the map.
\<close>

definition calculatePath ::
  "conf \<Rightarrow> adj_lsa list \<Rightarrow> adjacency_list \<Rightarrow> nat \<Rightarrow> router_map \<Rightarrow> routing_table \<Rightarrow> routing_table option" where
  "calculatePath c lsdb adl n pMap rt =
     (let adj = makeAdjMatrix n pMap lsdb (initMatrix n);
          sourceRouter = getMappingNoByRouterName (cf_routerPrefix c) pMap
      in if cf_maxFacesPerPrefix c = 1
         then addAllLsNextHopsToRoutingTable n adl pMap sourceRouter
                (doDijkstraPathCalculation n adj sourceRouter) rt
         else if sourceRouter < 0 then None
         else multiPath n adl pMap (nat sourceRouter) (getLinksFromAdjMatrix n adj (nat sourceRouter)) adj rt)"

definition calculateLsRoutingTable ::
  "conf \<Rightarrow> adj_lsa list \<Rightarrow> adjacency_list \<Rightarrow> routing_table \<Rightarrow> routing_table option" where
  "calculateLsRoutingTable c lsdb adl rt =
     (let pMap = createFromAdjLsdb lsdb rm_empty; nRouters = getMapSize pMap
      in calculatePath c lsdb adl nRouters pMap rt)"

section \<open>The next hop\<close>

text \<open>\<open>via_cost n adj s h v c\<close>: a walk from \<open>s\<close> to \<open>v\<close> that starts with the link to \<open>h\<close> and does not return to \<open>s\<close>.\<close>

inductive via_cost :: "nat \<Rightarrow> matrix \<Rightarrow> nat \<Rightarrow> nat \<Rightarrow> nat \<Rightarrow> real \<Rightarrow> bool" for n adj s h where
  first: "s < n \<Longrightarrow> h < n \<Longrightarrow> h \<noteq> s \<Longrightarrow> entry adj s h > 0 \<Longrightarrow> via_cost n adj s h h (entry adj s h)"
| link: "via_cost n adj s h u c \<Longrightarrow> v < n \<Longrightarrow> v \<noteq> s \<Longrightarrow> entry adj u v > 0 \<Longrightarrow>
    via_cost n adj s h v (c + entry adj u v)"

lemma via_cost_path: "via_cost n adj s h v c \<Longrightarrow> path_cost n adj s v c"
proof (induction rule: via_cost.induct)
  case first
  from path_cost.link [OF path_cost.here [OF first(1), of adj] first(2,4)] show ?case by simp
next
  case (link u c v)
  then show ?case by (blast intro: path_cost.link)
qed

lemma via_cost_bound: "via_cost n adj s h v c \<Longrightarrow> v < n \<and> v \<noteq> s \<and> h < n \<and> h \<noteq> s \<and> entry adj s h > 0"
  by (induction rule: via_cost.induct) auto

lemma followParents_via:
  assumes res: "search_result n adj s ds ps" and s: "s < n"
    and v: "v < n" "v \<noteq> s" "ds ! v < INF_DISTANCE"
  shows "\<exists>h. (\<forall>nh. followParents ps (int v) nh = Some (int s, int h)) \<and> via_cost n adj s h v (ds ! v)"
  using v
proof (induction "card {u. u < n \<and> ds ! u < ds ! v}" arbitrary: v rule: less_induct)
  case less
  obtain u where u: "u < n" "ps ! v = int u" "entry adj u v > 0" "ds ! v = ds ! u + entry adj u v"
    using res less.prems unfolding search_result_def by blast
  have step: "followParents ps (int v) nh = followParents ps (int u) (int v)" for nh
    using u(2) by (subst followParents.simps) (simp add: EMPTY_PARENT_def)
  show ?case
  proof (cases "u = s")
    case True
    have "ps ! s = EMPTY_PARENT" "ds ! s = 0"
      using res by (simp_all add: search_result_def)
    then have "followParents ps (int s) (int v) = Some (int s, int v)"
      by (subst followParents.simps) simp
    moreover have "via_cost n adj s v v (ds ! v)"
      using via_cost.first [OF s less.prems(1,2)] u True \<open>ds ! s = 0\<close> by simp
    ultimately show ?thesis
      using True by (auto simp: step)
  next
    case False
    have less: "ds ! u < ds ! v"
      using u(3,4) by simp
    have "u \<in> {w. w < n \<and> ds ! w < ds ! v}" and "u \<notin> {w. w < n \<and> ds ! w < ds ! u}"
      using u(1) less by simp_all
    moreover have "{w. w < n \<and> ds ! w < ds ! u} \<subseteq> {w. w < n \<and> ds ! w < ds ! v}"
      using less by auto
    ultimately have "{w. w < n \<and> ds ! w < ds ! u} \<subset> {w. w < n \<and> ds ! w < ds ! v}"
      by blast
    then have "card {w. w < n \<and> ds ! w < ds ! u} < card {w. w < n \<and> ds ! w < ds ! v}"
      by (intro psubset_card_mono) auto
    from less.hyps [OF this u(1) False] u less.prems(3) obtain h where
      "\<forall>nh. followParents ps (int u) nh = Some (int s, int h)" "via_cost n adj s h u (ds ! u)"
      by auto
    with via_cost.link [OF this(2) less.prems(1,2) u(3)] u(4) show ?thesis
      by (auto simp: step)
  qed
qed

lemma getLsNextHop_via:
  assumes "search_result n adj s ds ps" and "s < n" and "v < n" "v \<noteq> s" "ds ! v < INF_DISTANCE"
  shows "\<exists>h. getLsNextHop ps (int v) (int s) = Some (int h) \<and> via_cost n adj s h v (ds ! v)"
  using followParents_via [OF assms] by (auto simp: getLsNextHop_def)

lemma getLsNextHop_none:
  assumes "search_result n adj s ds ps" and "v < n" "v \<noteq> s" "\<not> ds ! v < INF_DISTANCE"
  shows "getLsNextHop ps (int v) (int s) = Some NO_NEXT_HOP"
proof -
  have "ds ! v \<le> INF_DISTANCE"
    using assms(1,2) unfolding search_result_def by blast
  then have "ds ! v = INF_DISTANCE"
    using assms(4) by simp
  then have "ps ! v = EMPTY_PARENT"
    using assms(1,2) unfolding search_result_def by blast
  then show ?thesis
    using assms(3) by (simp add: getLsNextHop_def followParents.simps)
qed

section \<open>One search\<close>

definition faceTowards :: "adjacency_list \<Rightarrow> router_map \<Rightarrow> nat \<Rightarrow> string" where
  "faceTowards adl pm h = ad_faceUri (getAdjacent (getRouterNameByMappingNo (int h) pm) adl)"

definition firstHop :: "int list \<Rightarrow> nat \<Rightarrow> nat \<Rightarrow> nat" where
  "firstHop ps s v = (case getLsNextHop ps (int v) (int s) of Some h \<Rightarrow> nat h | None \<Rightarrow> 0)"

definition lsHop ::
  "adjacency_list \<Rightarrow> router_map \<Rightarrow> nat \<Rightarrow> real list \<Rightarrow> int list \<Rightarrow> nat \<Rightarrow> name \<times> nexthop" where
  "lsHop adl pm s ds ps v = (getRouterNameByMappingNo (int v) pm,
     \<lparr>nh_faceUri = faceTowards adl pm (firstHop ps s v), nh_cost = ds ! v, nh_hyperbolic = False\<rparr>)"

definition reached :: "nat \<Rightarrow> nat \<Rightarrow> real list \<Rightarrow> nat list" where
  "reached n s ds = filter (\<lambda>v. v \<noteq> s \<and> ds ! v < INF_DISTANCE) [0..<n]"

abbreviation insertHops :: "(name \<times> nexthop) list \<Rightarrow> rt_entry list \<Rightarrow> rt_entry list" where
  "insertHops \<equiv> fold (\<lambda>h. rt_insert (fst h) (snd h))"

lemma firstHop_via:
  assumes "search_result n adj s ds ps" and "s < n" and "v < n" "v \<noteq> s" "ds ! v < INF_DISTANCE"
  shows "via_cost n adj s (firstHop ps s v) v (ds ! v)"
    and "getLsNextHop ps (int v) (int s) = Some (int (firstHop ps s v))"
  using getLsNextHop_via [OF assms] by (auto simp: firstHop_def)

lemma addAll_hops:
  assumes res: "search_result n adj s ds ps" and s: "s < n"
  shows "addAllLsNextHopsToRoutingTable n adl pm (int s) (ds, ps) rt =
    Some (rt\<lparr>rt_table := insertHops (map (lsHop adl pm s ds ps) (reached n s ds)) (rt_table rt)\<rparr>)"
proof -
  have "addAllLsNextHops adl pm (int s) ds ps is rt =
    Some (rt\<lparr>rt_table := insertHops (map (lsHop adl pm s ds ps)
      (filter (\<lambda>v. v \<noteq> s \<and> ds ! v < INF_DISTANCE) is)) (rt_table rt)\<rparr>)"
    if "\<forall>v\<in>set is. v < n" for "is"
    using that
  proof (induction "is" arbitrary: rt)
    case (Cons v vs)
    show ?case
    proof (cases "v \<noteq> s \<and> ds ! v < INF_DISTANCE")
      case True
      with firstHop_via(2) [OF res s, of v] Cons show ?thesis
        by (simp add: NO_NEXT_HOP_def Let_def lsHop_def faceTowards_def rt_addNextHop_def)
    next
      case False
      then show ?thesis
        using getLsNextHop_none [OF res, of v] Cons by (cases "v = s") simp_all
    qed
  qed simp
  then show ?thesis
    by (simp add: addAllLsNextHopsToRoutingTable_def reached_def)
qed

section \<open>The single path\<close>

lemma insertHops_find:
  assumes "distinct (map fst hs)" and "\<forall>h\<in>set hs. findRoutingTableEntry (fst h) t = None"
  shows "findRoutingTableEntry d (insertHops hs t) = (case map_of hs d of
     None \<Rightarrow> findRoutingTableEntry d t
   | Some nh \<Rightarrow> Some \<lparr>rte_destination = d, rte_hops = [nh]\<rparr>)"
  using assms
proof (induction hs arbitrary: t)
  case (Cons h hs)
  have new: "findRoutingTableEntry (fst h) t = None" and rest: "fst h \<notin> fst ` set hs"
    using Cons.prems by simp_all
  have hop: "addNextHop nh [] = [nh]" for nh
    by (simp add: addNextHop_def)
  have "\<forall>g\<in>set hs. findRoutingTableEntry (fst g) (rt_insert (fst h) (snd h) t) = None"
    using Cons.prems rest by (auto simp: find_rt_insert image_iff)
  with Cons.IH [of "rt_insert (fst h) (snd h) t"] Cons.prems(1)
  have "findRoutingTableEntry d (insertHops (h # hs) t) = (case map_of hs d of
     None \<Rightarrow> findRoutingTableEntry d (rt_insert (fst h) (snd h) t)
   | Some nh \<Rightarrow> Some \<lparr>rte_destination = d, rte_hops = [nh]\<rparr>)"
    by simp
  moreover have "map_of hs (fst h) = None"
    using rest by (simp add: map_of_eq_None_iff)
  ultimately show ?case
    using new by (cases h) (auto simp: find_rt_insert hop split: option.split)
qed simp

text \<open>Least cost over all walks, and the walk's first hop.\<close>

definition shortest_via :: "nat \<Rightarrow> matrix \<Rightarrow> nat \<Rightarrow> nat \<Rightarrow> nat \<Rightarrow> real \<Rightarrow> bool" where
  "shortest_via n adj s h v d \<longleftrightarrow> via_cost n adj s h v d \<and> (\<forall>c. path_cost n adj s v c \<longrightarrow> d \<le> c)"

lemma names_distinct:
  assumes "rm_wf pm" and "distinct vs" and "\<forall>v\<in>set vs. v < getMapSize pm"
  shows "distinct (map (\<lambda>v. getRouterNameByMappingNo (int v) pm) vs)"
proof -
  have "inj_on (\<lambda>v. getRouterNameByMappingNo (int v) pm) (set vs)"
  proof (rule inj_onI)
    fix a b assume "a \<in> set vs" "b \<in> set vs"
      "getRouterNameByMappingNo (int a) pm = getRouterNameByMappingNo (int b) pm"
    then show "a = b"
      using rm.name_inj [OF assms(1), of "int a" "int b"] assms(3) by simp
  qed
  with assms(2) show ?thesis by (simp add: distinct_map)
qed

definition lsTable ::
  "adjacency_list \<Rightarrow> router_map \<Rightarrow> nat \<Rightarrow> nat \<Rightarrow> real list \<Rightarrow> int list \<Rightarrow> rt_entry list" where
  "lsTable adl pm n s ds ps = insertHops (map (lsHop adl pm s ds ps) (reached n s ds)) []"

lemma single_path:
  assumes res: "search_result n adj s ds ps" and s: "s < n" and pm: "rm_wf pm" "n = getMapSize pm"
    and v: "v < n" "v \<noteq> s"
  shows "(\<exists>c<INF_DISTANCE. path_cost n adj s v c) \<Longrightarrow>
      \<exists>h d. shortest_via n adj s h v d \<and>
        findRoutingTableEntry (getRouterNameByMappingNo (int v) pm) (lsTable adl pm n s ds ps) =
          Some \<lparr>rte_destination = getRouterNameByMappingNo (int v) pm,
                rte_hops = [\<lparr>nh_faceUri = faceTowards adl pm h, nh_cost = d, nh_hyperbolic = False\<rparr>]\<rparr>"
    and "\<not> (\<exists>c<INF_DISTANCE. path_cost n adj s v c) \<Longrightarrow>
      findRoutingTableEntry (getRouterNameByMappingNo (int v) pm) (lsTable adl pm n s ds ps) = None"
proof -
  let ?name = "\<lambda>v. getRouterNameByMappingNo (int v) pm"
  let ?hs = "map (lsHop adl pm s ds ps) (reached n s ds)"
  have vs: "distinct (reached n s ds)" "\<forall>v\<in>set (reached n s ds). v < n"
    by (auto simp: reached_def)
  have keys: "map fst ?hs = map ?name (reached n s ds)"
    by (simp add: lsHop_def)
  have dist: "distinct (map fst ?hs)"
    unfolding keys using names_distinct [OF pm(1) vs(1)] vs(2) pm(2) by simp
  have find: "findRoutingTableEntry d (lsTable adl pm n s ds ps) = (case map_of ?hs d of
      None \<Rightarrow> None | Some nh \<Rightarrow> Some \<lparr>rte_destination = d, rte_hops = [nh]\<rparr>)" for d
    unfolding lsTable_def by (subst insertHops_find [OF dist]) (simp_all add: findRoutingTableEntry_def split: option.split)
  have le: "\<And>c. path_cost n adj s v c \<Longrightarrow> ds ! v \<le> c"
    and path: "ds ! v < INF_DISTANCE \<Longrightarrow> path_cost n adj s v (ds ! v)"
    using res v(1) unfolding search_result_def by blast+
  { assume "\<exists>c<INF_DISTANCE. path_cost n adj s v c"
    with le have fin: "ds ! v < INF_DISTANCE" by force
    then have "v \<in> set (reached n s ds)"
      using v by (simp add: reached_def)
    then have "lsHop adl pm s ds ps v \<in> set ?hs" by simp
    then have "map_of ?hs (?name v) = Some (snd (lsHop adl pm s ds ps v))"
      using dist by (metis fst_conv lsHop_def map_of_is_SomeI prod.collapse)
    moreover have "shortest_via n adj s (firstHop ps s v) v (ds ! v)"
      using firstHop_via(1) [OF res s v fin] le by (simp add: shortest_via_def)
    ultimately show "\<exists>h d. shortest_via n adj s h v d \<and>
        findRoutingTableEntry (?name v) (lsTable adl pm n s ds ps) = Some \<lparr>rte_destination = ?name v,
          rte_hops = [\<lparr>nh_faceUri = faceTowards adl pm h, nh_cost = d, nh_hyperbolic = False\<rparr>]\<rparr>"
      unfolding find by (auto simp: lsHop_def) }
  { assume "\<not> (\<exists>c<INF_DISTANCE. path_cost n adj s v c)"
    with path have "\<not> ds ! v < INF_DISTANCE" by blast
    then have "v \<notin> set (reached n s ds)" by (simp add: reached_def)
    have "?name v \<notin> fst ` set ?hs"
    proof
      assume "?name v \<in> fst ` set ?hs"
      then obtain w where w: "w \<in> set (reached n s ds)" "?name w = ?name v"
        by (auto simp: lsHop_def)
      then have "w = v"
        using rm.name_inj [OF pm(1), of "int w" "int v"] vs(2) v(1) pm(2) by simp
      with w \<open>v \<notin> set (reached n s ds)\<close> show False by simp
    qed
    then have "map_of ?hs (?name v) = None"
      by (simp add: map_of_eq_None_iff)
    then show "findRoutingTableEntry (?name v) (lsTable adl pm n s ds ps) = None"
      unfolding find by simp }
qed

section \<open>Multipath\<close>

text \<open>\<open>only_link\<close>: the matrix in which the source keeps its link to \<open>l\<close> only.\<close>

definition only_link :: "nat \<Rightarrow> matrix \<Rightarrow> nat \<Rightarrow> nat \<Rightarrow> matrix \<Rightarrow> bool" where
  "only_link n adj s l m \<longleftrightarrow> dims n m \<and>
     (\<forall>j<n. entry m s j = (if j = l then entry adj s l else 0)) \<and>
     (\<forall>i<n. i \<noteq> s \<longrightarrow> (\<forall>j<n. entry m i j = entry adj i j))"

lemma only_link_adjust:
  assumes "dims n m" and "\<forall>i<n. i \<noteq> s \<longrightarrow> (\<forall>j<n. entry m i j = entry adj i j)" and "s < n"
  shows "only_link n adj s l (adjustAdMatrix n s l (entry adj s l) m)"
  unfolding only_link_def
  using entry_adjust(1) [OF assms(1)] entry_adjust(2) [OF assms(1) assms(3,3)] assms(2,3) by simp

lemma only_link_via:
  assumes m: "only_link n adj s l m"
  shows "via_cost n m s h v c \<longleftrightarrow> h = l \<and> via_cost n adj s l v c"
proof
  assume "via_cost n m s h v c"
  then show "h = l \<and> via_cost n adj s l v c"
  proof (induction rule: via_cost.induct)
    case first
    then have "h = l" and "entry m s h = entry adj s l"
      using m by (auto simp: only_link_def split: if_splits)
    with first via_cost.first [of s n l adj] show ?case by simp
  next
    case (link u c v)
    then have "u < n" "u \<noteq> s"
      using via_cost_bound [of n m s h u c] by simp_all
    then have "entry m u v = entry adj u v"
      using m link.hyps(2) by (simp add: only_link_def)
    with link show ?case
      by (auto intro: via_cost.link)
  qed
next
  assume "h = l \<and> via_cost n adj s l v c"
  then have "via_cost n adj s l v c" and h: "h = l" by simp_all
  from this(1) have "via_cost n m s l v c"
  proof (induction rule: via_cost.induct)
    case first
    then have "entry m s l = entry adj s l"
      using m by (simp add: only_link_def)
    with first via_cost.first [of s n l m] show ?case by simp
  next
    case (link u c v)
    then have "u < n" "u \<noteq> s"
      using via_cost_bound [of n adj s l u c] by simp_all
    then have "entry m u v = entry adj u v"
      using m link.hyps(2) by (simp add: only_link_def)
    with link via_cost.link [of n m s l u c v] show ?case by simp
  qed
  with h show "via_cost n m s h v c" by simp
qed

definition least_via :: "nat \<Rightarrow> matrix \<Rightarrow> nat \<Rightarrow> nat \<Rightarrow> nat \<Rightarrow> real \<Rightarrow> bool" where
  "least_via n adj s l v d \<longleftrightarrow> via_cost n adj s l v d \<and> (\<forall>c. via_cost n adj s l v c \<longrightarrow> d \<le> c)"

text \<open>The routes one search on such a matrix adds.\<close>

definition hop_to :: "adjacency_list \<Rightarrow> router_map \<Rightarrow> nat \<Rightarrow> nat \<Rightarrow> real \<Rightarrow> name \<times> nexthop" where
  "hop_to adl pm l v d = (getRouterNameByMappingNo (int v) pm,
     \<lparr>nh_faceUri = faceTowards adl pm l, nh_cost = d, nh_hyperbolic = False\<rparr>)"

definition hops_via ::
  "nat \<Rightarrow> matrix \<Rightarrow> nat \<Rightarrow> adjacency_list \<Rightarrow> router_map \<Rightarrow> nat \<Rightarrow> (name \<times> nexthop) set" where
  "hops_via n adj s adl pm l = {hop_to adl pm l v d |v d. v < n \<and> v \<noteq> s \<and> d < INF_DISTANCE \<and> least_via n adj s l v d}"

lemma one_link:
  assumes m: "only_link n adj s l m" and res: "search_result n m s ds ps" and s: "s < n"
  shows "set (map (lsHop adl pm s ds ps) (reached n s ds)) = hops_via n adj s adl pm l"
proof -
  have least: "ds ! v \<le> c" if "via_cost n adj s l v c" for v c
  proof -
    have "via_cost n m s l v c"
      using only_link_via [OF m, of l v c] that by simp
    with res show ?thesis
      unfolding search_result_def by (blast dest: via_cost_path)
  qed
  have hop: "least_via n adj s l v (ds ! v) \<and> lsHop adl pm s ds ps v = hop_to adl pm l v (ds ! v)"
    if "v < n" "v \<noteq> s" "ds ! v < INF_DISTANCE" for v
  proof -
    have "firstHop ps s v = l \<and> via_cost n adj s l v (ds ! v)"
      using only_link_via [OF m] firstHop_via(1) [OF res s that] by simp
    with least show ?thesis
      by (simp add: least_via_def lsHop_def hop_to_def)
  qed
  have fin: "d = ds ! v \<and> ds ! v < INF_DISTANCE"
    if "v < n" "v \<noteq> s" "d < INF_DISTANCE" "least_via n adj s l v d" for v d
  proof -
    have "ds ! v < INF_DISTANCE"
      using that least [of v d] by (simp add: least_via_def)
    with hop [OF that(1,2)] that(4) show ?thesis
      by (auto simp: least_via_def intro: antisym)
  qed
  show ?thesis
  proof (intro set_eqI iffI)
    fix x assume "x \<in> set (map (lsHop adl pm s ds ps) (reached n s ds))"
    then obtain v where "x = lsHop adl pm s ds ps v" "v < n" "v \<noteq> s" "ds ! v < INF_DISTANCE"
      by (auto simp: reached_def)
    with hop [of v] show "x \<in> hops_via n adj s adl pm l"
      by (auto simp: hops_via_def)
  next
    fix x assume "x \<in> hops_via n adj s adl pm l"
    then obtain v d where x: "x = hop_to adl pm l v d" "v < n" "v \<noteq> s" "d < INF_DISTANCE"
        "least_via n adj s l v d"
      by (auto simp: hops_via_def)
    with fin [of v d] hop [of v] have "x = lsHop adl pm s ds ps v" "v \<in> set (reached n s ds)"
      by (simp_all add: reached_def)
    then show "x \<in> set (map (lsHop adl pm s ds ps) (reached n s ds))"
      by simp
  qed
qed

lemma multiPath_hops:
  assumes s: "s < n" and "dims n m" and "\<forall>i<n. i \<noteq> s \<longrightarrow> (\<forall>j<n. entry m i j = entry adj i j)"
    and "\<forall>(l, c)\<in>set links. c = entry adj s l"
  shows "\<exists>H. multiPath n adl pm s links m rt = Some (rt\<lparr>rt_table := insertHops H (rt_table rt)\<rparr>) \<and>
    set H = (\<Union>l\<in>fst ` set links. hops_via n adj s adl pm l)"
  using assms(2-)
proof (induction links arbitrary: m rt)
  case (Cons link links)
  obtain l c where l: "link = (l, c)" by fastforce
  let ?m = "adjustAdMatrix n s l c m"
  have c: "c = entry adj s l"
    using Cons.prems(3) by (simp add: l)
  have only: "only_link n adj s l ?m"
    unfolding c by (rule only_link_adjust) (use Cons.prems s in simp_all)
  obtain ds ps where d: "doDijkstraPathCalculation n ?m (int s) = (ds, ps)" by fastforce
  then have res: "search_result n ?m s ds ps"
    using doDijkstra_result [OF s, of ?m] by simp
  let ?h = "map (lsHop adl pm s ds ps) (reached n s ds)"
  let ?rt = "rt\<lparr>rt_table := insertHops ?h (rt_table rt)\<rparr>"
  have "dims n ?m" and "\<forall>i<n. i \<noteq> s \<longrightarrow> (\<forall>j<n. entry ?m i j = entry adj i j)"
    using only by (simp_all add: only_link_def)
  with Cons.IH [of ?m ?rt] Cons.prems(3) obtain H where
    H: "multiPath n adl pm s links ?m ?rt = Some (?rt\<lparr>rt_table := insertHops H (rt_table ?rt)\<rparr>)"
      "set H = (\<Union>l\<in>fst ` set links. hops_via n adj s adl pm l)"
    by auto
  have "multiPath n adl pm s (link # links) m rt = Some (rt\<lparr>rt_table := insertHops (?h @ H) (rt_table rt)\<rparr>)"
    using H(1) by (simp add: l d addAll_hops [OF res s] Let_def)
  moreover have "set (?h @ H) = (\<Union>l\<in>fst ` set (link # links). hops_via n adj s adl pm l)"
    using H(2) one_link [OF only res s, of adl pm] by (simp add: l)
  ultimately show ?case by blast
qed (intro exI [of _ "[]"], simp)

text \<open>Per destination and face the table then holds the least cost through a neighbour with the face.\<close>

definition best_via ::
  "nat \<Rightarrow> matrix \<Rightarrow> nat \<Rightarrow> (nat \<Rightarrow> string) \<Rightarrow> string \<Rightarrow> nat \<Rightarrow> real \<Rightarrow> bool" where
  "best_via n adj s face U v d \<longleftrightarrow> (\<exists>h. face h = U \<and> via_cost n adj s h v d) \<and>
     (\<forall>h c. face h = U \<longrightarrow> via_cost n adj s h v c \<longrightarrow> d \<le> c)"

lemma links_set:
  "fst ` set (getLinksFromAdjMatrix n adj s) = {l. l < n \<and> entry adj s l > 0}"
  by (auto simp: getLinks_alt image_iff)

lemma least_via_exists:
  assumes "dims n adj" and s: "s < n" and via: "via_cost n adj s l v c" and "c < INF_DISTANCE"
  shows "\<exists>d. least_via n adj s l v d \<and> d \<le> c"
proof -
  let ?m = "adjustAdMatrix n s l (entry adj s l) adj"
  have m: "only_link n adj s l ?m"
    by (rule only_link_adjust) (use assms in simp_all)
  obtain ds ps where "doDijkstraPathCalculation n ?m (int s) = (ds, ps)" by fastforce
  then have res: "search_result n ?m s ds ps"
    using doDijkstra_result [OF s, of ?m] by simp
  have le: "ds ! v \<le> c'" if "via_cost n adj s l v c'" for c'
    using res only_link_via [OF m, of l v c'] that unfolding search_result_def
    by (blast dest: via_cost_path)
  have v: "v < n" "v \<noteq> s"
    using via_cost_bound [OF via] by simp_all
  have "ds ! v < INF_DISTANCE"
    using le [OF via] assms(4) by simp
  then have "via_cost n adj s l v (ds ! v)"
    using only_link_via [OF m] firstHop_via(1) [OF res s v] by blast
  with le via show ?thesis
    by (auto simp: least_via_def)
qed

lemma image_mem_iff: "k \<in> f ` A \<longleftrightarrow> {x \<in> A. f x = k} \<noteq> {}"
  by auto

lemma multi_path:
  assumes adj: "dims n adj" and s: "s < n" and pm: "rm_wf pm" "n = getMapSize pm" and v: "v < n" "v \<noteq> s"
    and H: "set H = (\<Union>l\<in>fst ` set (getLinksFromAdjMatrix n adj s). hops_via n adj s adl pm l)"
  shows "rt_cost (insertHops H []) (getRouterNameByMappingNo (int v) pm, U) = Some d \<longleftrightarrow>
    d < INF_DISTANCE \<and> best_via n adj s (faceTowards adl pm) U v d"
proof -
  let ?name = "\<lambda>v. getRouterNameByMappingNo (int v) pm" and ?face = "faceTowards adl pm"
  let ?k = "(?name v, U)" and ?key = "\<lambda>h :: name \<times> nexthop. (fst h, nh_faceUri (snd h))"
  let ?W = "(\<lambda>h. nh_cost (snd h)) ` {h \<in> set H. ?key h = ?k}"
  have inj: "w = v" if "w < n" "?name w = ?name v" for w
    using rm.name_inj [OF pm(1), of "int w" "int v"] that v(1) pm(2) by simp
  have W: "d \<in> ?W \<longleftrightarrow> (\<exists>l. ?face l = U \<and> d < INF_DISTANCE \<and> least_via n adj s l v d)" for d
  proof
    assume "d \<in> ?W"
    then obtain l w where "?face l = U" "?name w = ?name v" "w < n" "d < INF_DISTANCE" "least_via n adj s l w d"
      by (auto simp: H hops_via_def hop_to_def)
    with inj show "\<exists>l. ?face l = U \<and> d < INF_DISTANCE \<and> least_via n adj s l v d" by blast
  next
    assume "\<exists>l. ?face l = U \<and> d < INF_DISTANCE \<and> least_via n adj s l v d"
    then obtain l where l: "?face l = U" "d < INF_DISTANCE" "least_via n adj s l v d" by blast
    then have "hop_to adl pm l v d \<in> hops_via n adj s adl pm l"
      using v by (auto simp: hops_via_def)
    moreover have "l \<in> fst ` set (getLinksFromAdjMatrix n adj s)"
      using l(3) via_cost_bound [of n adj s l v d] by (simp add: links_set least_via_def)
    ultimately have "hop_to adl pm l v d \<in> set H"
      unfolding H by blast
    with l(1) show "d \<in> ?W"
      by (intro image_eqI [of _ _ "hop_to adl pm l v d"]) (simp_all add: hop_to_def)
  qed
  have cost: "rt_cost (insertHops H []) ?k = (if ?k \<in> ?key ` set H then Some (Min ?W) else None)"
    by (rule rt.cost_fold_Min) (simp add: rt_cost_def findRoutingTableEntry_def)
  have mem: "?k \<in> ?key ` set H \<longleftrightarrow> ?W \<noteq> {}"
    unfolding image_is_empty by (rule image_mem_iff)
  show ?thesis
  proof
    assume "rt_cost (insertHops H []) ?k = Some d"
    then have ne: "?W \<noteq> {}" and d: "d = Min ?W"
      using cost mem by (auto split: if_splits)
    have "Min ?W \<in> ?W"
      by (rule Min_in) (use ne in simp_all)
    then obtain l where l: "?face l = U" "d < INF_DISTANCE" "least_via n adj s l v d"
      using W d by blast
    moreover have "d \<le> c" if face: "?face h = U" and via: "via_cost n adj s h v c" for h c
    proof (cases "c < INF_DISTANCE")
      case True
      obtain d' where d': "least_via n adj s h v d'" "d' \<le> c"
        using least_via_exists [OF adj s via True] by blast
      then have "d' \<in> ?W"
        using W face True by auto
      then have "d \<le> d'"
        unfolding d by (intro Min_le) simp_all
      with d' show ?thesis by simp
    qed (use l(2) in simp)
    ultimately show "d < INF_DISTANCE \<and> best_via n adj s ?face U v d"
      unfolding best_via_def least_via_def by blast
  next
    assume "d < INF_DISTANCE \<and> best_via n adj s ?face U v d"
    then obtain h where h: "d < INF_DISTANCE" "?face h = U" "via_cost n adj s h v d"
      and low: "\<And>h c. ?face h = U \<Longrightarrow> via_cost n adj s h v c \<Longrightarrow> d \<le> c"
      unfolding best_via_def by blast
    then have dW: "d \<in> ?W"
      using W by (auto simp: least_via_def)
    moreover have "d \<le> w" if "w \<in> ?W" for w
      using that W low by (auto simp: least_via_def)
    ultimately have "Min ?W = d"
      by (intro Min_eqI) simp_all
    with cost mem dW show "rt_cost (insertHops H []) ?k = Some d"
      by auto
  qed
qed

section \<open>The calculation on the LSDB\<close>

lemma own_number:
  assumes "rm_wf pm" and "getMappingNoByRouterName r pm \<noteq> -1"
  obtains s where "getMappingNoByRouterName r pm = int s" and "s < getMapSize pm"
    and "getRouterNameByMappingNo (int s) pm = r"
  using rm.number_range [OF assms(1), of r] rm.name_number [OF assms] assms(2)
  by (metis nonneg_int_cases of_nat_less_iff)

text \<open>Whenever this router is in the map, the calculation returns.\<close>

lemma calculatePath_returns:
  assumes pm: "rm_wf pm" and "getMappingNoByRouterName (cf_routerPrefix c) pm \<noteq> -1"
  shows "\<exists>H. calculatePath c lsdb adl (getMapSize pm) pm rt =
    Some (rt\<lparr>rt_table := insertHops H (rt_table rt)\<rparr>)"
proof -
  let ?n = "getMapSize pm"
  let ?adj = "makeAdjMatrix ?n pm lsdb (initMatrix ?n)"
  obtain s where s: "getMappingNoByRouterName (cf_routerPrefix c) pm = int s" "s < ?n"
    using own_number [OF assms] by blast
  show ?thesis
  proof (cases "cf_maxFacesPerPrefix c = 1")
    case True
    obtain ds ps where d: "doDijkstraPathCalculation ?n ?adj (int s) = (ds, ps)" by fastforce
    then have "search_result ?n ?adj s ds ps"
      using doDijkstra_result [OF s(2), of ?adj] by simp
    with True d s addAll_hops [OF this s(2)] show ?thesis
      by (auto simp: calculatePath_def Let_def)
  next
    case False
    have "\<forall>(l, c)\<in>set (getLinksFromAdjMatrix ?n ?adj s). c = entry ?adj s l"
      by (auto simp: getLinks_alt)
    from multiPath_hops [OF s(2) _ _ this, of ?adj adl pm rt] False s show ?thesis
      by (auto simp: calculatePath_def Let_def)
  qed
qed

lemma calculateLs_returns:
  assumes "cf_routerPrefix c \<in> ls_origRouter ` set lsdb"
  shows "\<exists>H. calculateLsRoutingTable c lsdb adl rt = Some (rt\<lparr>rt_table := insertHops H (rt_table rt)\<rparr>)"
proof -
  let ?pm = "createFromAdjLsdb lsdb rm_empty"
  have "rm_wf ?pm" by (simp add: rm_wf_create)
  moreover from this have "getMappingNoByRouterName (cf_routerPrefix c) ?pm \<noteq> -1"
    using assms by (simp add: getMappingNo_iff routers_create)
  ultimately show ?thesis
    using calculatePath_returns by (simp add: calculateLsRoutingTable_def Let_def)
qed

end
