(* ===== verification/Hyperbolic.thy ===== *)
theory Hyperbolic
  imports Calculator Lsdb_Lists
begin

text \<open>
  \<open>HyperbolicRoutingCalculator\<close> (src/src/route/routing-table-calculator.cpp): the cost of a
  route through a neighbour is the hyperbolic distance of the neighbour to the destination.
  \<open>double\<close> and the functions of \<open><cmath>\<close> are the reals and their functions.
\<close>

definition UNKNOWN_DISTANCE :: real where "UNKNOWN_DISTANCE = -1"
definition UNKNOWN_RADIUS :: real where "UNKNOWN_RADIUS = -1"
definition ROUTER_NOT_FOUND :: int where "ROUTER_NOT_FOUND = -1"

definition angleBetween :: "real \<Rightarrow> real \<Rightarrow> real" where
  "angleBetween a b = (let diffTheta = \<bar>a - b\<bar> in if diffTheta > pi then 2 * pi - diffTheta else diffTheta)"

definition getHyperbolicDistance :: "cor_lsa list \<Rightarrow> name \<Rightarrow> name \<Rightarrow> real" where
  "getHyperbolicDistance lsdb src dest =
     (case (findCoordinateLsa (src @ [COR_TYPE]) lsdb, findCoordinateLsa (dest @ [COR_TYPE]) lsdb) of
        (Some srcLsa, Some destLsa) \<Rightarrow>
          let diffTheta = angleBetween (cl_corTheta srcLsa) (cl_corTheta destLsa);
              srcRadius = cl_corRad srcLsa; destRadius = cl_corRad destLsa
          in if srcRadius = UNKNOWN_RADIUS \<and> destRadius = UNKNOWN_RADIUS then UNKNOWN_DISTANCE
             else if diffTheta = 0 then \<bar>srcRadius - destRadius\<bar>
             else arcosh (cosh srcRadius * cosh destRadius - sinh srcRadius * sinh destRadius * cos diffTheta)
      | _ \<Rightarrow> UNKNOWN_DISTANCE)"

definition hyp_addNextHop :: "bool \<Rightarrow> name \<Rightarrow> string \<Rightarrow> real \<Rightarrow> routing_table \<Rightarrow> routing_table" where
  "hyp_addNextHop isDryRun d faceUri cost rt =
     (let hop = \<lparr>nh_faceUri = faceUri, nh_cost = cost, nh_hyperbolic = True\<rparr>
      in if isDryRun then addNextHopToDryTable d hop rt else rt_addNextHop d hop rt)"

definition hyp_neighbor ::
  "nat \<Rightarrow> bool \<Rightarrow> name \<Rightarrow> router_map \<Rightarrow> cor_lsa list \<Rightarrow> adjacent \<Rightarrow> routing_table \<Rightarrow> routing_table" where
  "hyp_neighbor n isDryRun thisRouterName pMap lsdb adj rt =
     (let thisRouter = getMappingNoByRouterName thisRouterName pMap; srcRouterName = ad_name adj in
      if ad_status adj = STATUS_INACTIVE then rt
      else if srcRouterName = thisRouterName then rt
      else
        let srcFaceUri = ad_faceUri adj;
            rt = hyp_addNextHop isDryRun srcRouterName srcFaceUri 0 rt;
            src = getMappingNoByRouterName srcRouterName pMap
        in if src = ROUTER_NOT_FOUND then rt
           else fold (\<lambda>d rt.
             if int d \<noteq> thisRouter \<and> int d \<noteq> src then
               let destRouterName = getRouterNameByMappingNo (int d) pMap;
                   distance = getHyperbolicDistance lsdb srcRouterName destRouterName
               in if distance = UNKNOWN_DISTANCE then rt
                  else hyp_addNextHop isDryRun destRouterName srcFaceUri distance rt
             else rt) [0..<n] rt)"

definition calculatePaths ::
  "nat \<Rightarrow> bool \<Rightarrow> name \<Rightarrow> router_map \<Rightarrow> cor_lsa list \<Rightarrow> adjacency_list \<Rightarrow> routing_table \<Rightarrow> routing_table" where
  "calculatePaths n isDryRun thisRouterName pMap lsdb neighbors rt =
     fold (hyp_neighbor n isDryRun thisRouterName pMap lsdb) neighbors rt"

definition calculateHypRoutingTable ::
  "bool \<Rightarrow> conf \<Rightarrow> adj_lsa list \<Rightarrow> cor_lsa list \<Rightarrow> adjacency_list \<Rightarrow> routing_table \<Rightarrow> routing_table" where
  "calculateHypRoutingTable isDryRun c adjLsdb corLsdb adl rt =
     (let pMap = createFromAdjLsdb adjLsdb rm_empty
      in calculatePaths (getMapSize pMap) isDryRun (cf_routerPrefix c) pMap corLsdb adl rt)"

section \<open>The distance is one\<close>

lemma cosh_sinh_bound: "\<bar>sinh a * sinh b\<bar> \<le> cosh a * cosh b - (1 :: real)"
proof -
  have "cosh (a + b) \<ge> 1" and "cosh (a - b) \<ge> 1"
    by (simp_all add: cosh_real_ge_1)
  then show ?thesis
    by (simp add: cosh_add cosh_diff abs_le_iff)
qed

text \<open>The argument of \<open>acosh\<close> is in its domain, whatever the coordinates.\<close>

lemma acosh_domain: "1 \<le> cosh a * cosh b - sinh a * sinh b * cos (t :: real)"
proof -
  have "\<bar>sinh a * sinh b * cos t\<bar> \<le> \<bar>sinh a * sinh b\<bar> * 1"
    unfolding abs_mult [of _ "cos t"] by (intro mult_left_mono) simp_all
  with cosh_sinh_bound [of a b] show ?thesis by linarith
qed

lemma angleBetween_sym: "angleBetween a b = angleBetween b a"
  by (simp add: angleBetween_def abs_minus_commute)

lemma distance_cases:
  assumes "findCoordinateLsa (src @ [COR_TYPE]) lsdb = Some a"
    and "findCoordinateLsa (dst @ [COR_TYPE]) lsdb = Some b"
    and "\<not> (cl_corRad a = UNKNOWN_RADIUS \<and> cl_corRad b = UNKNOWN_RADIUS)"
  shows "getHyperbolicDistance lsdb src dst = arcosh (cosh (cl_corRad a) * cosh (cl_corRad b) -
    sinh (cl_corRad a) * sinh (cl_corRad b) * cos (angleBetween (cl_corTheta a) (cl_corTheta b)))"
proof (cases "angleBetween (cl_corTheta a) (cl_corTheta b) = 0")
  case False
  with assms show ?thesis
    by (auto simp: getHyperbolicDistance_def Let_def)
next
  case True
  have "arcosh (cosh r) = \<bar>r\<bar>" for r :: real
  proof (cases "0 \<le> r")
    case True
    then show ?thesis by (simp add: arcosh_cosh_real)
  next
    case False
    then show ?thesis using arcosh_cosh_real [of "- r"] by simp
  qed
  with True assms show ?thesis
    by (auto simp: getHyperbolicDistance_def Let_def cosh_diff [symmetric])
qed

lemma distance_nonneg:
  assumes "findCoordinateLsa (src @ [COR_TYPE]) lsdb = Some a"
    and "findCoordinateLsa (dst @ [COR_TYPE]) lsdb = Some b"
    and "\<not> (cl_corRad a = UNKNOWN_RADIUS \<and> cl_corRad b = UNKNOWN_RADIUS)"
  shows "0 \<le> getHyperbolicDistance lsdb src dst"
  unfolding distance_cases [OF assms] using acosh_domain by (simp add: arcosh_nonneg_real)

lemma distance_sym: "getHyperbolicDistance lsdb src dst = getHyperbolicDistance lsdb dst src"
  unfolding getHyperbolicDistance_def Let_def
  by (simp add: angleBetween_sym abs_minus_commute mult.commute mult.left_commute conj_commute split: option.split)

lemma distance_unknown:
  "getHyperbolicDistance lsdb src dst = UNKNOWN_DISTANCE \<longleftrightarrow>
     (case (findCoordinateLsa (src @ [COR_TYPE]) lsdb, findCoordinateLsa (dst @ [COR_TYPE]) lsdb) of
        (Some a, Some b) \<Rightarrow> cl_corRad a = UNKNOWN_RADIUS \<and> cl_corRad b = UNKNOWN_RADIUS
      | _ \<Rightarrow> True)"
proof (cases "findCoordinateLsa (src @ [COR_TYPE]) lsdb")
  case (Some a)
  show ?thesis
  proof (cases "findCoordinateLsa (dst @ [COR_TYPE]) lsdb")
    case b: (Some b)
    have "\<not> (cl_corRad a = UNKNOWN_RADIUS \<and> cl_corRad b = UNKNOWN_RADIUS) \<Longrightarrow>
        getHyperbolicDistance lsdb src dst \<noteq> UNKNOWN_DISTANCE"
      using distance_nonneg [OF Some b] by (simp add: UNKNOWN_DISTANCE_def)
    moreover have "cl_corRad a = UNKNOWN_RADIUS \<and> cl_corRad b = UNKNOWN_RADIUS \<Longrightarrow>
        getHyperbolicDistance lsdb src dst = UNKNOWN_DISTANCE"
      using Some b by (simp add: getHyperbolicDistance_def Let_def)
    ultimately show ?thesis
      using Some b by auto
  qed (simp add: Some getHyperbolicDistance_def)
qed (simp add: getHyperbolicDistance_def)

section \<open>Which routes are added\<close>

definition usable :: "name \<Rightarrow> adjacent \<Rightarrow> bool" where
  "usable self a \<longleftrightarrow> ad_status a \<noteq> STATUS_INACTIVE \<and> ad_name a \<noteq> self"

definition hyp_hop :: "string \<Rightarrow> real \<Rightarrow> nexthop" where
  "hyp_hop uri c = \<lparr>nh_faceUri = uri, nh_cost = c, nh_hyperbolic = True\<rparr>"

definition far_routers :: "nat \<Rightarrow> name \<Rightarrow> router_map \<Rightarrow> cor_lsa list \<Rightarrow> adjacent \<Rightarrow> nat list" where
  "far_routers n self pm lsdb a = (if getMappingNoByRouterName (ad_name a) pm = ROUTER_NOT_FOUND then []
     else filter (\<lambda>d. int d \<noteq> getMappingNoByRouterName self pm \<and>
       int d \<noteq> getMappingNoByRouterName (ad_name a) pm \<and>
       getHyperbolicDistance lsdb (ad_name a) (getRouterNameByMappingNo (int d) pm) \<noteq> UNKNOWN_DISTANCE) [0..<n])"

definition hyp_hops :: "nat \<Rightarrow> name \<Rightarrow> router_map \<Rightarrow> cor_lsa list \<Rightarrow> adjacent \<Rightarrow> (name \<times> nexthop) list" where
  "hyp_hops n self pm lsdb a = (if usable self a then
     (ad_name a, hyp_hop (ad_faceUri a) 0) #
     map (\<lambda>d. (getRouterNameByMappingNo (int d) pm, hyp_hop (ad_faceUri a)
            (getHyperbolicDistance lsdb (ad_name a) (getRouterNameByMappingNo (int d) pm))))
       (far_routers n self pm lsdb a)
   else [])"

abbreviation hyp_add :: "bool \<Rightarrow> (name \<times> nexthop) list \<Rightarrow> routing_table \<Rightarrow> routing_table" where
  "hyp_add dry \<equiv> fold (\<lambda>h. hyp_addNextHop dry (fst h) (nh_faceUri (snd h)) (nh_cost (snd h)))"

lemma fold_if: "fold (\<lambda>x s. if P x then f x s else s) xs s = fold f (filter P xs) s"
  by (induction xs arbitrary: s) simp_all

lemma hyp_neighbor_hops:
  "hyp_neighbor n dry self pm lsdb a rt = hyp_add dry (hyp_hops n self pm lsdb a) rt"
proof -
  have "(\<lambda>d rt. if int d \<noteq> s \<and> int d \<noteq> t then
          (let r = getRouterNameByMappingNo (int d) pm; c = getHyperbolicDistance lsdb (ad_name a) r
           in if c = UNKNOWN_DISTANCE then rt else hyp_addNextHop dry r (ad_faceUri a) c rt) else rt) =
      (\<lambda>d rt. if int d \<noteq> s \<and> int d \<noteq> t \<and>
          getHyperbolicDistance lsdb (ad_name a) (getRouterNameByMappingNo (int d) pm) \<noteq> UNKNOWN_DISTANCE
        then hyp_addNextHop dry (getRouterNameByMappingNo (int d) pm) (ad_faceUri a)
          (getHyperbolicDistance lsdb (ad_name a) (getRouterNameByMappingNo (int d) pm)) rt else rt)" for s t
    by (intro ext) (simp add: Let_def)
  then show ?thesis
    by (simp add: hyp_neighbor_def hyp_hops_def usable_def far_routers_def Let_def fold_if fold_map o_def hyp_hop_def)
qed

lemma calculatePaths_hops:
  "calculatePaths n dry self pm lsdb adl rt = hyp_add dry (concat (map (hyp_hops n self pm lsdb) adl)) rt"
  unfolding calculatePaths_def
  by (induction adl arbitrary: rt) (simp_all add: hyp_neighbor_hops)

lemma hyp_add_tables:
  assumes "\<forall>h\<in>set hs. nh_hyperbolic (snd h)"
  shows "hyp_add dry hs rt = (if dry then rt\<lparr>rt_dryTable := insertHops hs (rt_dryTable rt)\<rparr>
    else rt\<lparr>rt_table := insertHops hs (rt_table rt)\<rparr>)"
  using assms
proof (induction hs arbitrary: rt)
  case (Cons h hs)
  have hop: "\<lparr>nh_faceUri = nh_faceUri (snd h), nh_cost = nh_cost (snd h), nh_hyperbolic = True\<rparr> = snd h"
    using Cons.prems by (cases "snd h") simp
  with Cons show ?case
    by (simp add: hyp_addNextHop_def addNextHopToDryTable_def rt_addNextHop_def Let_def hop)
qed simp

lemma calculatePaths_tables:
  "calculatePaths n dry self pm lsdb adl rt =
    (let hs = concat (map (hyp_hops n self pm lsdb) adl)
     in if dry then rt\<lparr>rt_dryTable := insertHops hs (rt_dryTable rt)\<rparr>
        else rt\<lparr>rt_table := insertHops hs (rt_table rt)\<rparr>)"
proof -
  have "\<forall>h\<in>set (concat (map (hyp_hops n self pm lsdb) adl)). nh_hyperbolic (snd h)"
    by (auto simp: hyp_hops_def hyp_hop_def)
  then show ?thesis
    by (simp add: calculatePaths_hops hyp_add_tables Let_def)
qed

text \<open>The costs that are offered for a destination and a face.\<close>

definition hyp_offer ::
  "router_map \<Rightarrow> name \<Rightarrow> cor_lsa list \<Rightarrow> adjacency_list \<Rightarrow> name \<Rightarrow> string \<Rightarrow> real \<Rightarrow> bool" where
  "hyp_offer pm self lsdb adl r uri c \<longleftrightarrow> (\<exists>a\<in>set adl. usable self a \<and> ad_faceUri a = uri \<and>
     (ad_name a = r \<and> c = 0 \<or>
      r \<noteq> ad_name a \<and> r \<noteq> self \<and> getMappingNoByRouterName (ad_name a) pm \<noteq> -1 \<and>
      getMappingNoByRouterName r pm \<noteq> -1 \<and>
      c = getHyperbolicDistance lsdb (ad_name a) r \<and> c \<noteq> UNKNOWN_DISTANCE))"

lemma far_routers_iff:
  assumes pm: "rm_wf pm"
  shows "(\<exists>d\<in>set (far_routers (getMapSize pm) self pm lsdb a).
      getRouterNameByMappingNo (int d) pm = r \<and>
      getHyperbolicDistance lsdb (ad_name a) (getRouterNameByMappingNo (int d) pm) = c) \<longleftrightarrow>
    r \<noteq> ad_name a \<and> r \<noteq> self \<and> getMappingNoByRouterName (ad_name a) pm \<noteq> -1 \<and>
      getMappingNoByRouterName r pm \<noteq> -1 \<and>
      c = getHyperbolicDistance lsdb (ad_name a) r \<and> c \<noteq> UNKNOWN_DISTANCE"
  (is "?L \<longleftrightarrow> ?R")
proof
  assume ?L
  then obtain d where d: "d < getMapSize pm" "r = getRouterNameByMappingNo (int d) pm"
    "int d \<noteq> getMappingNoByRouterName self pm" "int d \<noteq> getMappingNoByRouterName (ad_name a) pm"
    "getMappingNoByRouterName (ad_name a) pm \<noteq> -1"
    "c = getHyperbolicDistance lsdb (ad_name a) r" "c \<noteq> UNKNOWN_DISTANCE"
    by (auto simp: far_routers_def ROUTER_NOT_FOUND_def split: if_splits)
  moreover have "getMappingNoByRouterName r pm = int d"
    using rm.number_name [OF pm, of "int d"] d(1,2) by simp
  ultimately show ?R by auto
next
  assume R: ?R
  then obtain d where d: "getMappingNoByRouterName r pm = int d" "d < getMapSize pm"
      "getRouterNameByMappingNo (int d) pm = r"
    using own_number [OF pm, of r] by blast
  have "int d \<noteq> getMappingNoByRouterName x pm" if "r \<noteq> x" for x
    using rm.number_inj [OF pm, of r x] d(1) that by auto
  with R d have "d \<in> set (far_routers (getMapSize pm) self pm lsdb a)"
    by (auto simp: far_routers_def ROUTER_NOT_FOUND_def)
  with d(3) R show ?L by blast
qed

lemma hyp_offer_hops:
  assumes "rm_wf pm"
  shows "(\<exists>h\<in>set (concat (map (hyp_hops (getMapSize pm) self pm lsdb) adl)).
      fst h = r \<and> nh_faceUri (snd h) = uri \<and> nh_cost (snd h) = c) \<longleftrightarrow> hyp_offer pm self lsdb adl r uri c"
proof -
  have "(\<exists>h\<in>set (hyp_hops (getMapSize pm) self pm lsdb a). fst h = r \<and> nh_faceUri (snd h) = uri \<and> nh_cost (snd h) = c) \<longleftrightarrow>
      usable self a \<and> ad_faceUri a = uri \<and> (ad_name a = r \<and> c = 0 \<or>
        (\<exists>d\<in>set (far_routers (getMapSize pm) self pm lsdb a).
          getRouterNameByMappingNo (int d) pm = r \<and>
          getHyperbolicDistance lsdb (ad_name a) (getRouterNameByMappingNo (int d) pm) = c))" for a
    by (cases "usable self a"; cases "ad_faceUri a = uri")
      (simp_all add: hyp_hops_def hyp_hop_def)
  moreover have "(\<exists>h\<in>set (concat (map f l)). P h) \<longleftrightarrow> (\<exists>a\<in>set l. \<exists>h\<in>set (f a). P h)"
    for f :: "adjacent \<Rightarrow> (name \<times> nexthop) list" and l P
    by auto
  ultimately show ?thesis
    by (simp only: hyp_offer_def far_routers_iff [OF assms, symmetric])
qed

end
