(* ===== verification/Statistics.thy ===== *)
theory Statistics
  imports Prelude
begin

text \<open>
  \<open>Statistics\<close> (src/src/statistics.hpp, statistics.cpp): a counter for each kind of packet.
  A kind that is not in the map counts 0.
\<close>

datatype packet_type =
    SENT_HELLO_INTEREST | SENT_HELLO_DATA | RCV_HELLO_INTEREST | RCV_HELLO_DATA
  | SENT_SYNC_INTEREST | SENT_SYNC_RECOVERY_INTEREST | SENT_SYNC_DATA | SENT_SYNC_RECOVERY_DATA
  | RCV_SYNC_INTEREST | RCV_SYNC_RECOVERY_INTEREST | RCV_SYNC_DATA | RCV_SYNC_RECOVERY_DATA
  | SENT_LSA_INTEREST | SENT_ADJ_LSA_INTEREST | SENT_COORD_LSA_INTEREST | SENT_NAME_LSA_INTEREST
  | SENT_ADJ_LSA_DATA | SENT_COORD_LSA_DATA | SENT_NAME_LSA_DATA
  | RCV_LSA_INTEREST | RCV_ADJ_LSA_INTEREST | RCV_COORD_LSA_INTEREST | RCV_NAME_LSA_INTEREST
  | RCV_ADJ_LSA_DATA | RCV_COORD_LSA_DATA | RCV_NAME_LSA_DATA

type_synonym statistics = "(packet_type \<times> int) list"

definition stats_get :: "packet_type \<Rightarrow> statistics \<Rightarrow> int" where
  "stats_get p s = (case find (\<lambda>e. fst e = p) s of Some e \<Rightarrow> snd e | None \<Rightarrow> 0)"

definition stats_increment :: "packet_type \<Rightarrow> statistics \<Rightarrow> statistics" where
  "stats_increment p s = (case find (\<lambda>e. fst e = p) s of
       Some _ \<Rightarrow> update_first (\<lambda>e. fst e = p) (\<lambda>(q, k). (q, k + 1)) s
     | None \<Rightarrow> s @ [(p, 1)])"

definition stats_resetAll :: "statistics \<Rightarrow> statistics" where
  "stats_resetAll s = map (\<lambda>(p, k). (p, 0)) s"

lemma stats_get_by_key: "stats_get p s = (case by_key fst p s of Some e \<Rightarrow> snd e | None \<Rightarrow> 0)"
  by (simp add: stats_get_def by_key_def)

lemma stats_get_increment:
  "stats_get q (stats_increment p s) = stats_get q s + (if q = p then 1 else 0)"
proof (cases "by_key fst p s")
  case None
  then show ?thesis
    by (auto simp: stats_get_by_key stats_increment_def by_key_append by_key_def [symmetric] split: option.split)
next
  case (Some e)
  have "fst (case e of (q, k) \<Rightarrow> (q, k + 1)) = fst e" for e :: "packet_type \<times> int"
    by (cases e) simp
  then show ?thesis
    using Some by (cases e)
      (auto simp: stats_get_by_key stats_increment_def by_key_update_first by_key_def [symmetric] split: option.split)
qed

lemma stats_get_reset: "stats_get p (stats_resetAll s) = 0"
  by (induction s) (auto simp: stats_resetAll_def stats_get_def)

end
