(* ===== verification/Nlsr_State.thy ===== *)
theory Nlsr_State
  imports Sequencing Npt Hyperbolic Name_Prefix_List Statistics
begin

text \<open>
  The state of the daemon: the components that an \<open>Nlsr\<close> object owns (src/src/nlsr.hpp) with
  the fields of its \<open>Lsdb\<close> and \<open>SyncLogicHandler\<close>, the access of the other components to
  it, and the route calculation (src/src/route/routing-table.cpp).

  A handler that an exception can leave returns a sum: \<open>Inl\<close> of the exception, which ends
  the event loop, or \<open>Inr\<close> of the new state.
\<close>

datatype exn =
    SyncSocketMissing    \<comment> \<open>\<open>SyncLogicHandler::Error\<close>\<close>
  | BadName              \<comment> \<open>the constructor of \<open>ndn::Name\<close> rejects a URI\<close>
  | BadNumber            \<comment> \<open>a component is not a number\<close>
  | BadBlock             \<comment> \<open>a component does not hold a name\<close>
  | PastTheEnd           \<comment> \<open>an iterator is dereferenced at its end\<close>
  | Stuck                \<comment> \<open>a loop does not end or an index is out of its array\<close>

record nlsr =
  n_conf :: conf
  n_adl :: adjacency_list
  n_npl :: name_prefix_list
  n_seq :: sequencing
  n_nameLsdb :: "name_lsa list"
  n_adjLsdb :: "adj_lsa list"
  n_corLsdb :: "cor_lsa list"
  n_lsaRefreshTime :: int
  n_thisRouterPrefix :: string
  n_highestSeqNo :: "name \<Rightarrow> 64 word option"
  n_adjLsaBuildInterval :: int
  n_lsdbSeqNo :: "64 word"
  n_adjBuildCount :: "64 word"
  n_isBuildAdjLsaSheduled :: bool
  n_isRouteCalculationScheduled :: bool
  n_isRoutingTableCalculating :: bool
  n_routingTable :: routing_table
  n_fib :: fib
  n_npt :: npt
  n_syncSocket :: bool
  n_syncPrefix :: name
  n_updatePrefix :: name
  n_firstHelloInterval :: "32 word"
  n_certStore :: "name \<Rightarrow> certificate option"
  n_isPrefixUpdateEnabled :: bool
  n_stats :: statistics
  n_io :: io

definition DEFAULT_BROADCAST_PREFIX :: name where
  "DEFAULT_BROADCAST_PREFIX = [''ndn'', ''broadcast'']"

definition on_io :: "(io \<Rightarrow> io) \<Rightarrow> nlsr \<Rightarrow> nlsr" where
  "on_io f st = st\<lparr>n_io := f (n_io st)\<rparr>"

definition after :: "int \<Rightarrow> event \<Rightarrow> nlsr \<Rightarrow> nlsr" where
  "after delay ev = on_io (\<lambda>s. snd (scheduleEvent delay ev s))"

definition stat :: "packet_type \<Rightarrow> nlsr \<Rightarrow> nlsr" where
  "stat p st = st\<lparr>n_stats := stats_increment p (n_stats st)\<rparr>"

definition with_tables :: "(npt \<times> fib \<times> io \<Rightarrow> npt \<times> fib \<times> io) \<Rightarrow> nlsr \<Rightarrow> nlsr" where
  "with_tables f st = (case f (n_npt st, n_fib st, n_io st) of
     (t, fb, s) \<Rightarrow> st\<lparr>n_npt := t, n_fib := fb, n_io := s\<rparr>)"

definition nptAdd :: "ndn_lib \<Rightarrow> name \<Rightarrow> name \<Rightarrow> nlsr \<Rightarrow> nlsr" where
  "nptAdd L n d st =
     with_tables (npt_addEntry L (n_conf st) (n_adl st) (rt_table (n_routingTable st)) n d) st"

definition nptRemove :: "ndn_lib \<Rightarrow> name \<Rightarrow> name \<Rightarrow> nlsr \<Rightarrow> nlsr" where
  "nptRemove L n d st =
     with_tables (npt_removeEntry L (n_conf st) (n_adl st) (rt_table (n_routingTable st)) n d) st"

definition self :: "nlsr \<Rightarrow> name" where
  "self st = cf_routerPrefix (n_conf st)"

text \<open>\<open>Nlsr::setStrategies\<close>.\<close>

definition multicast_strategy :: string where
  "multicast_strategy = ''ndn:/localhost/nfd/strategy/multicast''"

definition setStrategies :: "nlsr \<Rightarrow> nlsr" where
  "setStrategies st = on_io (\<lambda>s.
     fib_setStrategy (cf_chronosyncPrefix (n_conf st)) multicast_strategy 0
       (fib_setStrategy (DEFAULT_BROADCAST_PREFIX @ [''KEYS'']) multicast_strategy 0
         (fib_setStrategy (cf_lsaPrefix (n_conf st)) multicast_strategy 0 s))) st"

section \<open>Route calculation\<close>

definition scheduleRoutingTableCalculation :: "nlsr \<Rightarrow> nlsr" where
  "scheduleRoutingTableCalculation st =
     (if n_isRouteCalculationScheduled st \<noteq> True
      then (after (rt_calcInterval (n_routingTable st) * second) EvCalculate st)
             \<lparr>n_isRouteCalculationScheduled := True\<rparr>
      else st)"

definition nptUpdateWithNewRoute :: "ndn_lib \<Rightarrow> nlsr \<Rightarrow> nlsr" where
  "nptUpdateWithNewRoute L st =
     with_tables (updateWithNewRoute L (n_conf st) (n_adl st) (rt_table (n_routingTable st))) st"

definition clearRoutingTables :: "nlsr \<Rightarrow> nlsr" where
  "clearRoutingTables st =
     st\<lparr>n_routingTable := clearDryRoutingTable (clearRoutingTable (n_routingTable st))\<rparr>"

text \<open>The three calculations, by the state of hyperbolic routing.\<close>

definition runCalculations :: "nlsr \<Rightarrow> exn + nlsr" where
  "runCalculations st =
     (let hyp = cf_hyperbolicState (n_conf st) in
      and_then
        (if hyp = HYPERBOLIC_STATE_OFF \<or> hyp = HYPERBOLIC_STATE_DRY_RUN
         then and_then (require Stuck (calculateLsRoutingTable (n_conf st) (n_adjLsdb st) (n_adl st) (n_routingTable st)))
                (\<lambda>rt. Inr (st\<lparr>n_routingTable := rt\<rparr>))
         else Inr st)
        (\<lambda>st. let st = (if hyp = HYPERBOLIC_STATE_ON
                then st\<lparr>n_routingTable := calculateHypRoutingTable False (n_conf st) (n_adjLsdb st) (n_corLsdb st) (n_adl st) (n_routingTable st)\<rparr>
                else st)
         in Inr (if hyp = HYPERBOLIC_STATE_DRY_RUN
                then st\<lparr>n_routingTable := calculateHypRoutingTable True (n_conf st) (n_adjLsdb st) (n_corLsdb st) (n_adl st) (n_routingTable st)\<rparr>
                else st)))"

definition calculate :: "ndn_lib \<Rightarrow> nlsr \<Rightarrow> exn + nlsr" where
  "calculate L st =
     (if n_isRoutingTableCalculating st = False then
        let st = st\<lparr>n_isRoutingTableCalculating := True\<rparr> in
        and_then (require BadName (ofUri L (toUri L (self st) @ ''/'' @ ''adjacency''))) (\<lambda>key.
        and_then
          (if doesAdjLsaExist key (n_adjLsdb st) then
             if n_isBuildAdjLsaSheduled st \<noteq> True then
               and_then (runCalculations (clearRoutingTables st)) (\<lambda>st. Inr (nptUpdateWithNewRoute L st))
             else Inr st
           else Inr (nptUpdateWithNewRoute L (clearRoutingTables st)))
          (\<lambda>st. Inr (st\<lparr>n_isRouteCalculationScheduled := False, n_isRoutingTableCalculating := False\<rparr>)))
      else Inr (scheduleRoutingTableCalculation st))"

end
