(* ===== verification/Lsdb.thy ===== *)
theory Lsdb
  imports Nlsr_State Lsa_Text
begin

text \<open>
  \<open>Lsdb\<close> (src/src/lsdb.cpp): the link-state database. The operations on the three kinds of
  LSA, their expiration and refresh, the build of the router's own LSAs, and the exchange
  of LSAs with Interests and Data. The methods change the other components through the
  \<open>Nlsr\<close> object, which is the state here.
\<close>

definition LSDB_GRACE_PERIOD :: int where "LSDB_GRACE_PERIOD = 10"
definition SNAPSHOT_INTERVAL :: int where "SNAPSHOT_INTERVAL = 60"

text \<open>Every change of the database raises the number that datasets carry.\<close>

definition onLsdbChange :: "nlsr \<Rightarrow> nlsr" where
  "onLsdbChange st = st\<lparr>n_lsdbSeqNo := n_lsdbSeqNo st + 1\<rparr>"

definition logSeqNo :: "nlsr \<Rightarrow> nlsr" where
  "logSeqNo = after second EvLogSeqNo"

definition logSnapshot :: "nlsr \<Rightarrow> nlsr" where
  "logSnapshot = after (SNAPSHOT_INTERVAL * second) EvLogSnapshot"

definition doesLsaExist :: "name \<Rightarrow> string \<Rightarrow> nlsr \<Rightarrow> bool" where
  "doesLsaExist key lsType st =
     (if lsType = NAME_TYPE then doesNameLsaExist key (n_nameLsdb st)
      else if lsType = ADJ_TYPE then doesAdjLsaExist key (n_adjLsdb st)
      else if lsType = COR_TYPE then doesCoordinateLsaExist key (n_corLsdb st)
      else False)"

definition getLsaExpirationTimePoint :: "nlsr \<Rightarrow> time_point" where
  "getLsaExpirationTimePoint st =
     io_system_now (n_io st) + uint (cf_routerDeadInterval (n_conf st)) * second"

text \<open>The seconds until another router's LSA expires; the own ones are refreshed.\<close>

definition timeToExpire :: "nlsr \<Rightarrow> 'l lsa_scheme \<Rightarrow> int" where
  "timeToExpire st l = (if ls_origRouter l \<noteq> self st
     then to_seconds (ls_expiration l - io_system_now (n_io st)) else n_lsaRefreshTime st)"

text \<open>The sequence number passes through an \<open>int\<close> before the callback's \<open>uint64_t\<close>.\<close>

definition scheduleNameLsaExpiration :: "name \<Rightarrow> 32 word \<Rightarrow> int \<Rightarrow> nlsr \<Rightarrow> event_id \<times> nlsr" where
  "scheduleNameLsaExpiration key seqNo expTime st =
     (case scheduleEvent ((expTime + LSDB_GRACE_PERIOD) * second) (EvExpireName key (scast seqNo)) (n_io st) of
        (eid, s) \<Rightarrow> (eid, st\<lparr>n_io := s\<rparr>))"

definition scheduleAdjLsaExpiration :: "name \<Rightarrow> 32 word \<Rightarrow> int \<Rightarrow> nlsr \<Rightarrow> event_id \<times> nlsr" where
  "scheduleAdjLsaExpiration key seqNo expTime st =
     (case scheduleEvent ((expTime + LSDB_GRACE_PERIOD) * second) (EvExpireAdj key (scast seqNo)) (n_io st) of
        (eid, s) \<Rightarrow> (eid, st\<lparr>n_io := s\<rparr>))"

definition scheduleCoordinateLsaExpiration :: "name \<Rightarrow> 32 word \<Rightarrow> int \<Rightarrow> nlsr \<Rightarrow> event_id \<times> nlsr" where
  "scheduleCoordinateLsaExpiration key seqNo expTime st =
     (case scheduleEvent ((expTime + LSDB_GRACE_PERIOD) * second) (EvExpireCor key (scast seqNo)) (n_io st) of
        (eid, s) \<Rightarrow> (eid, st\<lparr>n_io := s\<rparr>))"

section \<open>Name LSAs\<close>

definition addNameLsa :: "name_lsa \<Rightarrow> nlsr \<Rightarrow> bool \<times> nlsr" where
  "addNameLsa l st = (case find (\<lambda>x. nameLsaKey x = nameLsaKey l) (n_nameLsdb st) of
       None \<Rightarrow> (True, onLsdbChange (st\<lparr>n_nameLsdb := n_nameLsdb st @ [l]\<rparr>))
     | Some _ \<Rightarrow> (False, st))"

definition putNameLsa :: "name_lsa \<Rightarrow> nlsr \<Rightarrow> nlsr" where
  "putNameLsa l st = st\<lparr>n_nameLsdb := update_first (\<lambda>x. nameLsaKey x = nameLsaKey l) (\<lambda>_. l) (n_nameLsdb st)\<rparr>"

definition nptAddNames :: "ndn_lib \<Rightarrow> name \<Rightarrow> name list \<Rightarrow> nlsr \<Rightarrow> nlsr" where
  "nptAddNames L origin ns st =
     fold (\<lambda>n st. if n \<noteq> self st then nptAdd L n origin st else st) ns st"

definition nptRemoveNames :: "ndn_lib \<Rightarrow> name \<Rightarrow> name list \<Rightarrow> nlsr \<Rightarrow> nlsr" where
  "nptRemoveNames L origin ns st =
     fold (\<lambda>n st. if n \<noteq> self st then nptRemove L n origin st else st) ns st"

definition installNewNameLsa :: "ndn_lib \<Rightarrow> name_lsa \<Rightarrow> nlsr \<Rightarrow> nlsr" where
  "installNewNameLsa L nlsa st =
     (let st = snd (addNameLsa nlsa st);
          st = (if ls_origRouter nlsa \<noteq> self st
                then nptAddNames L (ls_origRouter nlsa) (nl_npl nlsa)
                       (nptAdd L (ls_origRouter nlsa) (ls_origRouter nlsa) st)
                else st)
      in snd (scheduleNameLsaExpiration (nameLsaKey nlsa) (ls_seqNo nlsa) (timeToExpire st nlsa) st))"

text \<open>The names are compared as sorted ranges; the additions come before the removals.\<close>

definition updateNameLsa :: "ndn_lib \<Rightarrow> name_lsa \<Rightarrow> name_lsa \<Rightarrow> nlsr \<Rightarrow> nlsr" where
  "updateNameLsa L chk nlsa st =
     (let st = onLsdbChange st;
          chk = chk\<lparr>ls_seqNo := ls_seqNo nlsa, ls_expiration := ls_expiration nlsa,
                    nl_npl := npl_sort L (nl_npl chk)\<rparr>;
          names = npl_sort L (nl_npl nlsa);
          nameToAdd = set_difference (nameLess L) names (nl_npl chk);
          chk = fold addName nameToAdd chk;
          st = (if ls_origRouter nlsa \<noteq> self st then nptAddNames L (ls_origRouter nlsa) nameToAdd st else st);
          chk = chk\<lparr>nl_npl := npl_sort L (nl_npl chk)\<rparr>;
          nameToRemove = set_difference (nameLess L) (nl_npl chk) names;
          chk = fold removeName nameToRemove chk;
          st = (if ls_origRouter nlsa \<noteq> self st then nptRemoveNames L (ls_origRouter nlsa) nameToRemove st else st);
          ttl = timeToExpire st nlsa;
          st = on_io (cancelEvent (ls_event chk)) st;
          (eid, st) = scheduleNameLsaExpiration (nameLsaKey nlsa) (ls_seqNo nlsa) ttl st
      in putNameLsa (chk\<lparr>ls_event := eid\<rparr>) st)"

definition installNameLsa :: "ndn_lib \<Rightarrow> name_lsa \<Rightarrow> nlsr \<Rightarrow> nlsr" where
  "installNameLsa L nlsa st = (case findNameLsa (nameLsaKey nlsa) (n_nameLsdb st) of
       None \<Rightarrow> installNewNameLsa L nlsa st
     | Some chk \<Rightarrow> if ls_seqNo chk < ls_seqNo nlsa then updateNameLsa L chk nlsa st else st)"

definition removeNameLsa :: "ndn_lib \<Rightarrow> name \<Rightarrow> nlsr \<Rightarrow> bool \<times> nlsr" where
  "removeNameLsa L key st = (case find (\<lambda>x. nameLsaKey x = key) (n_nameLsdb st) of
       Some l \<Rightarrow>
         let st = (if ls_origRouter l \<noteq> self st
                   then nptRemoveNames L (ls_origRouter l) (nl_npl l)
                          (nptRemove L (ls_origRouter l) (ls_origRouter l) st)
                   else st)
         in (True, onLsdbChange (st\<lparr>n_nameLsdb := erase_first (\<lambda>x. nameLsaKey x = key) (n_nameLsdb st)\<rparr>))
     | None \<Rightarrow> (False, st))"

definition buildAndInstallOwnNameLsa :: "ndn_lib \<Rightarrow> nlsr \<Rightarrow> nlsr" where
  "buildAndInstallOwnNameLsa L st =
     (let l = mkNameLsa (self st) NAME_TYPE (ucast (sq_name (n_seq st) + 1)) (getLsaExpirationTimePoint st) (n_npl st)
      in installNameLsa L l (st\<lparr>n_seq := increaseNameLsaSeq (n_seq st)\<rparr>))"

section \<open>Coordinate LSAs\<close>

definition addCoordinateLsa :: "cor_lsa \<Rightarrow> nlsr \<Rightarrow> bool \<times> nlsr" where
  "addCoordinateLsa l st = (case find (\<lambda>x. corLsaKey x = corLsaKey l) (n_corLsdb st) of
       None \<Rightarrow> (True, onLsdbChange (st\<lparr>n_corLsdb := n_corLsdb st @ [l]\<rparr>))
     | Some _ \<Rightarrow> (False, st))"

definition putCoordinateLsa :: "cor_lsa \<Rightarrow> nlsr \<Rightarrow> nlsr" where
  "putCoordinateLsa l st = st\<lparr>n_corLsdb := update_first (\<lambda>x. corLsaKey x = corLsaKey l) (\<lambda>_. l) (n_corLsdb st)\<rparr>"

definition scheduleIfHyperbolic :: "nlsr \<Rightarrow> nlsr" where
  "scheduleIfHyperbolic st =
     (if cf_hyperbolicState (n_conf st) \<ge> HYPERBOLIC_STATE_ON then scheduleRoutingTableCalculation st else st)"

definition installNewCoordinateLsa :: "ndn_lib \<Rightarrow> cor_lsa \<Rightarrow> nlsr \<Rightarrow> nlsr" where
  "installNewCoordinateLsa L clsa st =
     (let st = snd (addCoordinateLsa clsa st);
          st = (if ls_origRouter clsa \<noteq> self st then nptAdd L (ls_origRouter clsa) (ls_origRouter clsa) st else st);
          st = scheduleIfHyperbolic st
      in snd (scheduleCoordinateLsaExpiration (corLsaKey clsa) (ls_seqNo clsa) (timeToExpire st clsa) st))"

definition updateCoordinateLsa :: "cor_lsa \<Rightarrow> cor_lsa \<Rightarrow> nlsr \<Rightarrow> nlsr" where
  "updateCoordinateLsa chk clsa st =
     (let st = onLsdbChange st;
          chk = chk\<lparr>ls_seqNo := ls_seqNo clsa, ls_expiration := ls_expiration clsa\<rparr>;
          (chk, st) = (if \<not> cor_isEqualContent chk clsa
             then (chk\<lparr>cl_corRad := cl_corRad clsa, cl_corTheta := cl_corTheta clsa\<rparr>, scheduleIfHyperbolic st)
             else (chk, st));
          ttl = timeToExpire st clsa;
          st = on_io (cancelEvent (ls_event chk)) st;
          (eid, st) = scheduleCoordinateLsaExpiration (corLsaKey clsa) (ls_seqNo clsa) ttl st
      in putCoordinateLsa (chk\<lparr>ls_event := eid\<rparr>) st)"

definition installCoordinateLsa :: "ndn_lib \<Rightarrow> cor_lsa \<Rightarrow> nlsr \<Rightarrow> nlsr" where
  "installCoordinateLsa L clsa st = (case findCoordinateLsa (corLsaKey clsa) (n_corLsdb st) of
       None \<Rightarrow> installNewCoordinateLsa L clsa st
     | Some chk \<Rightarrow> if ls_seqNo chk < ls_seqNo clsa then updateCoordinateLsa chk clsa st else st)"

definition removeCoordinateLsa :: "ndn_lib \<Rightarrow> name \<Rightarrow> nlsr \<Rightarrow> bool \<times> nlsr" where
  "removeCoordinateLsa L key st = (case find (\<lambda>x. corLsaKey x = key) (n_corLsdb st) of
       Some l \<Rightarrow>
         let st = (if ls_origRouter l \<noteq> self st then nptRemove L (ls_origRouter l) (ls_origRouter l) st else st)
         in (True, onLsdbChange (st\<lparr>n_corLsdb := erase_first (\<lambda>x. corLsaKey x = key) (n_corLsdb st)\<rparr>))
     | None \<Rightarrow> (False, st))"

definition buildAndInstallOwnCoordinateLsa :: "ndn_lib \<Rightarrow> nlsr \<Rightarrow> nlsr" where
  "buildAndInstallOwnCoordinateLsa L st =
     (let l = mkCoordinateLsa (self st) COR_TYPE (ucast (sq_cor (n_seq st) + 1)) (getLsaExpirationTimePoint st)
                (cf_corR (n_conf st)) (cf_corTheta (n_conf st))
      in installCoordinateLsa L l (st\<lparr>n_seq := increaseCorLsaSeq (n_seq st)\<rparr>))"

section \<open>Publishing\<close>

text \<open>\<open>SyncLogicHandler::publishRoutingUpdate\<close> (src/src/communication/sync-logic-handler.cpp).\<close>

definition publishSyncUpdate :: "ndn_lib \<Rightarrow> name \<Rightarrow> 64 word \<Rightarrow> nlsr \<Rightarrow> nlsr" where
  "publishSyncUpdate L updatePrefix seqNo = on_io (emit (SyncPublish (toUri L updatePrefix) seqNo))"

definition publishRoutingUpdate :: "ndn_lib \<Rightarrow> nlsr \<Rightarrow> exn + nlsr" where
  "publishRoutingUpdate L st =
     (if \<not> n_syncSocket st then Inl SyncSocketMissing
      else Inr (publishSyncUpdate L (n_updatePrefix st) (sq_combined (n_seq st))
                 (on_io (writeSeqNoToFile (n_seq st)) st)))"

section \<open>Adjacency LSAs\<close>

definition scheduleAdjLsaBuild :: "nlsr \<Rightarrow> nlsr" where
  "scheduleAdjLsaBuild st =
     (let st = st\<lparr>n_adjBuildCount := n_adjBuildCount st + 1\<rparr>
      in if n_isBuildAdjLsaSheduled st = False
         then (after (n_adjLsaBuildInterval st * second) EvBuildAdjLsa st)\<lparr>n_isBuildAdjLsaSheduled := True\<rparr>
         else st)"

definition addAdjLsa :: "adj_lsa \<Rightarrow> nlsr \<Rightarrow> bool \<times> nlsr" where
  "addAdjLsa l st = (case find (\<lambda>x. adjLsaKey x = adjLsaKey l) (n_adjLsdb st) of
       None \<Rightarrow> (True, onLsdbChange (st\<lparr>n_adjLsdb := n_adjLsdb st @ [l]\<rparr>))
     | Some _ \<Rightarrow> (False, st))"

definition putAdjLsa :: "adj_lsa \<Rightarrow> nlsr \<Rightarrow> nlsr" where
  "putAdjLsa l st = st\<lparr>n_adjLsdb := update_first (\<lambda>x. adjLsaKey x = adjLsaKey l) (\<lambda>_. l) (n_adjLsdb st)\<rparr>"

definition addNptEntries :: "ndn_lib \<Rightarrow> adj_lsa \<Rightarrow> nlsr \<Rightarrow> nlsr" where
  "addNptEntries L l st =
     (if ls_origRouter l \<noteq> self st then nptAdd L (ls_origRouter l) (ls_origRouter l) st else st)"

definition removeNptEntries :: "ndn_lib \<Rightarrow> adj_lsa \<Rightarrow> nlsr \<Rightarrow> nlsr" where
  "removeNptEntries L l st =
     (if ls_origRouter l \<noteq> self st then nptRemove L (ls_origRouter l) (ls_origRouter l) st else st)"

definition installNewAdjLsa :: "ndn_lib \<Rightarrow> adj_lsa \<Rightarrow> nlsr \<Rightarrow> nlsr" where
  "installNewAdjLsa L alsa st =
     (let st = snd (addAdjLsa alsa st);
          st = addNptEntries L alsa st;
          st = scheduleRoutingTableCalculation st
      in snd (scheduleAdjLsaExpiration (adjLsaKey alsa) (ls_seqNo alsa) (timeToExpire st alsa) st))"

definition updateAdjLsa :: "ndn_lib \<Rightarrow> adj_lsa \<Rightarrow> adj_lsa \<Rightarrow> nlsr \<Rightarrow> nlsr" where
  "updateAdjLsa L chk alsa st =
     (let st = onLsdbChange st;
          chk = chk\<lparr>ls_seqNo := ls_seqNo alsa, ls_expiration := ls_expiration alsa\<rparr>;
          (equal, chk, alsa) = adj_isEqualContent L chk alsa;
          (chk, st) = (if \<not> equal
             then (chk\<lparr>al_adl := addAdjacents (al_adl alsa) []\<rparr>, scheduleRoutingTableCalculation st)
             else (chk, st));
          ttl = timeToExpire st alsa;
          st = on_io (cancelEvent (ls_event chk)) st;
          (eid, st) = scheduleAdjLsaExpiration (adjLsaKey alsa) (ls_seqNo alsa) ttl st
      in putAdjLsa (chk\<lparr>ls_event := eid\<rparr>) st)"

definition installAdjLsa :: "ndn_lib \<Rightarrow> adj_lsa \<Rightarrow> nlsr \<Rightarrow> nlsr" where
  "installAdjLsa L alsa st = (case findAdjLsa (adjLsaKey alsa) (n_adjLsdb st) of
       None \<Rightarrow> installNewAdjLsa L alsa st
     | Some chk \<Rightarrow> if ls_seqNo chk < ls_seqNo alsa then updateAdjLsa L chk alsa st else st)"

definition buildAndInstallOwnAdjLsa :: "ndn_lib \<Rightarrow> nlsr \<Rightarrow> exn + nlsr" where
  "buildAndInstallOwnAdjLsa L st =
     (let l = mkAdjLsa (self st) ADJ_TYPE (ucast (sq_adj (n_seq st) + 1)) (getLsaExpirationTimePoint st)
                (of_int (getNumOfActiveNeighbor (n_adl st))) (n_adl st);
          st = st\<lparr>n_seq := increaseAdjLsaSeq (n_seq st)\<rparr>
      in and_then (publishRoutingUpdate L st) (\<lambda>st. Inr (installAdjLsa L l st)))"

definition removeAdjLsa :: "ndn_lib \<Rightarrow> name \<Rightarrow> nlsr \<Rightarrow> bool \<times> nlsr" where
  "removeAdjLsa L key st = (case find (\<lambda>x. adjLsaKey x = key) (n_adjLsdb st) of
       Some l \<Rightarrow>
         let st = removeNptEntries L l st
         in (True, onLsdbChange (st\<lparr>n_adjLsdb := erase_first (\<lambda>x. adjLsaKey x = key) (n_adjLsdb st)\<rparr>))
     | None \<Rightarrow> (False, st))"

text \<open>\<open>int adjBuildCount\<close> narrows the 64 bit counter.\<close>

definition buildAdjLsa :: "ndn_lib \<Rightarrow> nlsr \<Rightarrow> exn + nlsr" where
  "buildAdjLsa L st =
     (let st = st\<lparr>n_isBuildAdjLsaSheduled := False\<rparr> in
      if isAdjLsaBuildable (n_conf st) (n_adl st) then
        let adjBuildCount = (ucast (n_adjBuildCount st) :: 32 word) in
        if 0 <s adjBuildCount then
          and_then
            (if getNumOfActiveNeighbor (n_adl st) > 0 then buildAndInstallOwnAdjLsa L st
             else Inr (scheduleRoutingTableCalculation (snd (removeAdjLsa L (self st @ [ADJ_TYPE]) st))))
            (\<lambda>st. Inr (st\<lparr>n_adjBuildCount := n_adjBuildCount st - scast adjBuildCount\<rparr>))
        else Inr st
      else
        let schedulingTime = sint (cf_interestRetryNumber (n_conf st) * cf_interestResendTime (n_conf st))
        in Inr (after (schedulingTime * second) EvBuildAdjLsa (st\<lparr>n_isBuildAdjLsaSheduled := True\<rparr>)))"

section \<open>Expiration and refresh\<close>

text \<open>The origin is compared with a string, which a constructor turns into a name.\<close>

definition isOwnLsa :: "ndn_lib \<Rightarrow> 'l lsa_scheme \<Rightarrow> nlsr \<Rightarrow> exn + bool" where
  "isOwnLsa L l st = and_then (require BadName (ofUri L (n_thisRouterPrefix st))) (\<lambda>n. Inr (ls_origRouter l = n))"

definition refreshNameLsa :: "ndn_lib \<Rightarrow> name_lsa \<Rightarrow> nlsr \<Rightarrow> exn + nlsr" where
  "refreshNameLsa L l st =
     (let st = onLsdbChange st;
          l = l\<lparr>ls_seqNo := ls_seqNo l + 1\<rparr>;
          st = st\<lparr>n_seq := setNameLsaSeq (ucast (ls_seqNo l)) (n_seq st)\<rparr>;
          l = l\<lparr>ls_expiration := getLsaExpirationTimePoint st\<rparr>;
          (eid, st) = scheduleNameLsaExpiration (nameLsaKey l) (ls_seqNo l) (n_lsaRefreshTime st) st
      in publishRoutingUpdate L (putNameLsa (l\<lparr>ls_event := eid\<rparr>) st))"

definition exprireOrRefreshNameLsa :: "ndn_lib \<Rightarrow> name \<Rightarrow> 64 word \<Rightarrow> nlsr \<Rightarrow> exn + nlsr" where
  "exprireOrRefreshNameLsa L lsaKey seqNo st = (case findNameLsa lsaKey (n_nameLsdb st) of
       Some l \<Rightarrow>
         if ucast (ls_seqNo l) = seqNo then
           and_then (isOwnLsa L l st) (\<lambda>own.
             if own then refreshNameLsa L l st else Inr (snd (removeNameLsa L lsaKey st)))
         else Inr st
     | None \<Rightarrow> Inr st)"

definition refreshAdjLsa :: "ndn_lib \<Rightarrow> adj_lsa \<Rightarrow> nlsr \<Rightarrow> exn + nlsr" where
  "refreshAdjLsa L l st =
     (let st = onLsdbChange st;
          l = l\<lparr>ls_seqNo := ls_seqNo l + 1\<rparr>;
          st = st\<lparr>n_seq := setAdjLsaSeq (ucast (ls_seqNo l)) (n_seq st)\<rparr>;
          l = l\<lparr>ls_expiration := getLsaExpirationTimePoint st\<rparr>;
          (eid, st) = scheduleAdjLsaExpiration (adjLsaKey l) (ls_seqNo l) (n_lsaRefreshTime st) st
      in publishRoutingUpdate L (putAdjLsa (l\<lparr>ls_event := eid\<rparr>) st))"

definition exprireOrRefreshAdjLsa :: "ndn_lib \<Rightarrow> name \<Rightarrow> 64 word \<Rightarrow> nlsr \<Rightarrow> exn + nlsr" where
  "exprireOrRefreshAdjLsa L lsaKey seqNo st = (case findAdjLsa lsaKey (n_adjLsdb st) of
       Some l \<Rightarrow>
         if ucast (ls_seqNo l) = seqNo then
           and_then (and_then (isOwnLsa L l st) (\<lambda>own.
             if own then refreshAdjLsa L l st else Inr (snd (removeAdjLsa L lsaKey st))))
             (\<lambda>st. Inr (scheduleRoutingTableCalculation st))
         else Inr st
     | None \<Rightarrow> Inr st)"

definition refreshCoordinateLsa :: "ndn_lib \<Rightarrow> cor_lsa \<Rightarrow> nlsr \<Rightarrow> exn + nlsr" where
  "refreshCoordinateLsa L l st =
     (let st = onLsdbChange st;
          l = l\<lparr>ls_seqNo := ls_seqNo l + 1\<rparr>;
          st = st\<lparr>n_seq := setCorLsaSeq (ucast (ls_seqNo l)) (n_seq st)\<rparr>;
          l = l\<lparr>ls_expiration := getLsaExpirationTimePoint st\<rparr>;
          (eid, st) = scheduleCoordinateLsaExpiration (corLsaKey l) (ls_seqNo l) (n_lsaRefreshTime st) st
      in publishRoutingUpdate L (putCoordinateLsa (l\<lparr>ls_event := eid\<rparr>) st))"

definition exprireOrRefreshCoordinateLsa :: "ndn_lib \<Rightarrow> name \<Rightarrow> 64 word \<Rightarrow> nlsr \<Rightarrow> exn + nlsr" where
  "exprireOrRefreshCoordinateLsa L lsaKey seqNo st = (case findCoordinateLsa lsaKey (n_corLsdb st) of
       Some l \<Rightarrow>
         if ucast (ls_seqNo l) = seqNo then
           and_then (and_then (isOwnLsa L l st) (\<lambda>own.
             if own then refreshCoordinateLsa L l st else Inr (snd (removeCoordinateLsa L lsaKey st))))
             (\<lambda>st. Inr (scheduleIfHyperbolic st))
         else Inr st
     | None \<Rightarrow> Inr st)"

end
