(* ===== verification/Lsdb_Exchange.thy ===== *)
theory Lsdb_Exchange
  imports Lsdb
begin

text \<open>
  The exchange of LSAs (src/src/lsdb.cpp): Interests sent for the LSAs of other routers,
  Interests answered with an LSA of the database, and the LSAs that arrive, are validated
  and installed.
\<close>

definition DEFAULT_LSA_RETRIEVAL_DEADLINE :: time_point where
  "DEFAULT_LSA_RETRIEVAL_DEADLINE = - (2 ^ 63)"

definition LSA_COMPONENT :: string where "LSA_COMPONENT = ''LSA''"

text \<open>The length of the part of a name after \<open>pos\<close> less \<open>k\<close> components, as a \<open>size_t\<close>.\<close>

definition componentsAfter :: "name \<Rightarrow> int \<Rightarrow> int \<Rightarrow> nat" where
  "componentsAfter n pos k = unat (word_of_int (int (length n) - pos - k) :: 64 word)"

definition expressInterest :: "ndn_lib \<Rightarrow> name \<Rightarrow> 32 word \<Rightarrow> time_point \<Rightarrow> nlsr \<Rightarrow> exn + nlsr" where
  "expressInterest L interestName timeoutCount deadline st =
     (let deadline = (if deadline = DEFAULT_LSA_RETRIEVAL_DEADLINE
                      then io_steady_now (n_io st) + int LSA_REFRESH_TIME_MAX * second else deadline);
          lsaName = getSubName L interestName 0 (length interestName - 1)
      in and_then (require BadNumber (compNumber L (compAt L interestName (-1)))) (\<lambda>seqNo.
        let (stale, st) = (case n_highestSeqNo st lsaName of
              None \<Rightarrow> (False, st\<lparr>n_highestSeqNo := (n_highestSeqNo st)(lsaName \<mapsto> seqNo)\<rparr>)
            | Some h \<Rightarrow>
                if seqNo > h then (False, st\<lparr>n_highestSeqNo := (n_highestSeqNo st)(lsaName \<mapsto> seqNo)\<rparr>)
                else (seqNo < h, st))
        in if stale then Inr st
           else
             let st = on_io (emit (LsaInterest interestName (cf_lsaInterestLifetime (n_conf st) * second)
                        timeoutCount deadline lsaName seqNo)) st;
                 typeLSA = compToUri L (compAt L interestName (-2));
                 st = (if typeLSA = NAME_TYPE then stat SENT_NAME_LSA_INTEREST st
                       else if typeLSA = ADJ_TYPE then stat SENT_ADJ_LSA_INTEREST st
                       else if typeLSA = COR_TYPE then stat SENT_COORD_LSA_INTEREST st
                       else st)
             in Inr (stat SENT_LSA_INTEREST st)))"

section \<open>Answering\<close>

definition putLsaData :: "name \<Rightarrow> string \<Rightarrow> nlsr \<Rightarrow> nlsr" where
  "putLsaData interestName content st = on_io (emit (LsaData interestName (n_lsaRefreshTime st * second) content)) st"

definition processInterestForNameLsa :: "ndn_lib \<Rightarrow> name \<Rightarrow> name \<Rightarrow> 64 word \<Rightarrow> nlsr \<Rightarrow> nlsr" where
  "processInterestForNameLsa L interestName lsaKey seqNo st = (case findNameLsa lsaKey (n_nameLsdb st) of
       Some l \<Rightarrow> if ucast (ls_seqNo l) = seqNo
         then stat SENT_NAME_LSA_DATA (putLsaData interestName (name_getData L l) st) else st
     | None \<Rightarrow> st)"

definition processInterestForAdjacencyLsa :: "ndn_lib \<Rightarrow> name \<Rightarrow> name \<Rightarrow> 64 word \<Rightarrow> nlsr \<Rightarrow> nlsr" where
  "processInterestForAdjacencyLsa L interestName lsaKey seqNo st = (case findAdjLsa lsaKey (n_adjLsdb st) of
       Some l \<Rightarrow> if ucast (ls_seqNo l) = seqNo
         then stat SENT_ADJ_LSA_DATA (putLsaData interestName (adj_getData L l) st) else st
     | None \<Rightarrow> st)"

definition processInterestForCoordinateLsa :: "ndn_lib \<Rightarrow> name \<Rightarrow> name \<Rightarrow> 64 word \<Rightarrow> nlsr \<Rightarrow> nlsr" where
  "processInterestForCoordinateLsa L interestName lsaKey seqNo st = (case findCoordinateLsa lsaKey (n_corLsdb st) of
       Some l \<Rightarrow> if ucast (ls_seqNo l) = seqNo
         then stat SENT_COORD_LSA_DATA (putLsaData interestName (cor_getData L l) st) else st
     | None \<Rightarrow> st)"

definition processInterest :: "ndn_lib \<Rightarrow> name \<Rightarrow> nlsr \<Rightarrow> exn + nlsr" where
  "processInterest L interestName st =
     (let st = stat RCV_LSA_INTEREST st;
          lsaPosition = getNameComponentPosition interestName LSA_COMPONENT
      in if lsaPosition \<ge> 0 then
           let originRouter = cf_network (n_conf st) @
                 getSubName L interestName (nat (lsaPosition + 1)) (componentsAfter interestName lsaPosition 3)
           in and_then (require BadNumber (compNumber L (compAt L interestName (-1)))) (\<lambda>seqNo.
             let interestedLsType = compToUri L (compAt L interestName (-2));
                 lsaKey = originRouter @ [interestedLsType]
             in Inr (if interestedLsType = NAME_TYPE
                  then stat RCV_NAME_LSA_INTEREST (processInterestForNameLsa L interestName lsaKey seqNo st)
                else if interestedLsType = ADJ_TYPE
                  then stat RCV_ADJ_LSA_INTEREST (processInterestForAdjacencyLsa L interestName lsaKey seqNo st)
                else if interestedLsType = COR_TYPE
                  then stat RCV_COORD_LSA_INTEREST (processInterestForCoordinateLsa L interestName lsaKey seqNo st)
                else st))
         else Inr st)"

section \<open>Receiving\<close>

definition onContent :: "data_packet \<Rightarrow> time_point \<Rightarrow> name \<Rightarrow> 64 word \<Rightarrow> nlsr \<Rightarrow> nlsr" where
  "onContent data deadline lsaName seqNo = on_io (emit (ValidateLsa data deadline lsaName seqNo))"

definition retryContentValidation :: "data_packet \<Rightarrow> time_point \<Rightarrow> name \<Rightarrow> 64 word \<Rightarrow> nlsr \<Rightarrow> nlsr" where
  "retryContentValidation data deadline lsaName seqNo = on_io (emit (ValidateLsa data deadline lsaName seqNo))"

definition install_parsed :: "'l parsed \<Rightarrow> ('l \<Rightarrow> nlsr) \<Rightarrow> nlsr \<Rightarrow> exn + nlsr" where
  "install_parsed r install st = (case r of
       Parsed l \<Rightarrow> Inr (install l)
     | Rejected \<Rightarrow> Inr st
     | Thrown \<Rightarrow> Inl BadName
     | IteratorAtEnd \<Rightarrow> Inl PastTheEnd)"

definition processContentNameLsa :: "ndn_lib \<Rightarrow> name \<Rightarrow> 64 word \<Rightarrow> string \<Rightarrow> nlsr \<Rightarrow> exn + nlsr" where
  "processContentNameLsa L lsaKey lsSeqNo dataContent st =
     (if isNameLsaNew lsaKey lsSeqNo (n_nameLsdb st)
      then install_parsed (name_initializeFromContent L dataContent) (\<lambda>l. installNameLsa L l st) st
      else Inr st)"

definition processContentAdjacencyLsa :: "ndn_lib \<Rightarrow> name \<Rightarrow> 64 word \<Rightarrow> string \<Rightarrow> nlsr \<Rightarrow> exn + nlsr" where
  "processContentAdjacencyLsa L lsaKey lsSeqNo dataContent st =
     (if isAdjLsaNew lsaKey lsSeqNo (n_adjLsdb st)
      then install_parsed (adj_initializeFromContent L dataContent) (\<lambda>l. installAdjLsa L l st) st
      else Inr st)"

definition processContentCoordinateLsa :: "ndn_lib \<Rightarrow> name \<Rightarrow> 64 word \<Rightarrow> string \<Rightarrow> nlsr \<Rightarrow> exn + nlsr" where
  "processContentCoordinateLsa L lsaKey lsSeqNo dataContent st =
     (if isCoordinateLsaNew lsaKey lsSeqNo (n_corLsdb st)
      then install_parsed (cor_initializeFromContent L dataContent) (\<lambda>l. installCoordinateLsa L l st) st
      else Inr st)"

text \<open>
  The content is read as a C string: up to a byte 0, which may lie in the memory after the
  packet. \<open>beyond\<close> is what this memory holds up to the byte 0.
\<close>

definition c_string :: "string \<Rightarrow> string \<Rightarrow> string" where
  "c_string content beyond = takeWhile (\<lambda>ch. ch \<noteq> char_of (0 :: nat)) (content @ beyond)"

definition onContentValidated :: "ndn_lib \<Rightarrow> string \<Rightarrow> data_packet \<Rightarrow> nlsr \<Rightarrow> exn + nlsr" where
  "onContentValidated L beyond data st =
     (let dataName = data_name data;
          lsaPosition = getNameComponentPosition dataName LSA_COMPONENT
      in if lsaPosition \<ge> 0 then
           let originRouter = cf_network (n_conf st) @
                 getSubName L dataName (nat (lsaPosition + 1)) (componentsAfter dataName lsaPosition 4)
           in and_then (require BadNumber (compNumber L (compAt L dataName (-2)))) (\<lambda>seqNo.
             let dataContent = c_string (data_content data) beyond;
                 interestedLsType = compToUri L (compAt L dataName (-3));
                 lsaKey = originRouter @ [interestedLsType]
             in if interestedLsType = NAME_TYPE
                  then and_then (processContentNameLsa L lsaKey seqNo dataContent st) (\<lambda>st. Inr (stat RCV_NAME_LSA_DATA st))
                else if interestedLsType = ADJ_TYPE
                  then and_then (processContentAdjacencyLsa L lsaKey seqNo dataContent st) (\<lambda>st. Inr (stat RCV_ADJ_LSA_DATA st))
                else if interestedLsType = COR_TYPE
                  then and_then (processContentCoordinateLsa L lsaKey seqNo dataContent st) (\<lambda>st. Inr (stat RCV_COORD_LSA_DATA st))
                else Inr st)
         else Inr st)"

definition onContentValidationFailed :: "data_packet \<Rightarrow> time_point \<Rightarrow> name \<Rightarrow> 64 word \<Rightarrow> nlsr \<Rightarrow> nlsr" where
  "onContentValidationFailed data deadline lsaName seqNo st =
     (let lifetime = cf_lsaInterestLifetime (n_conf st) * second in
      if io_steady_now (n_io st) + lifetime < deadline \<and> n_highestSeqNo st lsaName = Some seqNo
      then after lifetime (EvRetryValidation data deadline lsaName seqNo) st
      else st)"

definition processInterestTimedOut ::
  "ndn_lib \<Rightarrow> name \<Rightarrow> 32 word \<Rightarrow> time_point \<Rightarrow> name \<Rightarrow> 64 word \<Rightarrow> nlsr \<Rightarrow> exn + nlsr" where
  "processInterestTimedOut L interestName retransmitNo deadline lsaName seqNo st =
     (if io_steady_now (n_io st) < deadline \<and> n_highestSeqNo st lsaName = Some seqNo
      then expressInterest L interestName (retransmitNo + 1) deadline st
      else Inr st)"

end
