(* ===== verification/Sync_Handler.thy ===== *)
theory Sync_Handler
  imports Lsdb_Exchange
begin

text \<open>
  \<open>SyncLogicHandler\<close> (src/src/communication/sync-logic-handler.cpp): what is done with the
  sequence numbers that the sync protocol announces, and the socket own numbers are
  published on. The protocol itself is behind the socket.
\<close>

record sync_update =
  su_name :: name
  su_seqManager :: sequencing

definition sync_update_of :: "name \<Rightarrow> 64 word \<Rightarrow> sync_update" where
  "sync_update_of n seqNo = \<lparr>su_name = n, su_seqManager = sequencing_of seqNo\<rparr>"

definition NLSR_COMPONENT :: string where "NLSR_COMPONENT = ''NLSR''"

text \<open>\<open>None\<close>: the exception for a name without the expected components.\<close>

definition getOriginRouter :: "ndn_lib \<Rightarrow> sync_update \<Rightarrow> name option" where
  "getOriginRouter L u =
     (let n = su_name u;
          nlsrPosition = getNameComponentPosition n NLSR_COMPONENT;
          lsaPosition = getNameComponentPosition n LSA_COMPONENT
      in if nlsrPosition < 0 \<or> lsaPosition < 0 then None
         else Some (getSubName L n 0 (nat nlsrPosition) @
                    getSubName L n (nat (lsaPosition + 1)) (length n - nat (lsaPosition + 1))))"

definition isLsaNew :: "name \<Rightarrow> string \<Rightarrow> 64 word \<Rightarrow> nlsr \<Rightarrow> bool" where
  "isLsaNew originRouter lsaType seqNo st =
     (let lsaKey = originRouter @ [lsaType] in
      if lsaType = NAME_TYPE then isNameLsaNew lsaKey seqNo (n_nameLsdb st)
      else if lsaType = ADJ_TYPE then isAdjLsaNew lsaKey seqNo (n_adjLsdb st)
      else if lsaType = COR_TYPE then isCoordinateLsaNew lsaKey seqNo (n_corLsdb st)
      else False)"

definition expressInterestForLsa :: "ndn_lib \<Rightarrow> sync_update \<Rightarrow> string \<Rightarrow> 64 word \<Rightarrow> nlsr \<Rightarrow> exn + nlsr" where
  "expressInterestForLsa L u lsaType seqNo =
     expressInterest L (su_name u @ [lsaType, numberComp L seqNo]) 0 DEFAULT_LSA_RETRIEVAL_DEADLINE"

text \<open>
  An exception of one of the three requests is caught and ends the handler; a request that
  raises one has changed nothing before.
\<close>

fun until_exception :: "(nlsr \<Rightarrow> exn + nlsr) list \<Rightarrow> nlsr \<Rightarrow> nlsr" where
  "until_exception [] st = st"
| "until_exception (f # fs) st = (case f st of
       Inl _ \<Rightarrow> st
     | Inr st' \<Rightarrow> until_exception fs st')"

definition request_if_new :: "ndn_lib \<Rightarrow> sync_update \<Rightarrow> name \<Rightarrow> string \<Rightarrow> 64 word \<Rightarrow> nlsr \<Rightarrow> exn + nlsr" where
  "request_if_new L u originRouter lsaType seqNo st =
     (if isLsaNew originRouter lsaType seqNo st then expressInterestForLsa L u lsaType seqNo st else Inr st)"

definition processUpdateFromSync :: "ndn_lib \<Rightarrow> sync_update \<Rightarrow> nlsr \<Rightarrow> nlsr" where
  "processUpdateFromSync L u st = (case getOriginRouter L u of
       None \<Rightarrow> st
     | Some originRouter \<Rightarrow>
         if originRouter \<noteq> self st then
           until_exception
             [request_if_new L u originRouter NAME_TYPE (sq_name (su_seqManager u)),
              request_if_new L u originRouter ADJ_TYPE (sq_adj (su_seqManager u)),
              request_if_new L u originRouter COR_TYPE (sq_cor (su_seqManager u))] st
         else st)"

text \<open>The updates come as pairs of a prefix, a string, and the highest number known for it.\<close>

fun onNsyncUpdate :: "ndn_lib \<Rightarrow> (string \<times> 64 word) list \<Rightarrow> nlsr \<Rightarrow> exn + nlsr" where
  "onNsyncUpdate L [] st = Inr st"
| "onNsyncUpdate L ((prefix, seqNo) # v) st =
     and_then (require BadName (ofUri L prefix)) (\<lambda>n.
       onNsyncUpdate L v (processUpdateFromSync L (sync_update_of n seqNo) st))"

definition buildUpdatePrefix :: "nlsr \<Rightarrow> nlsr" where
  "buildUpdatePrefix st = st\<lparr>n_updatePrefix :=
     cf_lsaPrefix (n_conf st) @ cf_siteName (n_conf st) @ cf_routerName (n_conf st)\<rparr>"

definition createSyncSocket :: "name \<Rightarrow> nlsr \<Rightarrow> nlsr" where
  "createSyncSocket syncPrefix st =
     (if n_syncSocket st then st
      else (buildUpdatePrefix (st\<lparr>n_syncPrefix := syncPrefix\<rparr>))\<lparr>n_syncSocket := True\<rparr>)"

end
