(* ===== verification/Hello.thy ===== *)
theory Hello
  imports Sync_Handler
begin

text \<open>
  \<open>HelloProtocol\<close> (src/src/hello-protocol.cpp): Interests that check whether a neighbor is
  alive, the answers to those of the neighbors, and what both say about the status of a
  neighbor.
\<close>

definition INFO_COMPONENT :: string where "INFO_COMPONENT = ''INFO''"

definition max_milliseconds :: int where "max_milliseconds = 2 ^ 63 - 1"

definition hello_expressInterest :: "name \<Rightarrow> 32 word \<Rightarrow> nlsr \<Rightarrow> nlsr" where
  "hello_expressInterest interestName seconds st =
     stat SENT_HELLO_INTEREST (on_io (emit (HelloInterest interestName seconds)) st)"

text \<open>The name of the Interest for a neighbor: \<open>/<neighbor>/NLSR/INFO/<router>\<close>.\<close>

definition infoName :: "ndn_lib \<Rightarrow> name \<Rightarrow> nlsr \<Rightarrow> name" where
  "infoName L neighbor st = neighbor @ [NLSR_COMPONENT, INFO_COMPONENT, nameBlock L (self st)]"

definition sayHello :: "ndn_lib \<Rightarrow> name \<Rightarrow> nlsr \<Rightarrow> nlsr" where
  "sayHello L neighbor st =
     hello_expressInterest (infoName L neighbor st) (cf_interestResendTime (n_conf st)) st"

definition registerPrefixes :: "ndn_lib \<Rightarrow> name \<Rightarrow> string \<Rightarrow> 64 word \<Rightarrow> int \<Rightarrow> nlsr \<Rightarrow> nlsr" where
  "registerPrefixes L adjName faceUri linkCost timeout =
     on_io (registerPrefixOnNewFace adjName faceUri linkCost timeout (routeFlagCapture L) 0 (CbHello adjName timeout))"

definition scheduleInterest :: "32 word \<Rightarrow> nlsr \<Rightarrow> nlsr" where
  "scheduleInterest seconds = after (int (unat seconds) * second) (EvHello seconds)"

definition contactNeighbor :: "ndn_lib \<Rightarrow> adjacent \<Rightarrow> nlsr \<Rightarrow> nlsr" where
  "contactNeighbor L a st =
     (if ad_faceId a \<noteq> 0 then sayHello L (ad_name a) st
      else registerPrefixes L (ad_name a) (ad_faceUri a) (getLinkCost a) max_milliseconds st)"

text \<open>The argument is not used.\<close>

definition sendScheduledInterest :: "ndn_lib \<Rightarrow> 32 word \<Rightarrow> nlsr \<Rightarrow> nlsr" where
  "sendScheduledInterest L seconds st =
     (let st = fold (contactNeighbor L) (n_adl st) st
      in scheduleInterest (cf_infoInterestInterval (n_conf st)) st)"

definition hello_processInterest :: "ndn_lib \<Rightarrow> name \<Rightarrow> nlsr \<Rightarrow> exn + nlsr" where
  "hello_processInterest L interestName st =
     (if compToUri L (compAt L interestName (-2)) \<noteq> INFO_COMPONENT then Inr st
      else
        let st = stat RCV_HELLO_INTEREST st
        in and_then (require BadBlock (blockName L (compAt L interestName (-1)))) (\<lambda>neighbor.
             Inr (if isNeighbor neighbor (n_adl st) then
                    let st = stat SENT_HELLO_DATA (on_io (emit (HelloData interestName INFO_COMPONENT)) st)
                    in case adl_find neighbor (n_adl st) of
                         Some a \<Rightarrow> if ad_status a = STATUS_INACTIVE then contactNeighbor L a st else st
                       | None \<Rightarrow> st
                  else st)))"

definition hello_processInterestTimedOut :: "ndn_lib \<Rightarrow> name \<Rightarrow> nlsr \<Rightarrow> nlsr" where
  "hello_processInterestTimedOut L interestName st =
     (if compToUri L (compAt L interestName (-2)) \<noteq> INFO_COMPONENT then st
      else
        let neighbor = getPrefix L interestName (-3);
            st = st\<lparr>n_adl := incrementTimedOutInterestCount neighbor (n_adl st)\<rparr>;
            status = getStatusOfNeighbor neighbor (n_adl st);
            infoIntTimedOutCount = getTimedOutInterestCount neighbor (n_adl st)
        in if infoIntTimedOutCount < cf_interestRetryNumber (n_conf st) then sayHello L neighbor st
           else if status = STATUS_ACTIVE \<and> infoIntTimedOutCount = cf_interestRetryNumber (n_conf st)
             then scheduleAdjLsaBuild (st\<lparr>n_adl := setStatusOfNeighbor neighbor STATUS_INACTIVE (n_adl st)\<rparr>)
           else st)"

definition hello_onContent :: "data_packet \<Rightarrow> nlsr \<Rightarrow> nlsr" where
  "hello_onContent data = on_io (emit (ValidateHello data))"

definition hello_onContentValidated :: "ndn_lib \<Rightarrow> data_packet \<Rightarrow> nlsr \<Rightarrow> nlsr" where
  "hello_onContentValidated L data st =
     (let dataName = data_name data;
          st = (if compToUri L (compAt L dataName (-3)) = INFO_COMPONENT then
                  let neighbor = getPrefix L dataName (-4);
                      oldStatus = getStatusOfNeighbor neighbor (n_adl st);
                      st = st\<lparr>n_adl := setTimedOutInterestCount neighbor 0
                                        (setStatusOfNeighbor neighbor STATUS_ACTIVE (n_adl st))\<rparr>;
                      newStatus = getStatusOfNeighbor neighbor (n_adl st)
                  in if oldStatus \<noteq> newStatus then scheduleAdjLsaBuild st else st
                else st)
      in stat RCV_HELLO_DATA st)"

text \<open>The neighbor's face exists and its prefix is registered: register the shared prefixes.\<close>

definition registerShared :: "ndn_lib \<Rightarrow> adjacent \<Rightarrow> int \<Rightarrow> name \<Rightarrow> nlsr \<Rightarrow> nlsr" where
  "registerShared L a timeout n st = on_io
     (registerPrefix (n_adl st) n (ad_faceUri a) (getLinkCost a) timeout (routeFlagCapture L) 0) st"

definition onRegistrationSuccess :: "ndn_lib \<Rightarrow> 64 word \<Rightarrow> name \<Rightarrow> int \<Rightarrow> nlsr \<Rightarrow> nlsr" where
  "onRegistrationSuccess L faceId neighbor timeout st = (case adl_find neighbor (n_adl st) of
       Some a \<Rightarrow>
         let st = st\<lparr>n_adl := adl_update neighbor (\<lambda>a. a\<lparr>ad_faceId := faceId\<rparr>) (n_adl st)\<rparr>;
             st = registerShared L a timeout (cf_chronosyncPrefix (n_conf st)) st;
             st = registerShared L a timeout (cf_lsaPrefix (n_conf st)) st;
             st = registerShared L a timeout (DEFAULT_BROADCAST_PREFIX @ [''KEYS'']) st
         in sayHello L neighbor (setStrategies st)
     | None \<Rightarrow> st)"

definition hello_onRegistrationFailure :: "name \<Rightarrow> nlsr \<Rightarrow> nlsr" where
  "hello_onRegistrationFailure n st = (case adl_find n (n_adl st) of
       Some a \<Rightarrow>
         let st = st\<lparr>n_adl := adl_update n (\<lambda>a. a\<lparr>ad_timedOut := ad_timedOut a + 1\<rparr>) (n_adl st)\<rparr>;
             infoIntTimedOutCount = ad_timedOut a + 1
         in if infoIntTimedOutCount = cf_interestRetryNumber (n_conf st) then
              scheduleAdjLsaBuild
                (if ad_status a = STATUS_ACTIVE
                 then st\<lparr>n_adl := adl_update n (\<lambda>a. a\<lparr>ad_status := STATUS_INACTIVE\<rparr>) (n_adl st)\<rparr>
                 else st)
            else st
     | None \<Rightarrow> st)"

end
