(* ===== verification/Prefix_Update.thy ===== *)
theory Prefix_Update
  imports Lsdb
begin

text \<open>
  \<open>PrefixUpdateProcessor\<close> (src/src/update/prefix-update-processor.cpp): the commands of a
  local operator that advertise and withdraw a name prefix. How a command's parameters are
  decoded is an argument: the fields of \<open>ndn::nfd::ControlParameters\<close> that are present.
\<close>

record parameters =
  p_name :: "name option"
  p_others :: bool   \<comment> \<open>a field other than the name is present\<close>

definition ADVERTISE_VERB :: component where "ADVERTISE_VERB = ''advertise''"
definition WITHDRAW_VERB :: component where "WITHDRAW_VERB = ''withdraw''"

definition COMMAND_PREFIX :: name where
  "COMMAND_PREFIX = [''localhost'', ''nlsr'', ''prefix-update'']"

definition sendResponse :: "32 word \<Rightarrow> string \<Rightarrow> nlsr \<Rightarrow> nlsr" where
  "sendResponse code txt = on_io (emit (CommandResponse code txt))"

definition sendNack :: "nlsr \<Rightarrow> nlsr" where
  "sendNack = on_io (emit CommandNack)"

definition startListening :: "nlsr \<Rightarrow> nlsr" where
  "startListening = on_io (emit (InterestFilter COMMAND_PREFIX))"

definition enable :: "nlsr \<Rightarrow> nlsr" where
  "enable st = st\<lparr>n_isPrefixUpdateEnabled := True\<rparr>"

definition onInterest :: "name \<Rightarrow> nlsr \<Rightarrow> nlsr" where
  "onInterest request st =
     (if \<not> n_isPrefixUpdateEnabled st then sendNack st
      else on_io (emit (ValidateCommand request)) st)"

text \<open>Both commands require the name and allow no other field.\<close>

definition validateParameters :: "parameters \<Rightarrow> bool" where
  "validateParameters ps \<longleftrightarrow> p_name ps \<noteq> None \<and> \<not> p_others ps"

definition changePrefixes ::
  "ndn_lib \<Rightarrow> (name \<Rightarrow> name_prefix_list \<Rightarrow> bool \<times> name_prefix_list) \<Rightarrow> parameters \<Rightarrow> nlsr \<Rightarrow> exn + nlsr" where
  "changePrefixes L change ps st =
     (if \<not> validateParameters ps then Inr (sendResponse 400 ''Malformed command'' st)
      else case change (the (p_name ps)) (n_npl st) of
        (changed, npl) \<Rightarrow>
          if changed then publishRoutingUpdate L (buildAndInstallOwnNameLsa L (st\<lparr>n_npl := npl\<rparr>))
          else Inr (st\<lparr>n_npl := npl\<rparr>))"

definition advertise :: "ndn_lib \<Rightarrow> parameters \<Rightarrow> nlsr \<Rightarrow> exn + nlsr" where
  "advertise L = changePrefixes L npl_insert"

definition withdraw :: "ndn_lib \<Rightarrow> parameters \<Rightarrow> nlsr \<Rightarrow> exn + nlsr" where
  "withdraw L = changePrefixes L npl_remove"

definition onCommandValidated ::
  "ndn_lib \<Rightarrow> (component \<Rightarrow> parameters option) \<Rightarrow> name \<Rightarrow> nlsr \<Rightarrow> exn + nlsr" where
  "onCommandValidated L extractParameters command st =
     (let verb = compAt L command (int (length COMMAND_PREFIX));
          parameterComponent = compAt L command (int (length COMMAND_PREFIX) + 1)
      in if verb = ADVERTISE_VERB \<or> verb = WITHDRAW_VERB then
           case extractParameters parameterComponent of
             None \<Rightarrow> Inr (sendResponse 400 ''Malformed command'' st)
           | Some ps \<Rightarrow>
               and_then (if verb = ADVERTISE_VERB then advertise L ps st else withdraw L ps st)
                 (\<lambda>st. Inr (sendResponse 200 ''Success'' st))
         else Inr (sendResponse 501 ''Unsupported command'' st))"

definition onCommandValidationFailed :: "string \<Rightarrow> nlsr \<Rightarrow> nlsr" where
  "onCommandValidationFailed failureInfo = sendResponse 403 failureInfo"

end
