(* ===== verification/Daemon.thy ===== *)
theory Daemon
  imports Hello Prefix_Update
begin

text \<open>
  \<open>Nlsr\<close> (src/src/nlsr.cpp): the construction of the daemon, its initialisation after the
  configuration has been read, the notifications about faces, and the answers to requests
  for keys (with src/src/security/certificate-store.hpp).
\<close>

section \<open>Certificates\<close>

text \<open>The key is the certificate's name without the version.\<close>

definition cert_insert ::
  "ndn_lib \<Rightarrow> certificate \<Rightarrow> (name \<Rightarrow> certificate option) \<Rightarrow> (name \<Rightarrow> certificate option)" where
  "cert_insert L cert m = m(getPrefix L (cert_name cert) (-1) \<mapsto> cert)"

definition cert_find :: "name \<Rightarrow> (name \<Rightarrow> certificate option) \<Rightarrow> certificate option" where
  "cert_find n m = m n"

definition loadCertToPublish :: "ndn_lib \<Rightarrow> certificate \<Rightarrow> nlsr \<Rightarrow> nlsr" where
  "loadCertToPublish L cert st = st\<lparr>n_certStore := cert_insert L cert (n_certStore st)\<rparr>"

text \<open>Certificates not in the store are looked up in the cache of fetched ones, an argument.\<close>

definition getCertificate :: "(name \<Rightarrow> certificate option) \<Rightarrow> name \<Rightarrow> nlsr \<Rightarrow> certificate option" where
  "getCertificate cache n st = (case cert_find n (n_certStore st) of
       Some cert \<Rightarrow> Some cert
     | None \<Rightarrow> cache n)"

definition ID_CERT :: string where "ID_CERT = ''ID-CERT''"

definition onKeyInterest :: "ndn_lib \<Rightarrow> (name \<Rightarrow> certificate option) \<Rightarrow> name \<Rightarrow> name \<Rightarrow> nlsr \<Rightarrow> nlsr" where
  "onKeyInterest L cache n interestName st =
     (let certName = getSubName L interestName (length n) (length interestName - length n);
          answer = (\<lambda>certName. case getCertificate cache certName st of
              None \<Rightarrow> st
            | Some cert \<Rightarrow> on_io (emit (KeyData interestName (cert_wire cert))) st)
      in if compToUri L (compAt L certName (-2)) = ID_CERT then answer (getPrefix L certName (-1))
         else if compToUri L (compAt L certName (-1)) \<noteq> ID_CERT then st
         else answer certName)"

section \<open>Start\<close>

definition setInfoInterestFilter :: "nlsr \<Rightarrow> nlsr" where
  "setInfoInterestFilter st = on_io (emit (InterestFilter (self st))) st"

definition setLsaInterestFilter :: "nlsr \<Rightarrow> nlsr" where
  "setLsaInterestFilter st = on_io (emit (InterestFilter
     (cf_lsaPrefix (n_conf st) @ cf_siteName (n_conf st) @ cf_routerName (n_conf st)))) st"

definition registerKeyPrefix :: "nlsr \<Rightarrow> nlsr" where
  "registerKeyPrefix = on_io (emit (InterestFilter (DEFAULT_BROADCAST_PREFIX @ [''KEYS''])))"

definition LOCALHOST_PREFIX :: name where "LOCALHOST_PREFIX = [''localhost'', ''nlsr'']"

definition registerLocalhostPrefix :: "nlsr \<Rightarrow> nlsr" where
  "registerLocalhostPrefix = on_io (emit (PrefixRegistration LOCALHOST_PREFIX))"

text \<open>The constructor; \<open>s\<close> is the environment the daemon is started in.\<close>

definition nlsr_of :: "io \<Rightarrow> nlsr" where
  "nlsr_of s = after (SNAPSHOT_INTERVAL * second) EvLogSnapshot (logSeqNo \<lparr>n_conf = conf_default, n_adl = [], n_npl = [], n_seq = sequencing_default,
     n_nameLsdb = [], n_adjLsdb = [], n_corLsdb = [], n_lsaRefreshTime = 0, n_thisRouterPrefix = [],
     n_highestSeqNo = (\<lambda>_. None), n_adjLsaBuildInterval = int ADJ_LSA_BUILD_INTERVAL_DEFAULT,
     n_lsdbSeqNo = 0, n_adjBuildCount = 0, n_isBuildAdjLsaSheduled = False,
     n_isRouteCalculationScheduled = False, n_isRoutingTableCalculating = False,
     n_routingTable = rt_empty, n_fib = fib_empty, n_npt = [], n_syncSocket = False, n_syncPrefix = [],
     n_updatePrefix = [], n_firstHelloInterval = of_nat FIRST_HELLO_INTERVAL_DEFAULT,
     n_certStore = (\<lambda>_. None), n_isPrefixUpdateEnabled = False, n_stats = [], n_io = s\<rparr>)"

text \<open>
  \<open>initialize\<close>: \<open>home\<close> is the user's home directory, \<open>file\<close> the number in the sequence
  file, \<open>cert\<close> the certificate generated for the router.
\<close>

definition initialize :: "ndn_lib \<Rightarrow> string \<Rightarrow> 64 word option \<Rightarrow> certificate \<Rightarrow> nlsr \<Rightarrow> nlsr" where
  "initialize L home file cert st =
     (let st = st\<lparr>n_conf := buildRouterPrefix (n_conf st)\<rparr>;
          st = st\<lparr>n_lsaRefreshTime := uint (cf_lsaRefreshTime (n_conf st))\<rparr>;
          st = st\<lparr>n_thisRouterPrefix := toUri L (self st)\<rparr>;
          st = st\<lparr>n_fib := setEntryRefreshTime (2 * cf_lsaRefreshTime (n_conf st)) (n_fib st)\<rparr>;
          st = st\<lparr>n_seq := initiateSeqNoFromFile file (setSeqFileName home (cf_seqFileDir (n_conf st)) (n_seq st))\<rparr>;
          st = createSyncSocket (cf_chronosyncPrefix (n_conf st)) st;
          st = loadCertToPublish L cert st;
          st = setStrategies st;
          st = setInfoInterestFilter st;
          st = setLsaInterestFilter st;
          st = st\<lparr>n_firstHelloInterval := cf_firstHelloInterval (n_conf st)\<rparr>;
          st = st\<lparr>n_adjLsaBuildInterval := uint (cf_adjLsaBuildInterval (n_conf st))\<rparr>;
          st = st\<lparr>n_routingTable := (n_routingTable st)\<lparr>rt_calcInterval := uint (cf_routingCalcInterval (n_conf st))\<rparr>\<rparr>;
          st = buildAndInstallOwnNameLsa L st;
          st = buildAndInstallOwnCoordinateLsa L st;
          st = registerKeyPrefix st;
          st = registerLocalhostPrefix st;
          st = scheduleInterest (n_firstHelloInterval st) st
      in if cf_hyperbolicState (n_conf st) = HYPERBOLIC_STATE_ON
         then st\<lparr>n_adl := map (\<lambda>a. a\<lparr>ad_linkCost := 0\<rparr>) (n_adl st)\<rparr>
         else st)"

definition destroyFaces :: "nlsr \<Rightarrow> nlsr" where
  "destroyFaces st = fold (\<lambda>a. on_io (fib_destroyFace (ad_faceUri a))) (n_adl st) st"

section \<open>Faces\<close>

definition onFaceDestroyed :: "64 word \<Rightarrow> nlsr \<Rightarrow> nlsr" where
  "onFaceDestroyed faceId st = (case findAdjacentByFace faceId (n_adl st) of
       None \<Rightarrow> st
     | Some a \<Rightarrow>
         let upd = (\<lambda>f st. st\<lparr>n_adl := update_first (\<lambda>x. ad_faceId x = faceId) f (n_adl st)\<rparr>) in
         if ad_status a = STATUS_ACTIVE
         then scheduleAdjLsaBuild (upd (\<lambda>x. x\<lparr>ad_faceId := 0, ad_status := STATUS_INACTIVE,
                ad_timedOut := cf_interestRetryNumber (n_conf st)\<rparr>) st)
         else upd (\<lambda>x. x\<lparr>ad_faceId := 0\<rparr>) st)"

text \<open>Only the destruction of a face is looked at.\<close>

definition onFaceEventNotification :: "bool \<Rightarrow> 64 word \<Rightarrow> nlsr \<Rightarrow> nlsr" where
  "onFaceEventNotification destroyed faceId st = (if destroyed then onFaceDestroyed faceId st else st)"

end
