(* ===== verification/Tables_Steps.thy ===== *)
theory Tables_Steps
  imports Npt
begin

text \<open>
  The steps of the three tables (name prefix table, FIB, agenda) seen from outside: they keep
  the invariant of the tables, the agenda gets only new entries, and the entries that are not
  timers of the FIB stay.
\<close>

section \<open>The agenda under the operations of the tables\<close>

text \<open>New agenda entries have new identifiers, the others were there before.\<close>

definition grows :: "io \<Rightarrow> io \<Rightarrow> bool" where
  "grows s s' \<longleftrightarrow> io_next_id s \<le> io_next_id s' \<and>
     (\<forall>x\<in>set (io_pending s'). x \<in> set (io_pending s) \<or> io_next_id s \<le> fst x)"

lemma grows_refl [simp]: "grows s s"
  by (simp add: grows_def)

lemma grows_trans: "grows s t \<Longrightarrow> grows t u \<Longrightarrow> grows s u"
  by (fastforce simp: grows_def)

lemma grows_schedule: "grows s (snd (scheduleEvent d ev s))"
  by (auto simp: grows_def scheduleEvent_def)

lemma grows_cancel: "grows s (cancelEvent i s)"
  by (auto simp: grows_def cancelEvent_def split: option.split)

lemma grows_timers: "timers s' = timers s \<Longrightarrow> grows s s'"
  by (auto simp: grows_def timers_def)

lemma grows_added: "timer_added n f s s' \<Longrightarrow> grows s s'"
  by (auto simp: grows_def timer_added_def)

lemma grows_fib_remove: "grows s (snd (fib_remove adl n (f, s)))"
proof (cases "fib_find n f")
  case None
  then show ?thesis by (simp add: fib_remove_absent)
next
  case (Some e)
  then obtain s' where "snd (fib_remove adl n (f, s)) = cancelEvent (fe_event e) s'" "timers s' = timers s"
    by (auto elim: fib_remove_alt [where adl = adl and s = s])
  then show ?thesis using grows_trans [OF grows_timers grows_cancel] by simp
qed

lemma grows_fib_update:
  assumes wf: "fib_wf c f"
  shows "grows s (snd (fib_update L c adl n hs (f, s)))"
proof (cases "hopsToInstall c hs = []")
  case True
  then show ?thesis
    using grows_fib_remove by (simp add: fib_update_nothing split: option.split)
next
  case H: False
  show ?thesis
  proof (cases "fib_find n f")
    case None
    obtain s' where "snd (fib_update L c adl n hs (f, s)) = s'" "timer_added n f s s'"
      by (rule fib_update_new [OF H None, of L adl s]) simp
    then show ?thesis by (simp add: grows_added)
  next
    case (Some e)
    then have "nhl_wf (fe_hops e)"
      using wf by (auto simp: fib_wf_def fib_find_by_key list_all_iff entry_wf_def dest: by_key_SomeD)
    then obtain s' where "snd (fib_update L c adl n hs (f, s)) = s'" "timer_added n f (cancelEvent (fe_event e) s) s'"
      by (rule fib_update_existing [OF H Some, of L adl s]) simp
    then show ?thesis using grows_trans [OF grows_cancel grows_added] by simp
  qed
qed

text \<open>One step of the three tables.\<close>

definition tables_step :: "conf \<Rightarrow> npt \<times> fib \<times> io \<Rightarrow> npt \<times> fib \<times> io \<Rightarrow> bool" where
  "tables_step c x y \<longleftrightarrow> (case (x, y) of ((t, f, s), (t', f', s')) \<Rightarrow>
     tables_ok c t f s \<longrightarrow> tables_ok c t' f' s' \<and> grows s s' \<and> other_events s' = other_events s)"

lemma tables_step_refl: "tables_step c x x"
  by (simp add: tables_step_def split: prod.split)

lemma tables_step_trans: "tables_step c x y \<Longrightarrow> tables_step c y z \<Longrightarrow> tables_step c x z"
  by (auto simp: tables_step_def intro: grows_trans split: prod.splits)

lemma fib_part_step:
  assumes "tables_ok c t f s"
    and "fs = (f, s) \<or> fs = fib_update L c adl n hs (f, s) \<or> fs = fib_remove adl n (f, s)"
  shows "grows s (snd fs) \<and> other_events (snd fs) = other_events s"
proof -
  have wf: "fib_wf c f" and ok: "fib_timers_ok f s" using assms(1) by (simp_all add: tables_ok_def)
  from assms(2) consider "fs = (f, s)" | "fs = fib_update L c adl n hs (f, s)" | "fs = fib_remove adl n (f, s)"
    by blast
  then show ?thesis
    by cases (simp_all add: grows_fib_remove grows_fib_update [OF wf] other_events_update [OF ok wf] other_events_remove [OF ok])
qed

lemma tables_step_addRte: "tables_step c x (npt_addRte L c adl n rte x)"
proof -
  obtain t f s where x: "x = (t, f, s)" by (metis prod.exhaust)
  obtain t' f' s' where y: "npt_addRte L c adl n rte (t, f, s) = (t', f', s')" by (metis prod.exhaust)
  have "grows s (snd (f', s')) \<and> other_events (snd (f', s')) = other_events s" if ok: "tables_ok c t f s"
    by (rule fib_part_step [OF ok, of _ L adl n "npe_hops (added_entry t n rte)"])
      (use y in \<open>auto simp: npt_addRte_alt split: if_splits\<close>)
  with tables_ok_addRte [OF _ y] show ?thesis by (simp add: tables_step_def x y)
qed

lemma tables_step_removeRte: "tables_step c x (npt_removeRte L c adl n rte x)"
proof -
  obtain t f s where x: "x = (t, f, s)" by (metis prod.exhaust)
  obtain t' f' s' where y: "npt_removeRte L c adl n rte (t, f, s) = (t', f', s')" by (metis prod.exhaust)
  have "\<exists>hs. (f', s') = (f, s) \<or> (f', s') = fib_update L c adl n hs (f, s) \<or> (f', s') = fib_remove adl n (f, s)"
  proof (cases "npt_find n t")
    case None
    then show ?thesis using y by (simp add: npt_removeRte_def)
  next
    case (Some it)
    let ?e = "removeRoutingTableEntry rte it"
    show ?thesis
      by (rule exI [of _ "npe_hops (npe_sort (generateNhlfromRteList ?e))"])
        (use y Some in \<open>simp add: npt_removeRte_def Let_def split: if_splits\<close>)
  qed
  then have "grows s (snd (f', s')) \<and> other_events (snd (f', s')) = other_events s" if "tables_ok c t f s"
    using fib_part_step [OF that] by blast
  with tables_ok_removeRte [OF _ y] show ?thesis by (simp add: tables_step_def x y)
qed

lemma tables_step_entries:
  "tables_step c x (npt_addEntry L c adl rt n d x)"
  "tables_step c x (npt_removeEntry L c adl rt n d x)"
  "tables_step c x (updateWithNewRoute L c adl rt x)"
proof -
  have add: "tables_step c x (npt_addEntry L c adl rt n d x)" for x n d
    by (simp add: npt_addEntry_def tables_step_addRte)
  then show "tables_step c x (npt_addEntry L c adl rt n d x)" .
  show "tables_step c x (npt_removeEntry L c adl rt n d x)"
    by (simp add: npt_removeEntry_def tables_step_removeRte)
  have "tables_step c x (fold (\<lambda>(n, d). npt_addEntry L c adl rt n d) ps x)" for ps x
  proof (induction ps arbitrary: x)
    case (Cons p ps)
    show ?case using tables_step_trans [OF add Cons.IH] by (simp add: case_prod_beta)
  qed (simp add: tables_step_refl)
  then show "tables_step c x (updateWithNewRoute L c adl rt x)"
    by (cases x) (simp add: updateWithNewRoute_def)
qed

end
