(* ===== verification/Nlsr_Invariant.thy ===== *)
theory Nlsr_Invariant
  imports Daemon Tables_Steps
begin

text \<open>
  The invariant of the daemon's state: the database has one LSA per router and kind, the name
  prefix table, the FIB and its timers agree, and each of the two flags that guard a scheduled
  callback is set exactly when the callback is on the agenda, once. Every operation of the
  other theories keeps it.
\<close>

section \<open>The invariant\<close>

definition lsdb_ok :: "nlsr \<Rightarrow> bool" where
  "lsdb_ok st \<longleftrightarrow> distinct (map ls_origRouter (n_nameLsdb st)) \<and> list_all name_lsa_wf (n_nameLsdb st) \<and>
     lsdb_keys_ok (n_adjLsdb st) \<and> distinct (map ls_origRouter (n_corLsdb st))"

definition is_expire :: "event \<Rightarrow> bool" where
  "is_expire ev = (case ev of EvExpireName _ _ \<Rightarrow> True | EvExpireAdj _ _ \<Rightarrow> True
     | EvExpireCor _ _ \<Rightarrow> True | _ \<Rightarrow> False)"

text \<open>The timer an LSA remembers is, while it is on the agenda, the expiration of an LSA.\<close>

definition expire_timer :: "io \<Rightarrow> event_id \<Rightarrow> bool" where
  "expire_timer s e \<longleftrightarrow> (\<forall>i. e = Some i \<longrightarrow> i < io_next_id s \<and>
     (\<forall>x\<in>set (io_pending s). fst x = i \<longrightarrow> is_expire (snd (snd x))))"

definition lsa_events :: "nlsr \<Rightarrow> event_id set" where
  "lsa_events st = ls_event ` set (n_nameLsdb st) \<union> ls_event ` set (n_adjLsdb st) \<union> ls_event ` set (n_corLsdb st)"

definition pending_count :: "event \<Rightarrow> io \<Rightarrow> nat" where
  "pending_count ev s = length (filter (\<lambda>x. x = ev) (events s))"

definition flags_ok :: "nlsr \<Rightarrow> bool" where
  "flags_ok st \<longleftrightarrow>
     pending_count EvCalculate (n_io st) = of_bool (n_isRouteCalculationScheduled st) \<and>
     pending_count EvBuildAdjLsa (n_io st) = of_bool (n_isBuildAdjLsaSheduled st) \<and>
     \<not> n_isRoutingTableCalculating st"

definition core_ok :: "ndn_lib \<Rightarrow> nlsr \<Rightarrow> bool" where
  "core_ok L st \<longleftrightarrow> lsdb_ok st \<and> tables_ok (n_conf st) (n_npt st) (n_fib st) (n_io st) \<and>
     rt_wf (rt_table (n_routingTable st)) \<and> adl_wf (n_adl st) \<and> distinct (n_npl st) \<and>
     (\<forall>e\<in>lsa_events st. expire_timer (n_io st) e) \<and>
     self st \<noteq> [] \<and> n_syncSocket st \<and> ofUri L (n_thisRouterPrefix st) = Some (self st)"

definition nlsr_ok :: "ndn_lib \<Rightarrow> nlsr \<Rightarrow> bool" where
  "nlsr_ok L st \<longleftrightarrow> core_ok L st \<and> flags_ok st"

lemma pending_count_simps [simp]:
  "pending_count ev (emit x s) = pending_count ev s"
  "pending_count ev (snd (scheduleEvent d ev' s)) = pending_count ev s + of_bool (ev' = ev)"
  by (simp_all add: pending_count_def)

lemma pending_count_other:
  assumes "\<not> is_fib_event ev"
  shows "pending_count ev s = length (filter (\<lambda>x. x = ev) (other_events s))"
proof -
  have "filter (\<lambda>x. x = ev) xs = filter (\<lambda>x. x = ev) (filter (\<lambda>ev. \<not> is_fib_event ev) xs)" for xs
    using assms by (induction xs) auto
  then show ?thesis by (simp add: pending_count_def other_events_def)
qed

lemma expire_timer_grows: "expire_timer s e \<Longrightarrow> grows s s' \<Longrightarrow> expire_timer s' e"
  by (fastforce simp: expire_timer_def grows_def)

lemma expire_timer_None [simp]: "expire_timer s None"
  by (simp add: expire_timer_def)

text \<open>Cancelling an LSA's timer leaves the other kinds of timers alone.\<close>

lemma cancel_filter:
  assumes "expire_timer s e" and "\<And>ev. P ev \<Longrightarrow> \<not> is_expire ev"
  shows "filter (\<lambda>x. P (snd (snd x))) (io_pending (cancelEvent e s)) = filter (\<lambda>x. P (snd (snd x))) (io_pending s)"
proof (cases e)
  case (Some i)
  have "filter (\<lambda>x. P (snd (snd x))) (filter (\<lambda>(j, _). j \<noteq> i) xs) = filter (\<lambda>x. P (snd (snd x))) xs"
    if "\<forall>x\<in>set xs. fst x = i \<longrightarrow> is_expire (snd (snd x))" for xs :: "(nat \<times> int \<times> event) list"
    using that assms(2) by (induction xs) auto
  then show ?thesis using assms(1) Some by (auto simp: expire_timer_def cancelEvent_def)
qed (simp add: cancelEvent_def)

lemma filter_events: "filter P (events s) = map (\<lambda>x. snd (snd x)) (filter (\<lambda>x. P (snd (snd x))) (io_pending s))"
  by (simp add: events_def filter_map o_def case_prod_beta)

lemma cancel_events:
  assumes "expire_timer s e" and "\<And>ev. P ev \<Longrightarrow> \<not> is_expire ev"
  shows "filter P (events (cancelEvent e s)) = filter P (events s)"
  by (simp add: filter_events cancel_filter [OF assms])

lemma cancel_pending_count:
  "expire_timer s e \<Longrightarrow> \<not> is_expire ev \<Longrightarrow> pending_count ev (cancelEvent e s) = pending_count ev s"
  using cancel_events [of s e "\<lambda>x. x = ev"] by (simp add: pending_count_def)

lemma pending_count_timers: "timers s = timers t \<Longrightarrow> pending_count ev s = pending_count ev t"
  by (simp add: pending_count_def events_def timers_def)

lemma expire_timer_timers: "timers s = timers t \<Longrightarrow> expire_timer s e = expire_timer t e"
  by (simp add: expire_timer_def timers_def)

lemma expire_timer_new: "is_expire ev \<Longrightarrow> agenda_ok s \<Longrightarrow>
    expire_timer (snd (scheduleEvent d ev s)) (fst (scheduleEvent d ev s))"
  by (auto simp: expire_timer_def scheduleEvent_def agenda_ok_def)

text \<open>Timers other than those of the FIB do not disturb the FIB's.\<close>

lemma fib_timers_ok_schedule:
  assumes "fib_timers_ok f s" and "\<not> is_fib_event ev"
  shows "fib_timers_ok f (snd (scheduleEvent d ev s))"
proof -
  have "set (io_pending (snd (scheduleEvent d ev s))) = insert (io_next_id s, d, ev) (set (io_pending s))"
    by (auto simp: scheduleEvent_def)
  moreover have "ev \<noteq> EvFibRemove n" for n
    using assms(2) by (auto simp: is_fib_event_def)
  ultimately show ?thesis
    using assms(1) agenda_ok_schedule [of s d ev] by (fastforce simp: fib_timers_ok_def)
qed

lemma fib_timers_ok_cancel_other:
  assumes "fib_timers_ok f s" and "\<forall>x\<in>set (io_pending s). e = Some (fst x) \<longrightarrow> \<not> is_fib_event (snd (snd x))"
  shows "fib_timers_ok f (cancelEvent e s)"
proof (cases e)
  case (Some i)
  with assms agenda_ok_cancel [of s e] show ?thesis
    by (fastforce simp: fib_timers_ok_def set_pending_cancel is_fib_event_iff)
qed (simp add: cancelEvent_def assms)

lemma tables_ok_io:
  "tables_ok c t f s \<Longrightarrow> fib_timers_ok f s' \<Longrightarrow> tables_ok c t f s'"
  by (simp add: tables_ok_def)

lemma tables_okD:
  "tables_ok c t f s \<Longrightarrow> fib_timers_ok f s" "tables_ok c t f s \<Longrightarrow> agenda_ok s"
  "tables_ok c t f s \<Longrightarrow> fib_wf c f" "tables_ok c t f s \<Longrightarrow> npt_wf t"
  by (simp_all add: tables_ok_def fib_timers_ok_def)

section \<open>Changes of the state\<close>

text \<open>Fields the invariant does not look at.\<close>

lemma nlsr_ok_fields [simp]:
  "core_ok L (st\<lparr>n_lsdbSeqNo := a\<rparr>) = core_ok L st" "nlsr_ok L (st\<lparr>n_lsdbSeqNo := a\<rparr>) = nlsr_ok L st"
  "nlsr_ok L (st\<lparr>n_seq := b\<rparr>) = nlsr_ok L st" "nlsr_ok L (st\<lparr>n_adjBuildCount := k\<rparr>) = nlsr_ok L st"
  "nlsr_ok L (st\<lparr>n_highestSeqNo := h\<rparr>) = nlsr_ok L st" "nlsr_ok L (st\<lparr>n_stats := x\<rparr>) = nlsr_ok L st"
  "nlsr_ok L (st\<lparr>n_certStore := m\<rparr>) = nlsr_ok L st"
  "nlsr_ok L (st\<lparr>n_syncPrefix := n\<rparr>) = nlsr_ok L st" "nlsr_ok L (st\<lparr>n_updatePrefix := n\<rparr>) = nlsr_ok L st"
  "nlsr_ok L (st\<lparr>n_lsaRefreshTime := t\<rparr>) = nlsr_ok L st"
  "nlsr_ok L (st\<lparr>n_firstHelloInterval := w\<rparr>) = nlsr_ok L st" "nlsr_ok L (st\<lparr>n_adjLsaBuildInterval := t\<rparr>) = nlsr_ok L st"
  "nlsr_ok L (st\<lparr>n_isPrefixUpdateEnabled := e\<rparr>) = nlsr_ok L st"
  by (simp_all add: nlsr_ok_def core_ok_def self_def lsdb_ok_def lsa_events_def flags_ok_def)

lemma core_ok_flags [simp]:
  "core_ok L (st\<lparr>n_isRouteCalculationScheduled := e\<rparr>) = core_ok L st"
  "core_ok L (st\<lparr>n_isBuildAdjLsaSheduled := e\<rparr>) = core_ok L st"
  "core_ok L (st\<lparr>n_isRoutingTableCalculating := e\<rparr>) = core_ok L st"
  by (simp_all add: core_ok_def self_def lsdb_ok_def lsa_events_def)

lemma nlsr_ok_stat [simp]: "nlsr_ok L (stat p st) = nlsr_ok L st"
  by (simp add: stat_def)

lemma nlsr_ok_change [simp]: "nlsr_ok L (onLsdbChange st) = nlsr_ok L st"
  by (simp add: onLsdbChange_def)

lemma nlsr_ok_timers:
  assumes "timers s = timers (n_io st)"
  shows "nlsr_ok L (st\<lparr>n_io := s\<rparr>) = nlsr_ok L st"
  using fib_timers_ok_cong [OF assms] pending_count_timers [OF assms] expire_timer_timers [OF assms]
  by (simp add: nlsr_ok_def core_ok_def self_def lsdb_ok_def lsa_events_def flags_ok_def tables_ok_def)

lemma nlsr_ok_emit [simp]: "nlsr_ok L (on_io (emit x) st) = nlsr_ok L st"
  by (simp add: on_io_def nlsr_ok_timers)

lemma core_ok_io:
  assumes "core_ok L st" and "fib_timers_ok (n_fib st) s"
    and "\<And>e. expire_timer (n_io st) e \<Longrightarrow> expire_timer s e"
  shows "core_ok L (st\<lparr>n_io := s\<rparr>)"
  using assms by (auto simp: core_ok_def self_def lsdb_ok_def lsa_events_def intro: tables_ok_io)

lemma core_okD:
  "core_ok L st \<Longrightarrow> fib_timers_ok (n_fib st) (n_io st)" "core_ok L st \<Longrightarrow> agenda_ok (n_io st)"
  "core_ok L st \<Longrightarrow> lsdb_ok st" "core_ok L st \<Longrightarrow> e \<in> lsa_events st \<Longrightarrow> expire_timer (n_io st) e"
  "core_ok L st \<Longrightarrow> adl_wf (n_adl st)" "core_ok L st \<Longrightarrow> distinct (n_npl st)"
  "core_ok L st \<Longrightarrow> n_syncSocket st" "core_ok L st \<Longrightarrow> ofUri L (n_thisRouterPrefix st) = Some (self st)"
  "core_ok L st \<Longrightarrow> self st \<noteq> []"
  by (auto simp: core_ok_def intro: tables_okD)

text \<open>A flag is raised together with its callback.\<close>

definition plain_event :: "event \<Rightarrow> bool" where
  "plain_event ev \<longleftrightarrow> \<not> is_fib_event ev \<and> ev \<noteq> EvCalculate \<and> ev \<noteq> EvBuildAdjLsa"

lemma plain_events [simp]:
  "plain_event (EvExpireName n q)" "plain_event (EvExpireAdj n q)" "plain_event (EvExpireCor n q)"
  "plain_event (EvHello w)" "plain_event (EvRetryValidation d t n q)" "plain_event EvLogSeqNo"
  "plain_event EvLogSnapshot"
  by (simp_all add: plain_event_def is_fib_event_def)

lemma core_ok_after:
  assumes "core_ok L st" and "\<not> is_fib_event ev"
  shows "core_ok L (after d ev st)"
  unfolding after_def on_io_def using assms
  by (intro core_ok_io fib_timers_ok_schedule) (auto intro: core_okD expire_timer_grows grows_schedule)

lemma nlsr_ok_after [inv_intros]:
  assumes "nlsr_ok L st" and "plain_event ev"
  shows "nlsr_ok L (after d ev st)"
proof -
  have "core_ok L (after d ev st)"
    using assms by (intro core_ok_after) (auto simp: nlsr_ok_def plain_event_def)
  then show ?thesis
    using assms by (auto simp: nlsr_ok_def flags_ok_def plain_event_def after_def on_io_def)
qed

lemma nlsr_ok_scheduleCalculation [inv_intros]:
  assumes "nlsr_ok L st"
  shows "nlsr_ok L (scheduleRoutingTableCalculation st)"
proof (cases "n_isRouteCalculationScheduled st")
  case False
  have "core_ok L (after d EvCalculate st)" for d
    using assms by (intro core_ok_after) (simp_all add: nlsr_ok_def is_fib_event_def)
  then show ?thesis
    using assms False by (simp add: scheduleRoutingTableCalculation_def nlsr_ok_def flags_ok_def) (simp add: after_def on_io_def)
qed (simp add: scheduleRoutingTableCalculation_def assms)

lemma nlsr_ok_scheduleBuild [inv_intros]:
  assumes "nlsr_ok L st"
  shows "nlsr_ok L (scheduleAdjLsaBuild st)"
proof (cases "n_isBuildAdjLsaSheduled st")
  case False
  let ?st = "st\<lparr>n_adjBuildCount := n_adjBuildCount st + 1\<rparr>"
  have ok: "nlsr_ok L ?st" using assms by simp
  have "core_ok L (after d EvBuildAdjLsa ?st)" for d
    using ok by (intro core_ok_after) (simp_all add: nlsr_ok_def is_fib_event_def)
  then show ?thesis
    using ok False by (simp add: scheduleAdjLsaBuild_def nlsr_ok_def flags_ok_def Let_def) (simp add: after_def on_io_def)
qed (simp add: scheduleAdjLsaBuild_def assms)

text \<open>The tables.\<close>

lemma with_tables_frame [simp, frame_simps]:
  "n_conf (with_tables f st) = n_conf st" "n_adl (with_tables f st) = n_adl st"
  "n_npl (with_tables f st) = n_npl st" "n_seq (with_tables f st) = n_seq st"
  "n_nameLsdb (with_tables f st) = n_nameLsdb st" "n_adjLsdb (with_tables f st) = n_adjLsdb st"
  "n_corLsdb (with_tables f st) = n_corLsdb st" "n_routingTable (with_tables f st) = n_routingTable st"
  "n_isRouteCalculationScheduled (with_tables f st) = n_isRouteCalculationScheduled st"
  "n_isBuildAdjLsaSheduled (with_tables f st) = n_isBuildAdjLsaSheduled st"
  "n_isRoutingTableCalculating (with_tables f st) = n_isRoutingTableCalculating st"
  "n_syncSocket (with_tables f st) = n_syncSocket st" "n_lsaRefreshTime (with_tables f st) = n_lsaRefreshTime st"
  "n_thisRouterPrefix (with_tables f st) = n_thisRouterPrefix st"
  "n_highestSeqNo (with_tables f st) = n_highestSeqNo st" "n_updatePrefix (with_tables f st) = n_updatePrefix st"
  by (simp_all add: with_tables_def split: prod.split)

lemma with_tables_ok:
  assumes step: "tables_step (n_conf st) (n_npt st, n_fib st, n_io st) (f (n_npt st, n_fib st, n_io st))"
    and ok: "core_ok L st"
  shows "core_ok L (with_tables f st) \<and> other_events (n_io (with_tables f st)) = other_events (n_io st)"
proof -
  obtain t fb s where f: "f (n_npt st, n_fib st, n_io st) = (t, fb, s)" by (metis prod.exhaust)
  have "tables_ok (n_conf st) t fb s \<and> grows (n_io st) s \<and> other_events s = other_events (n_io st)"
    using step ok by (simp add: tables_step_def f core_ok_def self_def)
  then show ?thesis
    using ok by (auto simp: with_tables_def f core_ok_def self_def lsdb_ok_def lsa_events_def intro: expire_timer_grows)
qed

lemma nlsr_ok_tables:
  assumes "tables_step (n_conf st) (n_npt st, n_fib st, n_io st) (f (n_npt st, n_fib st, n_io st))"
    and "nlsr_ok L st"
  shows "nlsr_ok L (with_tables f st)"
  using with_tables_ok [where f = f, OF assms(1)] assms(2)
  by (auto simp: nlsr_ok_def flags_ok_def pending_count_other is_fib_event_def)

lemma nlsr_ok_npt [inv_intros]:
  "nlsr_ok L st \<Longrightarrow> nlsr_ok L (nptAdd L n d st)"
  "nlsr_ok L st \<Longrightarrow> nlsr_ok L (nptRemove L n d st)"
  by (simp_all add: nptAdd_def nptRemove_def nlsr_ok_tables tables_step_entries)

end
