(* ===== verification/Lsdb_Invariant.thy ===== *)
theory Lsdb_Invariant
  imports Nlsr_Invariant
begin

text \<open>
  The operations of the database keep the invariant of the daemon: adding, updating and
  removing LSAs, building and refreshing the own ones, the route calculation, and what is
  done with LSAs that arrive.
\<close>

section \<open>The database's lists\<close>

lemma lsdb_put_ok [inv_intros]:
  "nlsr_ok L st \<Longrightarrow> expire_timer (n_io st) (ls_event l) \<Longrightarrow> name_lsa_wf l \<Longrightarrow> nlsr_ok L (putNameLsa l st)"
  "nlsr_ok L st \<Longrightarrow> expire_timer (n_io st) (ls_event a) \<Longrightarrow> adj_lsa_wf a \<Longrightarrow> nlsr_ok L (putAdjLsa a st)"
  "nlsr_ok L st \<Longrightarrow> expire_timer (n_io st) (ls_event c) \<Longrightarrow> nlsr_ok L (putCoordinateLsa c st)"
  using set_update_first [of "\<lambda>x. nameLsaKey x = nameLsaKey l" "\<lambda>_. l" "n_nameLsdb st"]
    set_update_first [of "\<lambda>x. adjLsaKey x = adjLsaKey a" "\<lambda>_. a" "n_adjLsdb st"]
    set_update_first [of "\<lambda>x. corLsaKey x = corLsaKey c" "\<lambda>_. c" "n_corLsdb st"]
  by (auto simp: nlsr_ok_def core_ok_def self_def lsdb_ok_def lsdb_keys_ok_def lsa_events_def flags_ok_def list_all_iff
      putNameLsa_def putAdjLsa_def putCoordinateLsa_def map_update_first_same)

lemma lsdb_add_ok [inv_intros]:
  "nlsr_ok L st \<Longrightarrow> expire_timer (n_io st) (ls_event l) \<Longrightarrow> name_lsa_wf l \<Longrightarrow> nlsr_ok L (snd (addNameLsa l st))"
  "nlsr_ok L st \<Longrightarrow> expire_timer (n_io st) (ls_event a) \<Longrightarrow> adj_lsa_wf a \<Longrightarrow> nlsr_ok L (snd (addAdjLsa a st))"
  "nlsr_ok L st \<Longrightarrow> expire_timer (n_io st) (ls_event c) \<Longrightarrow> nlsr_ok L (snd (addCoordinateLsa c st))"
  by (auto simp: nlsr_ok_def core_ok_def self_def lsdb_ok_def lsdb_keys_ok_def lsa_events_def flags_ok_def list_all_iff
      addNameLsa_def addAdjLsa_def addCoordinateLsa_def onLsdbChange_def find_None_all split: option.split)

lemma lsdb_erase_ok:
  assumes "nlsr_ok L st"
  shows "n_nameLsdb st = ns \<Longrightarrow> nlsr_ok L (st\<lparr>n_nameLsdb := erase_first P ns\<rparr>)"
    and "n_adjLsdb st = as \<Longrightarrow> nlsr_ok L (st\<lparr>n_adjLsdb := erase_first Q as\<rparr>)"
    and "n_corLsdb st = cs \<Longrightarrow> nlsr_ok L (st\<lparr>n_corLsdb := erase_first R cs\<rparr>)"
  using assms set_erase_first [of P "n_nameLsdb st"] set_erase_first [of Q "n_adjLsdb st"]
    set_erase_first [of R "n_corLsdb st"]
  by (auto simp: nlsr_ok_def core_ok_def self_def lsdb_ok_def lsdb_keys_ok_def lsa_events_def flags_ok_def list_all_iff
      distinct_erase_first)

section \<open>Folds over the names of an LSA\<close>

lemma fold_keeps: "(\<And>x s. P s \<Longrightarrow> P (f x s)) \<Longrightarrow> P s \<Longrightarrow> P (fold f xs s)"
  by (induction xs arbitrary: s) auto

lemma fold_frame: "(\<And>x s. g (f x s) = g s) \<Longrightarrow> g (fold f xs s) = g s"
  by (induction xs arbitrary: s) auto

lemma npt_frame [simp, frame_simps]:
  "n_conf (nptAdd L n d st) = n_conf st" "n_conf (nptRemove L n d st) = n_conf st"
  "n_nameLsdb (nptAdd L n d st) = n_nameLsdb st" "n_nameLsdb (nptRemove L n d st) = n_nameLsdb st"
  "n_adjLsdb (nptAdd L n d st) = n_adjLsdb st" "n_adjLsdb (nptRemove L n d st) = n_adjLsdb st"
  "n_corLsdb (nptAdd L n d st) = n_corLsdb st" "n_corLsdb (nptRemove L n d st) = n_corLsdb st"
  "self (nptAdd L n d st) = self st" "self (nptRemove L n d st) = self st"
  by (simp_all add: nptAdd_def nptRemove_def self_def)

lemma nptNames_frame [simp, frame_simps]:
  "n_conf (nptAddNames L d ns st) = n_conf st" "n_conf (nptRemoveNames L d ns st) = n_conf st"
  "n_nameLsdb (nptAddNames L d ns st) = n_nameLsdb st" "n_nameLsdb (nptRemoveNames L d ns st) = n_nameLsdb st"
  "n_adjLsdb (nptAddNames L d ns st) = n_adjLsdb st" "n_adjLsdb (nptRemoveNames L d ns st) = n_adjLsdb st"
  "n_corLsdb (nptAddNames L d ns st) = n_corLsdb st" "n_corLsdb (nptRemoveNames L d ns st) = n_corLsdb st"
  by (simp_all add: nptAddNames_def nptRemoveNames_def fold_frame)

lemma nlsr_ok_names [inv_intros]:
  "nlsr_ok L st \<Longrightarrow> nlsr_ok L (nptAddNames L d ns st)"
  "nlsr_ok L st \<Longrightarrow> nlsr_ok L (nptRemoveNames L d ns st)"
  unfolding nptAddNames_def nptRemoveNames_def by (rule fold_keeps; simp add: nlsr_ok_npt)+

section \<open>Timers of LSAs\<close>

lemma nlsr_ok_cancel:
  assumes "nlsr_ok L st" and e: "expire_timer (n_io st) e"
  shows "nlsr_ok L (on_io (cancelEvent e) st)"
proof -
  have core: "core_ok L st" using assms(1) by (simp add: nlsr_ok_def)
  have "\<not> is_fib_event (snd (snd x))" if "x \<in> set (io_pending (n_io st))" "e = Some (fst x)" for x
    using e that by (auto simp: expire_timer_def is_expire_def is_fib_event_def split: event.splits)
  then have "core_ok L (on_io (cancelEvent e) st)"
    unfolding on_io_def using core
    by (intro core_ok_io fib_timers_ok_cancel_other) (auto intro: core_okD expire_timer_grows grows_cancel)
  then show ?thesis
    using assms cancel_pending_count [OF e]
    by (simp add: nlsr_ok_def flags_ok_def on_io_def is_expire_def)
qed

text \<open>A timer is put on the agenda and its identifier returned.\<close>

definition timed :: "ndn_lib \<Rightarrow> nlsr \<Rightarrow> event_id \<times> nlsr \<Rightarrow> bool" where
  "timed L st r \<longleftrightarrow> (nlsr_ok L st \<longrightarrow> nlsr_ok L (snd r) \<and> expire_timer (n_io (snd r)) (fst r)) \<and>
     (\<exists>s. snd r = st\<lparr>n_io := s\<rparr>)"

lemma timed_after:
  assumes "plain_event ev" and "is_expire ev" and "r = (case scheduleEvent d ev (n_io st) of (eid, s) \<Rightarrow> (eid, st\<lparr>n_io := s\<rparr>))"
  shows "timed L st r"
proof -
  have r: "r = (fst (scheduleEvent d ev (n_io st)), after d ev st)"
    by (simp add: assms(3) after_def on_io_def split: prod.split)
  show ?thesis
    using nlsr_ok_after [OF _ assms(1), of L st d] expire_timer_new [OF assms(2), of "n_io st" d]
    by (auto simp: timed_def r nlsr_ok_def core_okD(2)) (auto simp: after_def on_io_def)
qed

lemma timed_schedule:
  "timed L st (scheduleNameLsaExpiration key q t st)" "timed L st (scheduleAdjLsaExpiration key q t st)"
  "timed L st (scheduleCoordinateLsaExpiration key q t st)"
  by (rule timed_after [rotated 2],
      simp add: scheduleNameLsaExpiration_def scheduleAdjLsaExpiration_def scheduleCoordinateLsaExpiration_def,
      simp_all add: is_expire_def)+

lemma timedD: "timed L st r \<Longrightarrow> nlsr_ok L st \<Longrightarrow> nlsr_ok L (snd r)"
  by (simp add: timed_def)

text \<open>The last steps of an update: the old timer is cancelled, a new one started, the LSA replaced.\<close>

lemma retimed:
  assumes ok: "nlsr_ok L st" and e: "expire_timer (n_io st) e" and r: "timed L (on_io (cancelEvent e) st) r"
  shows "nlsr_ok L (snd r)" and "expire_timer (n_io (snd r)) (fst r)"
  using nlsr_ok_cancel [OF ok e] r by (simp_all add: timed_def)

text \<open>\<open>later L st st'\<close>: from a good state a good one with the same database, timers kept.\<close>

definition later :: "ndn_lib \<Rightarrow> nlsr \<Rightarrow> nlsr \<Rightarrow> bool" where
  "later L st st' \<longleftrightarrow> (nlsr_ok L st \<longrightarrow> nlsr_ok L st') \<and> lsa_events st' = lsa_events st"

lemma later_timer:
  "later L st st' \<Longrightarrow> nlsr_ok L st \<Longrightarrow> e \<in> lsa_events st \<Longrightarrow> nlsr_ok L st' \<and> expire_timer (n_io st') e"
  by (auto simp: later_def nlsr_ok_def core_ok_def self_def)

lemma later_refl [simp]: "later L st st"
  by (simp add: later_def)

lemma later_trans: "later L st st' \<Longrightarrow> later L st' st'' \<Longrightarrow> later L st st''"
  by (simp add: later_def)

lemma later_steps:
  "later L st (onLsdbChange st)" "later L st (nptAddNames L d ns st)" "later L st (nptRemoveNames L d ns st)"
  by (simp_all add: later_def nlsr_ok_names lsa_events_def onLsdbChange_def)

lemma later_schedule: "later L st (scheduleRoutingTableCalculation st)" "later L st (scheduleIfHyperbolic st)"
  using nlsr_ok_scheduleCalculation [of L st]
  by (auto simp: later_def lsa_events_def scheduleIfHyperbolic_def scheduleRoutingTableCalculation_def after_def on_io_def)

text \<open>The names of an LSA after an update, as the code computes them.\<close>

definition namesAfterAdd :: "ndn_lib \<Rightarrow> name_prefix_list \<Rightarrow> name_prefix_list \<Rightarrow> name_prefix_list" where
  "namesAfterAdd L old new = npl_sort L (fold (\<lambda>n s. snd (npl_insert n s))
     (set_difference (nameLess L) (npl_sort L new) (npl_sort L old)) (npl_sort L old))"

definition namesAfterUpdate :: "ndn_lib \<Rightarrow> name_prefix_list \<Rightarrow> name_prefix_list \<Rightarrow> name_prefix_list" where
  "namesAfterUpdate L old new = fold (\<lambda>n s. snd (npl_remove n s))
     (set_difference (nameLess L) (namesAfterAdd L old new) (npl_sort L new)) (namesAfterAdd L old new)"

lemma namesAfterUpdate_distinct: "distinct old \<Longrightarrow> distinct (namesAfterUpdate L old new)"
  by (simp add: namesAfterUpdate_def namesAfterAdd_def npl.fold_insert_wf npl.fold_remove_wf)

lemma fold_names_fields [simp]:
  "ls_origRouter (fold addName ns l) = ls_origRouter l" "ls_origRouter (fold removeName ns l) = ls_origRouter l"
  "ls_event (fold addName ns l) = ls_event l" "ls_event (fold removeName ns l) = ls_event l"
  "ls_seqNo (fold addName ns l) = ls_seqNo l" "ls_seqNo (fold removeName ns l) = ls_seqNo l"
  by (simp_all add: fold_addName fold_removeName)

lemma found_lsa:
  "findNameLsa k (n_nameLsdb st) = Some l \<Longrightarrow> l \<in> set (n_nameLsdb st) \<and> nameLsaKey l = k \<and> ls_event l \<in> lsa_events st"
  "findAdjLsa k (n_adjLsdb st) = Some a \<Longrightarrow> a \<in> set (n_adjLsdb st) \<and> adjLsaKey a = k \<and> ls_event a \<in> lsa_events st"
  "findCoordinateLsa k (n_corLsdb st) = Some c \<Longrightarrow> c \<in> set (n_corLsdb st) \<and> corLsaKey c = k \<and> ls_event c \<in> lsa_events st"
  by (auto simp: findNameLsa_def findAdjLsa_def findCoordinateLsa_def lsa_events_def dest!: find_SomeD)

lemma stored_wf:
  "nlsr_ok L st \<Longrightarrow> l \<in> set (n_nameLsdb st) \<Longrightarrow> name_lsa_wf l"
  "nlsr_ok L st \<Longrightarrow> a \<in> set (n_adjLsdb st) \<Longrightarrow> adj_lsa_wf a"
  by (simp_all add: nlsr_ok_def core_ok_def self_def lsdb_ok_def lsdb_keys_ok_def list_all_iff)

lemma finish_update:
  assumes ok: "nlsr_ok L st" "e \<in> lsa_events st" and "later L st st'"
    and r: "timed L (on_io (cancelEvent e) st') r"
  shows "nlsr_ok L (snd r)" and "expire_timer (n_io (snd r)) (fst r)"
  using retimed [OF _ _ r] later_timer [OF assms(3) ok] by auto

lemma updateNameLsa_alt:
  "updateNameLsa L chk nlsa st =
     (let own = ls_origRouter nlsa = self st;
          add = set_difference (nameLess L) (npl_sort L (nl_npl nlsa)) (npl_sort L (nl_npl chk));
          rem = set_difference (nameLess L) (namesAfterAdd L (nl_npl chk) (nl_npl nlsa)) (npl_sort L (nl_npl nlsa));
          s1 = onLsdbChange st;
          s2 = (if \<not> own then nptAddNames L (ls_origRouter nlsa) add s1 else s1);
          s3 = (if \<not> own then nptRemoveNames L (ls_origRouter nlsa) rem s2 else s2);
          r = scheduleNameLsaExpiration (nameLsaKey nlsa) (ls_seqNo nlsa) (timeToExpire s3 nlsa)
                (on_io (cancelEvent (ls_event chk)) s3)
      in putNameLsa (chk\<lparr>ls_seqNo := ls_seqNo nlsa, ls_expiration := ls_expiration nlsa,
           nl_npl := namesAfterUpdate L (nl_npl chk) (nl_npl nlsa), ls_event := fst r\<rparr>) (snd r))"
proof -
  have own: "self (if b then nptAddNames L d ns s else s) = self s" for b d ns s
    by (simp add: self_def)
  show ?thesis
    unfolding updateNameLsa_def Let_def case_prod_beta own
    by (simp add: fold_addName fold_removeName namesAfterUpdate_def namesAfterAdd_def self_def onLsdbChange_def
        cong: if_cong)
qed

lemma nlsr_ok_updateNameLsa [inv_intros]:
  assumes ok: "nlsr_ok L st" and chk: "findNameLsa k (n_nameLsdb st) = Some chk"
  shows "nlsr_ok L (updateNameLsa L chk nlsa st)"
proof -
  let ?s1 = "onLsdbChange st"
  have 1: "later L st (if b then nptAddNames L d ns ?s1 else ?s1)" for b d ns
    using later_trans [OF later_steps(1) later_steps(2)] later_steps(1) by auto
  have 2: "later L st (if b' then nptRemoveNames L d' ms (if b then nptAddNames L d ns ?s1 else ?s1)
      else (if b then nptAddNames L d ns ?s1 else ?s1))" for b b' d d' ns ms
    using later_trans [OF 1 [of b d ns] later_steps(3)] 1 [of b d ns] by simp
  have wf: "name_lsa_wf chk" and e: "ls_event chk \<in> lsa_events st"
    using found_lsa(1) [OF chk] stored_wf(1) [OF ok] by simp_all
  note fin = finish_update [OF ok e 2 timed_schedule(1)]
  show ?thesis
    unfolding updateNameLsa_alt Let_def
    by (rule lsdb_put_ok(1)) (use wf fin in \<open>simp_all add: name_lsa_wf_def namesAfterUpdate_distinct\<close>)
qed

lemma nlsr_ok_updateCoordinateLsa [inv_intros]:
  assumes ok: "nlsr_ok L st" and chk: "findCoordinateLsa k (n_corLsdb st) = Some chk"
  shows "nlsr_ok L (updateCoordinateLsa chk clsa st)"
proof -
  have l: "later L st (onLsdbChange st)" "later L st (scheduleIfHyperbolic (onLsdbChange st))"
    using later_steps(1) later_trans [OF later_steps(1) later_schedule(2)] by simp_all
  have e: "ls_event chk \<in> lsa_events st" using found_lsa(3) [OF chk] by simp
  note fin = finish_update [OF ok e l(1) timed_schedule(3)] finish_update [OF ok e l(2) timed_schedule(3)]
  show ?thesis
    by (auto simp: updateCoordinateLsa_def Let_def case_prod_beta intro!: lsdb_put_ok(3) fin)
qed

lemma adl_eq_wf:
  "adl_wf a \<Longrightarrow> adl_wf b \<Longrightarrow> adl_eq L a b = (eq, a', b') \<Longrightarrow> adl_wf a' \<and> adl_wf b'"
  by (auto simp: adl_eq_def Let_def adl_wf_def split: if_splits)

lemma nlsr_ok_updateAdjLsa [inv_intros]:
  assumes ok: "nlsr_ok L st" and chk: "findAdjLsa k (n_adjLsdb st) = Some chk" and new: "adj_lsa_wf alsa"
  shows "nlsr_ok L (updateAdjLsa L chk alsa st)"
proof -
  have l: "later L st (onLsdbChange st)" "later L st (scheduleRoutingTableCalculation (onLsdbChange st))"
    using later_steps(1) later_trans [OF later_steps(1) later_schedule(1)] by simp_all
  have e: "ls_event chk \<in> lsa_events st" and wf: "adj_lsa_wf chk"
    using found_lsa(2) [OF chk] stored_wf(2) [OF ok] by simp_all
  note fin = finish_update [OF ok e l(1) timed_schedule(2)] finish_update [OF ok e l(2) timed_schedule(2)]
  obtain eq a b where eq: "adl_eq L (al_adl chk) (al_adl alsa) = (eq, a, b)" by (metis prod.exhaust)
  have "adl_wf a" "adl_wf (addAdjacents b [])"
    using adl_eq_wf [OF _ _ eq] wf new adl_wf_addAdjacents [of "[]" b] by (simp_all add: adj_lsa_wf_def adl_wf_def)
  with fin show ?thesis
    by (cases eq) (auto simp: updateAdjLsa_def adj_isEqualContent_def eq Let_def case_prod_beta adj_lsa_wf_def
        intro!: lsdb_put_ok(2))
qed

section \<open>Installing and removing\<close>

lemma nlsr_ok_installNew:
  "nlsr_ok L st \<Longrightarrow> ls_event l = None \<Longrightarrow> name_lsa_wf l \<Longrightarrow> nlsr_ok L (installNewNameLsa L l st)"
  "nlsr_ok L st \<Longrightarrow> ls_event a = None \<Longrightarrow> adj_lsa_wf a \<Longrightarrow> nlsr_ok L (installNewAdjLsa L a st)"
  "nlsr_ok L st \<Longrightarrow> ls_event c = None \<Longrightarrow> nlsr_ok L (installNewCoordinateLsa L c st)"
  by (auto simp: installNewNameLsa_def installNewAdjLsa_def installNewCoordinateLsa_def addNptEntries_def
      scheduleIfHyperbolic_def Let_def
      intro!: timedD [OF timed_schedule(1)] timedD [OF timed_schedule(2)] timedD [OF timed_schedule(3)]
      nlsr_ok_names nlsr_ok_npt nlsr_ok_scheduleCalculation lsdb_add_ok)

lemma nlsr_ok_install [inv_intros]:
  "nlsr_ok L st \<Longrightarrow> ls_event l = None \<Longrightarrow> name_lsa_wf l \<Longrightarrow> nlsr_ok L (installNameLsa L l st)"
  "nlsr_ok L st \<Longrightarrow> ls_event a = None \<Longrightarrow> adj_lsa_wf a \<Longrightarrow> nlsr_ok L (installAdjLsa L a st)"
  "nlsr_ok L st \<Longrightarrow> ls_event c = None \<Longrightarrow> nlsr_ok L (installCoordinateLsa L c st)"
  by (auto simp: installNameLsa_def installAdjLsa_def installCoordinateLsa_def nlsr_ok_installNew
      split: option.split intro: nlsr_ok_updateNameLsa nlsr_ok_updateAdjLsa nlsr_ok_updateCoordinateLsa)

lemma nlsr_ok_remove [inv_intros]:
  assumes "nlsr_ok L st"
  shows "nlsr_ok L (snd (removeNameLsa L key st))" and "nlsr_ok L (snd (removeAdjLsa L key st))"
    and "nlsr_ok L (snd (removeCoordinateLsa L key st))"
  using assms
  by (auto simp: removeNameLsa_def removeAdjLsa_def removeCoordinateLsa_def removeNptEntries_def Let_def
      split: option.split intro!: lsdb_erase_ok nlsr_ok_names nlsr_ok_npt)

lemma nlsr_ok_own [inv_intros]:
  "nlsr_ok L st \<Longrightarrow> nlsr_ok L (buildAndInstallOwnNameLsa L st)"
  "nlsr_ok L st \<Longrightarrow> nlsr_ok L (buildAndInstallOwnCoordinateLsa L st)"
  by (auto simp: buildAndInstallOwnNameLsa_def buildAndInstallOwnCoordinateLsa_def Let_def
      intro!: nlsr_ok_install name_lsa_wf_mk)

text \<open>\<open>kept E L r\<close>: the result is good, or an exception of \<open>E\<close> is raised.\<close>

definition kept :: "exn set \<Rightarrow> ndn_lib \<Rightarrow> exn + nlsr \<Rightarrow> bool" where
  "kept E L r \<longleftrightarrow> (case r of Inl e \<Rightarrow> e \<in> E | Inr st \<Rightarrow> nlsr_ok L st)"

lemma kept_simps [simp]: "kept E L (Inl e) \<longleftrightarrow> e \<in> E" "kept E L (Inr st) = nlsr_ok L st"
  by (simp_all add: kept_def)

lemma kept_and_then: "kept E L r \<Longrightarrow> (\<And>st. nlsr_ok L st \<Longrightarrow> kept E L (f st)) \<Longrightarrow> kept E L (and_then r f)"
  by (cases r) simp_all

lemma kept_require: "r = None \<longrightarrow> e \<in> E \<Longrightarrow> (\<And>x. r = Some x \<Longrightarrow> kept E L (f x)) \<Longrightarrow> kept E L (and_then (require e r) f)"
  by (cases r) simp_all

lemma kept_publish [inv_intros]: "nlsr_ok L st \<Longrightarrow> kept E L (publishRoutingUpdate L st)"
  using core_okD(7) [of L st]
  by (simp add: publishRoutingUpdate_def publishSyncUpdate_def on_io_def nlsr_ok_timers writeSeqNoToFile_def)
    (simp add: nlsr_ok_def)

lemma kept_ownAdj [inv_intros]: "nlsr_ok L st \<Longrightarrow> kept E L (buildAndInstallOwnAdjLsa L st)"
  by (auto simp: buildAndInstallOwnAdjLsa_def Let_def
      intro!: kept_and_then kept_publish nlsr_ok_install adj_lsa_wf_mk)

text \<open>The callback leaves the agenda and the flag is cleared first.\<close>

lemma kept_buildAdjLsa [inv_intros]:
  assumes "nlsr_ok L (st\<lparr>n_isBuildAdjLsaSheduled := False\<rparr>)"
  shows "kept E L (buildAdjLsa L st)"
proof -
  have "nlsr_ok L (after d EvBuildAdjLsa (st\<lparr>n_isBuildAdjLsaSheduled := True\<rparr>))" for d
  proof -
    have "core_ok L (after d EvBuildAdjLsa (st\<lparr>n_isBuildAdjLsaSheduled := True\<rparr>))"
      using assms by (intro core_ok_after) (simp_all add: nlsr_ok_def is_fib_event_def)
    then show ?thesis
      using assms by (simp add: nlsr_ok_def flags_ok_def) (simp add: after_def on_io_def)
  qed
  with assms show ?thesis
    by (auto simp: buildAdjLsa_def Let_def intro!: kept_and_then kept_ownAdj nlsr_ok_scheduleCalculation nlsr_ok_remove)
qed

lemma kept_refresh [inv_intros]:
  assumes ok: "nlsr_ok L st"
  shows "name_lsa_wf l \<Longrightarrow> kept E L (refreshNameLsa L l st)" and "adj_lsa_wf a \<Longrightarrow> kept E L (refreshAdjLsa L a st)"
    and "kept E L (refreshCoordinateLsa L c st)"
proof -
  note t = timed_schedule [of L "st'\<lparr>n_seq := x\<rparr>" for st' x, unfolded timed_def]
  show "name_lsa_wf l \<Longrightarrow> kept E L (refreshNameLsa L l st)"
    using ok t(1) by (auto simp: refreshNameLsa_def Let_def case_prod_beta name_lsa_wf_def intro!: kept_publish lsdb_put_ok)
  show "adj_lsa_wf a \<Longrightarrow> kept E L (refreshAdjLsa L a st)"
    using ok t(2) by (auto simp: refreshAdjLsa_def Let_def case_prod_beta adj_lsa_wf_def intro!: kept_publish lsdb_put_ok)
  show "kept E L (refreshCoordinateLsa L c st)"
    using ok t(3) by (auto simp: refreshCoordinateLsa_def Let_def case_prod_beta intro!: kept_publish lsdb_put_ok)
qed

lemma isOwnLsa_ok: "nlsr_ok L st \<Longrightarrow> isOwnLsa L l st = Inr (ls_origRouter l = self st)"
  using core_okD(8) [of L st] by (simp add: isOwnLsa_def nlsr_ok_def)

lemma kept_expire [inv_intros]:
  assumes ok: "nlsr_ok L st"
  shows "kept E L (exprireOrRefreshNameLsa L key q st)" and "kept E L (exprireOrRefreshAdjLsa L key q st)"
    and "kept E L (exprireOrRefreshCoordinateLsa L key q st)"
  using ok found_lsa [of key st] stored_wf [OF ok] isOwnLsa_ok [OF ok, of l for l :: name_lsa]
    isOwnLsa_ok [OF ok, of l for l :: adj_lsa] isOwnLsa_ok [OF ok, of l for l :: cor_lsa]
  by (auto simp: exprireOrRefreshNameLsa_def exprireOrRefreshAdjLsa_def exprireOrRefreshCoordinateLsa_def
      scheduleIfHyperbolic_def split: option.split
      intro!: kept_and_then kept_refresh nlsr_ok_remove nlsr_ok_scheduleCalculation)

end
