(* ===== verification/Daemon_Invariant.thy ===== *)
theory Daemon_Invariant
  imports Lsdb_Invariant
begin

text \<open>
  The route calculation and the handlers of the exchange of LSAs, the sync protocol, the hello
  protocol, the operator's commands and the daemon itself keep the invariant.
\<close>

section \<open>Route calculation\<close>

lemma core_ok_routes:
  "core_ok L st \<Longrightarrow> rt_wf (rt_table rt) \<Longrightarrow> core_ok L (st\<lparr>n_routingTable := rt\<rparr>)"
  by (simp add: core_ok_def self_def lsdb_ok_def lsa_events_def)

lemma calculated_wf:
  assumes "cf_routerPrefix c \<in> ls_origRouter ` set lsdb" and "rt_wf (rt_table rt)"
  shows "\<exists>rt'. calculateLsRoutingTable c lsdb adl rt = Some rt' \<and> rt_wf (rt_table rt')"
  using calculateLs_returns [OF assms(1), of adl rt] assms(2) by (auto simp: rt_wf_fold)

lemma hyperbolic_wf:
  "rt_wf (rt_table rt) \<Longrightarrow> rt_wf (rt_table (calculateHypRoutingTable dry c as cs adl rt))"
  by (simp add: calculateHypRoutingTable_def calculatePaths_tables Let_def rt_wf_fold)

lemma own_adjacency_key:
  assumes "component_uri_ok L" and "n \<noteq> []"
  shows "ofUri L (toUri L n @ ''/'' @ ''adjacency'') = Some (n @ [ADJ_TYPE])"
  using assms by (simp add: component_uri_ok_def plain_components_def ADJ_TYPE_def)

lemma doesAdjLsaExist_iff: "doesAdjLsaExist (r @ [ADJ_TYPE]) db \<longleftrightarrow> r \<in> ls_origRouter ` set db"
  by (auto simp: doesAdjLsaExist_def adjLsaKey_def find_None_all split: option.split dest!: find_SomeD)

lemma runCalculations_ok:
  assumes "self st \<in> ls_origRouter ` set (n_adjLsdb st)" and "rt_wf (rt_table (n_routingTable st))"
  shows "\<exists>rt. runCalculations st = Inr (st\<lparr>n_routingTable := rt\<rparr>) \<and> rt_wf (rt_table rt)"
proof -
  obtain rt where rt: "calculateLsRoutingTable (n_conf st) (n_adjLsdb st) (n_adl st) (n_routingTable st) = Some rt"
      "rt_wf (rt_table rt)"
    using calculated_wf assms by (metis self_def)
  let ?hyp = "cf_hyperbolicState (n_conf st)"
  let ?calc = "\<lambda>dry. calculateHypRoutingTable dry (n_conf st) (n_adjLsdb st) (n_corLsdb st) (n_adl st)"
  define r1 where "r1 = (if ?hyp = HYPERBOLIC_STATE_OFF \<or> ?hyp = HYPERBOLIC_STATE_DRY_RUN then rt else n_routingTable st)"
  define r2 where "r2 = (if ?hyp = HYPERBOLIC_STATE_ON then ?calc False r1 else r1)"
  define r3 where "r3 = (if ?hyp = HYPERBOLIC_STATE_DRY_RUN then ?calc True r2 else r2)"
  have "rt_wf (rt_table r3)"
    using rt(2) assms(2) hyperbolic_wf by (simp add: r1_def r2_def r3_def)
  moreover have 1: "(if ?hyp = HYPERBOLIC_STATE_OFF \<or> ?hyp = HYPERBOLIC_STATE_DRY_RUN
      then and_then (require Stuck (Some rt)) (\<lambda>rt. Inr (st\<lparr>n_routingTable := rt\<rparr>)) else Inr st) =
      Inr (st\<lparr>n_routingTable := r1\<rparr>)"
    by (simp add: r1_def)
  have "runCalculations st = Inr (st\<lparr>n_routingTable := r3\<rparr>)"
    unfolding runCalculations_def rt(1) Let_def 1 and_then_simps r3_def r2_def by (auto split: if_split)
  ultimately show ?thesis by blast
qed

text \<open>The calculation, run when its callback has left the agenda.\<close>

lemma kept_calculate [inv_intros]:
  assumes L: "component_uri_ok L" and ok: "nlsr_ok L (st\<lparr>n_isRouteCalculationScheduled := False\<rparr>)"
  shows "kept E L (calculate L st)"
proof -
  let ?done = "\<lambda>st. st\<lparr>n_isRouteCalculationScheduled := False, n_isRoutingTableCalculating := False\<rparr>"
  have core: "core_ok L st" and fl: "\<not> n_isRoutingTableCalculating st"
    "pending_count EvCalculate (n_io st) = 0"
    "pending_count EvBuildAdjLsa (n_io st) = of_bool (n_isBuildAdjLsaSheduled st)"
    using ok by (simp_all add: nlsr_ok_def flags_ok_def)
  have update: "kept E L (Inr (?done (nptUpdateWithNewRoute L (st\<lparr>n_isRoutingTableCalculating := b, n_routingTable := rt\<rparr>))))"
    if "rt_wf (rt_table rt)" for rt b
  proof -
    let ?st = "st\<lparr>n_isRoutingTableCalculating := b, n_routingTable := rt\<rparr>"
    have "core_ok L ?st" using core_ok_routes that core by simp
    then have "core_ok L (with_tables (updateWithNewRoute L (n_conf st) (n_adl st) (rt_table rt)) ?st) \<and>
        other_events (n_io (with_tables (updateWithNewRoute L (n_conf st) (n_adl st) (rt_table rt)) ?st)) = other_events (n_io ?st)"
      by (intro with_tables_ok) (simp_all add: tables_step_entries)
    then
    have "core_ok L (nptUpdateWithNewRoute L ?st) \<and>
        other_events (n_io (nptUpdateWithNewRoute L ?st)) = other_events (n_io st)"
      by (simp add: nptUpdateWithNewRoute_def)
    then show ?thesis
      using fl by (simp add: nlsr_ok_def flags_ok_def pending_count_other is_fib_event_def)
        (simp add: nptUpdateWithNewRoute_def)
  qed
  have key: "ofUri L (toUri L (self st) @ ''/adjacency'') = Some (self st @ [ADJ_TYPE])"
    using own_adjacency_key [OF L core_okD(9) [OF core]] by simp
  let ?st = "st\<lparr>n_isRoutingTableCalculating := True\<rparr>"
  have calc: "calculate L st = and_then
      (if self st \<in> ls_origRouter ` set (n_adjLsdb st) then
         if n_isBuildAdjLsaSheduled st \<noteq> True then
           and_then (runCalculations (clearRoutingTables ?st)) (\<lambda>st. Inr (nptUpdateWithNewRoute L st))
         else Inr ?st
       else Inr (nptUpdateWithNewRoute L (clearRoutingTables ?st)))
      (\<lambda>st. Inr (?done st))"
    using fl(1) key by (simp add: calculate_def Let_def doesAdjLsaExist_iff self_def)
  show ?thesis
  proof (cases "self st \<in> ls_origRouter ` set (n_adjLsdb st) \<and> \<not> n_isBuildAdjLsaSheduled st")
    case True
    obtain rt where "runCalculations (clearRoutingTables ?st) = Inr (?st\<lparr>n_routingTable := rt\<rparr>)" "rt_wf (rt_table rt)"
      using runCalculations_ok [of "clearRoutingTables ?st"] True by (auto simp: clearRoutingTables_def self_def)
    then show ?thesis
      using update [of rt True] True by (simp add: calc)
  next
    case False
    have "kept E L (Inr (?done ?st))" using core fl by (simp add: nlsr_ok_def flags_ok_def)
    moreover have "kept E L (Inr (?done (nptUpdateWithNewRoute L (clearRoutingTables ?st))))"
      using update [of "n_routingTable (clearRoutingTables st)" True] by (simp add: clearRoutingTables_def)
    ultimately show ?thesis
      using False by (simp add: calc)
  qed
qed

section \<open>The exchange of LSAs\<close>

text \<open>The exceptions a received packet can raise.\<close>

definition packet_exns :: "exn set" where
  "packet_exns = {BadName, BadNumber, BadBlock, PastTheEnd}"

lemma packet_exns_simps [simp]:
  "BadName \<in> packet_exns" "BadNumber \<in> packet_exns" "BadBlock \<in> packet_exns" "PastTheEnd \<in> packet_exns"
  "Stuck \<notin> packet_exns" "SyncSocketMissing \<notin> packet_exns"
  by (simp_all add: packet_exns_def)

lemma kept_expressInterest [inv_intros]:
  assumes "nlsr_ok L st" and "BadNumber \<in> E"
  shows "kept E L (expressInterest L n k t st)"
  using assms
  by (auto simp: expressInterest_def Let_def case_prod_beta split: option.split intro!: kept_require)

lemma nlsr_ok_putLsaData [simp]: "nlsr_ok L (putLsaData n x st) = nlsr_ok L st"
  by (simp add: putLsaData_def)

lemma kept_processInterest [inv_intros]:
  assumes "nlsr_ok L st" and "BadNumber \<in> E"
  shows "kept E L (processInterest L n st)"
  using assms
  by (auto simp: processInterest_def Let_def processInterestForNameLsa_def processInterestForAdjacencyLsa_def
      processInterestForCoordinateLsa_def split: option.split intro!: kept_require)

lemma kept_content [inv_intros]:
  assumes ok: "nlsr_ok L st" and E: "BadName \<in> E" "PastTheEnd \<in> E"
  shows "kept E L (processContentNameLsa L k q x st)" and "kept E L (processContentAdjacencyLsa L k q x st)"
    and "kept E L (processContentCoordinateLsa L k q x st)"
  using assms parsed_event [of L x] parsed_name_lsa_wf [of L x] parsed_adj_lsa_wf [of L x]
  by (auto simp: processContentNameLsa_def processContentAdjacencyLsa_def processContentCoordinateLsa_def
      install_parsed_def split: parsed.split intro!: nlsr_ok_install)

lemma kept_onContentValidated [inv_intros]:
  assumes "nlsr_ok L st" and "packet_exns \<subseteq> E"
  shows "kept E L (onContentValidated L beyond data st)"
  using assms
  by (auto simp: onContentValidated_def Let_def packet_exns_def intro!: kept_require kept_and_then kept_content)

lemma nlsr_ok_content [inv_intros]:
  "nlsr_ok L st \<Longrightarrow> nlsr_ok L (onContent d t n q st)" "nlsr_ok L st \<Longrightarrow> nlsr_ok L (retryContentValidation d t n q st)"
  "nlsr_ok L st \<Longrightarrow> nlsr_ok L (onContentValidationFailed d t n q st)"
  by (auto simp: onContent_def retryContentValidation_def onContentValidationFailed_def Let_def nlsr_ok_after)

lemma kept_timedOut [inv_intros]:
  assumes "nlsr_ok L st" and "BadNumber \<in> E"
  shows "kept E L (processInterestTimedOut L n k t m q st)"
  using assms by (auto simp: processInterestTimedOut_def intro!: kept_expressInterest)

section \<open>Sync updates\<close>

lemma nlsr_ok_until_exception:
  "list_all (\<lambda>f. \<forall>st. nlsr_ok L st \<longrightarrow> kept UNIV L (f st)) fs \<Longrightarrow> nlsr_ok L st \<Longrightarrow> nlsr_ok L (until_exception fs st)"
  by (induction fs arbitrary: st) (auto simp: kept_def split: sum.splits)

lemma nlsr_ok_sync [inv_intros]: "nlsr_ok L st \<Longrightarrow> nlsr_ok L (processUpdateFromSync L u st)"
  by (auto simp: processUpdateFromSync_def request_if_new_def expressInterestForLsa_def
      split: option.split intro!: nlsr_ok_until_exception kept_expressInterest simp del: until_exception.simps)

lemma kept_onNsyncUpdate [inv_intros]:
  "nlsr_ok L st \<Longrightarrow> BadName \<in> E \<Longrightarrow> kept E L (onNsyncUpdate L us st)"
  by (induction L us st rule: onNsyncUpdate.induct) (auto intro!: kept_require nlsr_ok_sync)

section \<open>The hello protocol\<close>

lemma nlsr_ok_adl:
  "nlsr_ok L st \<Longrightarrow> adl_wf adl \<Longrightarrow> nlsr_ok L (st\<lparr>n_adl := adl\<rparr>)"
  by (simp add: nlsr_ok_def core_ok_def lsdb_ok_def lsa_events_def flags_ok_def self_def)

lemma nlsr_ok_wf: "nlsr_ok L st \<Longrightarrow> adl_wf (n_adl st)"
  by (simp add: nlsr_ok_def core_ok_def)

lemma nlsr_ok_adl_update:
  "nlsr_ok L st \<Longrightarrow> (\<And>a. ad_name (f a) = ad_name a) \<Longrightarrow> nlsr_ok L (st\<lparr>n_adl := adl_update n f (n_adl st)\<rparr>)"
  by (intro nlsr_ok_adl adl_wf_update nlsr_ok_wf)

lemma nlsr_ok_hello_io [simp]:
  "nlsr_ok L (hello_expressInterest n w st) = nlsr_ok L st"
  "nlsr_ok L (sayHello K n st) = nlsr_ok L st"
  "nlsr_ok L (registerPrefixes K n u c t st) = nlsr_ok L st"
  "nlsr_ok L (registerShared K a t n st) = nlsr_ok L st"
  "nlsr_ok L (contactNeighbor K a st) = nlsr_ok L st"
  "nlsr_ok L (setStrategies st) = nlsr_ok L st"
  by (simp_all add: hello_expressInterest_def sayHello_def registerPrefixes_def registerShared_def
      contactNeighbor_def setStrategies_def on_io_def nlsr_ok_timers registerPrefixOnNewFace_def fib_createFace_def
      fib_setStrategy_def)

lemma nlsr_ok_hello [inv_intros]:
  assumes ok: "nlsr_ok L st"
  shows "nlsr_ok L (scheduleInterest w st)" and "nlsr_ok L (sendScheduledInterest K w st)"
    and "nlsr_ok L (hello_onContent d st)" and "nlsr_ok L (hello_processInterestTimedOut K n st)"
    and "nlsr_ok L (hello_onContentValidated K d st)" and "nlsr_ok L (onRegistrationSuccess K fid n t st)"
    and "nlsr_ok L (hello_onRegistrationFailure n st)"
proof -
  note adl = nlsr_ok_adl [OF ok] adl_wf_update nlsr_ok_wf [OF ok]
  have schedule: "nlsr_ok L (scheduleInterest w st)" if "nlsr_ok L st" for w st
    using that by (simp add: scheduleInterest_def nlsr_ok_after)
  then show "nlsr_ok L (scheduleInterest w st)" using ok .
  have "nlsr_ok L (fold (contactNeighbor K) xs st)" for xs
    by (rule fold_keeps) (simp_all add: ok)
  then show "nlsr_ok L (sendScheduledInterest K w st)"
    by (simp add: sendScheduledInterest_def Let_def schedule)
  show "nlsr_ok L (hello_onContent d st)" by (simp add: hello_onContent_def ok)
  show "nlsr_ok L (hello_processInterestTimedOut K n st)"
    using ok by (simp add: hello_processInterestTimedOut_def Let_def incrementTimedOutInterestCount_def
        setStatusOfNeighbor_def nlsr_ok_scheduleBuild adl)
  show "nlsr_ok L (hello_onContentValidated K d st)"
    using ok by (simp add: hello_onContentValidated_def Let_def setTimedOutInterestCount_def
        setStatusOfNeighbor_def nlsr_ok_scheduleBuild adl)
  show "nlsr_ok L (onRegistrationSuccess K fid n t st)"
    using ok by (simp add: onRegistrationSuccess_def Let_def adl split: option.split)
  show "nlsr_ok L (hello_onRegistrationFailure n st)"
    using ok by (simp add: hello_onRegistrationFailure_def Let_def adl nlsr_ok_scheduleBuild split: option.split)
qed

lemma kept_hello_processInterest [inv_intros]:
  assumes "nlsr_ok L st" and "BadBlock \<in> E"
  shows "kept E L (hello_processInterest L n st)"
  using assms by (auto simp: hello_processInterest_def Let_def split: option.split intro!: kept_require)

section \<open>Commands of the operator\<close>

lemma nlsr_ok_responses [simp]:
  "nlsr_ok L (sendResponse code txt st) = nlsr_ok L st" "nlsr_ok L (sendNack st) = nlsr_ok L st"
  "nlsr_ok L (onInterest n st) = nlsr_ok L st" "nlsr_ok L (onCommandValidationFailed txt st) = nlsr_ok L st"
  by (simp_all add: sendResponse_def sendNack_def onInterest_def onCommandValidationFailed_def)

lemma nlsr_ok_npl:
  "nlsr_ok L st \<Longrightarrow> distinct ns \<Longrightarrow> nlsr_ok L (st\<lparr>n_npl := ns\<rparr>)"
  by (simp add: nlsr_ok_def core_ok_def lsdb_ok_def lsa_events_def flags_ok_def self_def)

lemma kept_changePrefixes:
  assumes ok: "nlsr_ok L st" and change: "\<And>n. distinct (snd (change n (n_npl st)))"
  shows "kept E L (changePrefixes L change ps st)"
proof -
  have "nlsr_ok L (st\<lparr>n_npl := snd (change n (n_npl st))\<rparr>)" for n
    by (rule nlsr_ok_npl [OF ok change])
  then show ?thesis
    by (auto simp: changePrefixes_def ok case_prod_beta intro!: kept_publish nlsr_ok_own)
qed

lemma kept_commands [inv_intros]:
  assumes ok: "nlsr_ok L st"
  shows "kept E L (advertise L ps st)" and "kept E L (withdraw L ps st)" and "kept E L (onCommandValidated L x n st)"
proof -
  have d: "distinct (n_npl st)" using ok by (simp add: nlsr_ok_def core_ok_def)
  show a: "kept E L (advertise L ps st)" for ps
    using ok npl.insert_wf [OF d] by (simp add: advertise_def kept_changePrefixes)
  show w: "kept E L (withdraw L ps st)" for ps
    using ok npl.remove_wf [OF d] by (simp add: withdraw_def kept_changePrefixes)
  show "kept E L (onCommandValidated L x n st)"
    by (auto simp: onCommandValidated_def Let_def ok split: option.split intro!: kept_and_then a w)
qed

section \<open>Keys and faces\<close>

lemma nlsr_ok_keys [simp]:
  "nlsr_ok L (loadCertToPublish K cert st) = nlsr_ok L st"
  "nlsr_ok L (onKeyInterest K cache n m st) = nlsr_ok L st"
  by (auto simp: loadCertToPublish_def onKeyInterest_def Let_def split: option.split)

lemma adl_wf_update_first:
  "adl_wf l \<Longrightarrow> (\<And>a. ad_name (f a) = ad_name a) \<Longrightarrow> adl_wf (update_first P f l)"
  by (simp add: adl_wf_def map_update_first_same)

lemma nlsr_ok_faces [inv_intros]:
  assumes ok: "nlsr_ok L st"
  shows "nlsr_ok L (onFaceDestroyed fid st)" and "nlsr_ok L (onFaceEventNotification b fid st)"
  using nlsr_ok_adl [OF ok adl_wf_update_first [OF nlsr_ok_wf [OF ok]]] ok
  by (auto simp: onFaceDestroyed_def onFaceEventNotification_def Let_def split: option.split intro!: nlsr_ok_scheduleBuild)

section \<open>Results of commands to the forwarder\<close>

lemma nlsr_ok_fib_face [simp]: "nlsr_ok L (st\<lparr>n_fib := fib_onRegistration fid uri (n_fib st)\<rparr>) = nlsr_ok L st"
proof -
  have find: "fib_find n (fib_onRegistration fid uri f) = fib_find n f" for n f
    by (simp add: fib_onRegistration_def fib_find_def)
  have tbl: "fib_table (fib_onRegistration fid uri f) = fib_table f" for f
    by (simp add: fib_onRegistration_def)
  have "tables_ok c t (fib_onRegistration fid uri f) s = tables_ok c t f s" for c t f s
    by (simp add: tables_ok_def fib_wf_def fib_timers_ok_def fib_npt_ok_def fib_match_cong [OF find refl] find tbl)
  then show ?thesis
    by (simp add: nlsr_ok_def core_ok_def lsdb_ok_def lsa_events_def flags_ok_def self_def)
qed

lemma nlsr_ok_refused [simp]:
  "nlsr_ok L (on_io (onRegistrationFailure adl p uri k) st) = nlsr_ok L st"
  "nlsr_ok L (on_io (onSetStrategyFailure n x r) st) = nlsr_ok L st"
  "nlsr_ok L (on_io (registerOnCreatedFace fid p k cb) st) = nlsr_ok L st"
  "nlsr_ok L (on_io (destroyFaceInNfd fid) st) = nlsr_ok L st"
  by (simp_all add: on_io_def nlsr_ok_timers onRegistrationFailure_def onSetStrategyFailure_def fib_setStrategy_def
      registerOnCreatedFace_def destroyFaceInNfd_def)

section \<open>Callbacks of the scheduler\<close>

text \<open>The scheduler takes a callback off the agenda and runs it.\<close>

definition take_off :: "nat \<Rightarrow> nlsr \<Rightarrow> nlsr" where
  "take_off i = on_io (cancelEvent (Some i))"

text \<open>\<open>Fib::remove\<close>, called by the timer of an entry.\<close>

definition expireFibEntry :: "name \<Rightarrow> nlsr \<Rightarrow> nlsr" where
  "expireFibEntry n st = (case fib_remove (n_adl st) n (n_fib st, n_io st) of
     (f, s) \<Rightarrow> st\<lparr>n_fib := f, n_io := s\<rparr>)"

lemma cancel_emit: "cancelEvent i (emit x s) = emit x (cancelEvent i s)"
  by (simp add: cancelEvent_def emit_def split: option.split)

lemma cancel_unregister:
  "cancelEvent i (unregisterUpdatable adl f n uri s) = unregisterUpdatable adl f n uri (cancelEvent i s)"
  by (simp add: unregisterUpdatable_def unregisterPrefix_def Let_def cancel_emit)

lemma cancel_twice: "cancelEvent i (cancelEvent i s) = cancelEvent i s"
  by (cases i) (simp_all add: cancelEvent_def)

text \<open>The entry cancels its timer, so it makes no difference that the timer is off already.\<close>

lemma fib_remove_fired:
  assumes "fib_timers_ok f s" and "fib_wf c f" and "(i, d, EvFibRemove n) \<in> set (io_pending s)"
  shows "fib_remove adl n (f, cancelEvent (Some i) s) = fib_remove adl n (f, s)"
proof -
  obtain e where e: "e \<in> set (fib_table f)" "fe_name e = n" "fe_event e = Some i"
    using assms(1,3) unfolding fib_timers_ok_def by blast
  then have find: "fib_find n f = Some e"
    using assms(2) by_key_mem [of fe_name "fib_table f" e] by (simp add: fib_wf_def fib_find_by_key)
  have commute: "fold (\<lambda>h. unregisterUpdatable adl f n (nh_faceUri h)) hs (cancelEvent (Some i) s) =
      cancelEvent (Some i) (fold (\<lambda>h. unregisterUpdatable adl f n (nh_faceUri h)) hs s)" for hs
    by (induction hs arbitrary: s) (simp_all add: cancel_unregister [symmetric])
  show ?thesis
    by (simp add: fib_remove_def find e(2,3) commute cancel_twice Let_def)
qed

lemma nlsr_ok_expireFibEntry:
  assumes ok: "nlsr_ok L st" and ev: "(i, d, EvFibRemove n) \<in> set (io_pending (n_io st))"
  shows "nlsr_ok L (expireFibEntry n (take_off i st))"
proof -
  have t: "tables_ok (n_conf st) (n_npt st) (n_fib st) (n_io st)"
    using ok by (simp add: nlsr_ok_def core_ok_def)
  obtain f s where r: "fib_remove (n_adl st) n (n_fib st, n_io st) = (f, s)" by fastforce
  have "tables_step (n_conf st) (n_npt st, n_fib st, n_io st) (n_npt st, f, s)"
    using tables_ok_remove [OF t r] fib_part_step [OF t, of "(f, s)" L "n_adl st" n "[]"] r
    by (simp add: tables_step_def)
  then have "nlsr_ok L (with_tables (\<lambda>_. (n_npt st, f, s)) st)"
    using ok by (intro nlsr_ok_tables) simp_all
  moreover have "expireFibEntry n (take_off i st) = with_tables (\<lambda>_. (n_npt st, f, s)) st"
    using fib_remove_fired [OF tables_okD(1) [OF t] tables_okD(3) [OF t] ev] r
    by (simp add: expireFibEntry_def take_off_def on_io_def with_tables_def)
  ultimately show ?thesis by simp
qed

end
