(* ===== verification/System.thy ===== *)
theory System
  imports Daemon_Invariant
begin

text \<open>
  The daemon as a whole: the event loop takes what arrives (packets, results of commands to
  the forwarder, notifications) and the scheduler's callbacks one at a time and runs the
  handler of each to its end; an exception that leaves a handler ends the loop
  (src/src/nlsr-runner.cpp). The order is arbitrary: a callback may run at any time after it
  was scheduled, whatever its delay.
\<close>

section \<open>Handlers\<close>

text \<open>What a callback of the scheduler runs.\<close>

fun run_callback :: "ndn_lib \<Rightarrow> event \<Rightarrow> nlsr \<Rightarrow> exn + nlsr" where
  "run_callback L (EvFibRemove n) st = Inr (expireFibEntry n st)"
| "run_callback L EvCalculate st = calculate L st"
| "run_callback L EvBuildAdjLsa st = buildAdjLsa L st"
| "run_callback L (EvExpireName key seqNo) st = exprireOrRefreshNameLsa L key seqNo st"
| "run_callback L (EvExpireAdj key seqNo) st = exprireOrRefreshAdjLsa L key seqNo st"
| "run_callback L (EvExpireCor key seqNo) st = exprireOrRefreshCoordinateLsa L key seqNo st"
| "run_callback L (EvHello seconds) st = Inr (sendScheduledInterest L seconds st)"
| "run_callback L (EvRetryValidation data deadline lsaName seqNo) st =
     Inr (retryContentValidation data deadline lsaName seqNo st)"
| "run_callback L EvLogSeqNo st = Inr (logSeqNo st)"
| "run_callback L EvLogSnapshot st = Inr (logSnapshot st)"

text \<open>What reaches the daemon from outside, with the arguments its handler was bound to.\<close>

datatype input =
    LsaInterestIn name
  | LsaDataIn data_packet time_point name "64 word"
  | LsaValid string data_packet
  | LsaInvalid data_packet time_point name "64 word"
  | LsaTimeout name "32 word" time_point name "64 word"
  | SyncUpdates "(string \<times> 64 word) list"
  | HelloInterestIn name
  | HelloDataIn data_packet
  | HelloValid data_packet
  | HelloTimeout name
  | FaceCreated "64 word" face_continuation
  | FaceRefused face_continuation
  | Registered "64 word" rib_callback
  | RegistrationRefused control_parameters rib_callback
  | StrategyRefused name string "32 word"
  | FaceEvent bool "64 word"
  | CommandIn name
  | CommandValid "component \<Rightarrow> parameters option" name
  | CommandInvalid string
  | KeyInterestIn "name \<Rightarrow> certificate option" name name

text \<open>The failure of a face for the registration of a neighbor is a failure of the registration.\<close>

fun deliver :: "ndn_lib \<Rightarrow> input \<Rightarrow> nlsr \<Rightarrow> exn + nlsr" where
  "deliver L (LsaInterestIn n) st = processInterest L n st"
| "deliver L (LsaDataIn d t n q) st = Inr (onContent d t n q st)"
| "deliver L (LsaValid beyond d) st = onContentValidated L beyond d st"
| "deliver L (LsaInvalid d t n q) st = Inr (onContentValidationFailed d t n q st)"
| "deliver L (LsaTimeout n k t m q) st = processInterestTimedOut L n k t m q st"
| "deliver L (SyncUpdates us) st = onNsyncUpdate L us st"
| "deliver L (HelloInterestIn n) st = hello_processInterest L n st"
| "deliver L (HelloDataIn d) st = Inr (hello_onContent d st)"
| "deliver L (HelloValid d) st = Inr (hello_onContentValidated L d st)"
| "deliver L (HelloTimeout n) st = Inr (hello_processInterestTimedOut L n st)"
| "deliver L (FaceCreated fid (ThenRegister p k cb)) st = Inr (on_io (registerOnCreatedFace fid p k cb) st)"
| "deliver L (FaceCreated fid ThenDestroy) st = Inr (on_io (destroyFaceInNfd fid) st)"
| "deliver L (FaceRefused (ThenRegister p k (CbHello n t))) st = Inr (hello_onRegistrationFailure n st)"
| "deliver L (FaceRefused _) st = Inr st"
| "deliver L (Registered fid (CbFib uri k)) st = Inr (st\<lparr>n_fib := fib_onRegistration fid uri (n_fib st)\<rparr>)"
| "deliver L (Registered fid (CbHello n t)) st = Inr (onRegistrationSuccess L fid n t st)"
| "deliver L (RegistrationRefused p (CbFib uri k)) st = Inr (on_io (onRegistrationFailure (n_adl st) p uri k) st)"
| "deliver L (RegistrationRefused p (CbHello n t)) st = Inr (hello_onRegistrationFailure n st)"
| "deliver L (StrategyRefused n strategy k) st = Inr (on_io (onSetStrategyFailure n strategy k) st)"
| "deliver L (FaceEvent destroyed fid) st = Inr (onFaceEventNotification destroyed fid st)"
| "deliver L (CommandIn n) st = Inr (onInterest n st)"
| "deliver L (CommandValid extract n) st = onCommandValidated L extract n st"
| "deliver L (CommandInvalid info) st = Inr (onCommandValidationFailed info st)"
| "deliver L (KeyInterestIn cache n m) st = Inr (onKeyInterest L cache n m st)"

section \<open>Executions\<close>

text \<open>\<open>NlsrRunner::run\<close>: the configuration file has set the parameters, the neighbors,
  the own prefixes, the certificates and whether updates of prefixes are accepted.\<close>

definition configured :: "conf \<Rightarrow> adjacency_list \<Rightarrow> name_prefix_list \<Rightarrow> (name \<Rightarrow> certificate option) \<Rightarrow> bool \<Rightarrow> io \<Rightarrow> nlsr" where
  "configured c adl npl certs enabled s = (nlsr_of s)\<lparr>n_conf := c, n_adl := adl, n_npl := npl,
     n_certStore := certs, n_isPrefixUpdateEnabled := enabled\<rparr>"

definition fresh :: "io \<Rightarrow> bool" where
  "fresh s \<longleftrightarrow> io_pending s = []"

inductive step :: "ndn_lib \<Rightarrow> nlsr \<Rightarrow> nlsr \<Rightarrow> bool" for L where
  received: "deliver L i st = Inr st' \<Longrightarrow> step L st st'"
| fired: "(i, d, ev) \<in> set (io_pending (n_io st)) \<Longrightarrow> run_callback L ev (take_off i st) = Inr st' \<Longrightarrow> step L st st'"
| passed: "0 \<le> d \<Longrightarrow> step L st (st\<lparr>n_io := (n_io st)\<lparr>io_system_now := t, io_steady_now := io_steady_now (n_io st) + d\<rparr>\<rparr>)"

inductive reachable :: "ndn_lib \<Rightarrow> nlsr \<Rightarrow> nlsr \<Rightarrow> bool" for L st0 where
  start: "reachable L st0 st0"
| more: "reachable L st0 st \<Longrightarrow> step L st st' \<Longrightarrow> reachable L st0 st'"

inductive_cases stepE [elim]: "step L st st'"
inductive_simps step_iff: "step L st st'"

text \<open>A daemon that was configured and initialised.\<close>

definition started :: "ndn_lib \<Rightarrow> nlsr \<Rightarrow> bool" where
  "started L st \<longleftrightarrow> (\<exists>c adl npl cs en s home file cert. fresh s \<and> adl_wf adl \<and> distinct npl \<and>
     cf_routerPrefix (buildRouterPrefix c) \<noteq> [] \<and>
     st = initialize L home file cert (configured c adl npl cs en s))"

section \<open>The invariant of executions\<close>

lemma mset_without:
  "distinct (map fst xs) \<Longrightarrow> (i, d, ev) \<in> set xs \<Longrightarrow>
   mset (map (\<lambda>(_, _, e). e) xs) = add_mset ev (mset (map (\<lambda>(_, _, e). e) (filter (\<lambda>(j, _). j \<noteq> i) xs)))"
proof (induction xs)
  case (Cons x xs)
  show ?case
  proof (cases "fst x = i")
    case True
    then have "i \<notin> fst ` set xs" using Cons.prems(1) by auto
    then have "filter (\<lambda>(j, _). j \<noteq> i) xs = xs" by (intro filter_True) force
    moreover have "x = (i, d, ev)"
      using Cons.prems(2) \<open>i \<notin> fst ` set xs\<close> by (metis fst_conv image_eqI set_ConsD)
    ultimately show ?thesis by simp
  next
    case False
    then show ?thesis using Cons by (auto simp: case_prod_beta)
  qed
qed simp

lemma pending_count_mset: "pending_count ev s = count (mset (events s)) ev"
proof -
  have "length (filter (\<lambda>x. x = ev) xs) = count (mset xs) ev" for xs
    by (induction xs) auto
  then show ?thesis by (simp add: pending_count_def)
qed

lemma pending_count_cancel:
  assumes "agenda_ok s" and "(i, d, ev) \<in> set (io_pending s)"
  shows "pending_count ev' s = pending_count ev' (cancelEvent (Some i) s) + of_bool (ev = ev')"
  using mset_without [of "io_pending s" i d ev] assms
  by (simp add: pending_count_mset events_def cancelEvent_def agenda_ok_def)

lemma core_ok_take_off:
  assumes ok: "core_ok L st" and i: "(i, d, ev) \<in> set (io_pending (n_io st))" and ev: "\<not> is_fib_event ev"
  shows "core_ok L (take_off i st)"
proof -
  have "\<not> is_fib_event (snd (snd x))" if x: "x \<in> set (io_pending (n_io st))" "Some i = Some (fst x)" for x
  proof -
    obtain d' ev' where x': "x = (i, d', ev')" using x(2) by (cases x) auto
    then have "ev = ev'" using agenda_event_unique [OF core_okD(2) [OF ok] i] x(1) by simp
    then show ?thesis using ev x' by simp
  qed
  then show ?thesis
    unfolding take_off_def on_io_def using ok
    by (intro core_ok_io fib_timers_ok_cancel_other) (auto intro: core_okD expire_timer_grows grows_cancel)
qed

text \<open>The callback's own flag is cleared by its handler.\<close>

lemma nlsr_ok_take_off:
  assumes ok: "nlsr_ok L st" and i: "(i, d, ev) \<in> set (io_pending (n_io st))"
  shows "plain_event ev \<Longrightarrow> nlsr_ok L (take_off i st)"
    and "ev = EvCalculate \<Longrightarrow> nlsr_ok L ((take_off i st)\<lparr>n_isRouteCalculationScheduled := False\<rparr>)"
    and "ev = EvBuildAdjLsa \<Longrightarrow> nlsr_ok L ((take_off i st)\<lparr>n_isBuildAdjLsaSheduled := False\<rparr>)"
proof -
  have core: "core_ok L st" and fl: "flags_ok st" using ok by (simp_all add: nlsr_ok_def)
  note count = pending_count_cancel [OF core_okD(2) [OF core] i]
  have st: "n_io (take_off i st) = cancelEvent (Some i) (n_io st)"
    "n_isRouteCalculationScheduled (take_off i st) = n_isRouteCalculationScheduled st"
    "n_isBuildAdjLsaSheduled (take_off i st) = n_isBuildAdjLsaSheduled st"
    "n_isRoutingTableCalculating (take_off i st) = n_isRoutingTableCalculating st"
    by (simp_all add: take_off_def on_io_def)
  show "plain_event ev \<Longrightarrow> nlsr_ok L (take_off i st)"
    and "ev = EvCalculate \<Longrightarrow> nlsr_ok L ((take_off i st)\<lparr>n_isRouteCalculationScheduled := False\<rparr>)"
    and "ev = EvBuildAdjLsa \<Longrightarrow> nlsr_ok L ((take_off i st)\<lparr>n_isBuildAdjLsaSheduled := False\<rparr>)"
    using core_ok_take_off [OF core i] fl count [of EvCalculate] count [of EvBuildAdjLsa]
    by (auto simp: nlsr_ok_def flags_ok_def st plain_event_def is_fib_event_def of_bool_def split: if_splits)
qed

lemma kept_callback:
  assumes L: "component_uri_ok L" and ok: "nlsr_ok L st" and i: "(i, d, ev) \<in> set (io_pending (n_io st))"
  shows "kept {} L (run_callback L ev (take_off i st))"
proof (cases ev)
  case (EvFibRemove n)
  then show ?thesis using nlsr_ok_expireFibEntry [OF ok] i by simp
next
  case EvCalculate
  then show ?thesis using kept_calculate [OF L] nlsr_ok_take_off(2) [OF ok i] by simp
next
  case EvBuildAdjLsa
  then show ?thesis using kept_buildAdjLsa nlsr_ok_take_off(3) [OF ok i] by simp
qed (use nlsr_ok_take_off(1) [OF ok i] in
    \<open>simp_all add: kept_expire nlsr_ok_hello nlsr_ok_content logSeqNo_def logSnapshot_def nlsr_ok_after\<close>)

lemma kept_deliver:
  "nlsr_ok L st \<Longrightarrow> kept packet_exns L (deliver L i st)"
  by (induction L i st rule: deliver.induct) (simp_all add: inv_intros)

section \<open>The start\<close>

lemma nlsr_ok_empty:
  assumes "n_nameLsdb st = []" "n_adjLsdb st = []" "n_corLsdb st = []" "n_npt st = []" "fib_table (n_fib st) = []"
    and "rt_table (n_routingTable st) = []" and "adl_wf (n_adl st)" "distinct (n_npl st)" and "agenda_ok (n_io st)"
    and ev: "list_all plain_event (events (n_io st))"
    and "\<not> n_isRouteCalculationScheduled st" "\<not> n_isBuildAdjLsaSheduled st" "\<not> n_isRoutingTableCalculating st"
    and "self st \<noteq> []" "n_syncSocket st" "ofUri L (n_thisRouterPrefix st) = Some (self st)"
  shows "nlsr_ok L st"
proof -
  have "\<not> (i, d, EvFibRemove n) \<in> set (io_pending (n_io st))" for i d n
    using ev by (force simp: list_all_iff events_def plain_event_def is_fib_event_def)
  then have "tables_ok (n_conf st) (n_npt st) (n_fib st) (n_io st)"
    using assms by (simp add: tables_ok_def npt_wf_def fib_wf_def fib_timers_ok_def fib_npt_ok_def fib_find_def)
  moreover have "pending_count EvCalculate (n_io st) = 0" "pending_count EvBuildAdjLsa (n_io st) = 0"
    using ev by (auto simp: pending_count_def list_all_iff plain_event_def filter_empty_conv)
  ultimately show ?thesis
    using assms by (simp add: nlsr_ok_def core_ok_def flags_ok_def lsdb_ok_def lsdb_keys_ok_def lsa_events_def)
qed

text \<open>\<open>initialize\<close> up to the creation of the sync socket, and the rest of it.\<close>

definition prepared :: "ndn_lib \<Rightarrow> string \<Rightarrow> 64 word option \<Rightarrow> nlsr \<Rightarrow> nlsr" where
  "prepared L home file st =
     (let st = st\<lparr>n_conf := buildRouterPrefix (n_conf st)\<rparr>;
          st = st\<lparr>n_lsaRefreshTime := uint (cf_lsaRefreshTime (n_conf st))\<rparr>;
          st = st\<lparr>n_thisRouterPrefix := toUri L (self st)\<rparr>;
          st = st\<lparr>n_fib := setEntryRefreshTime (2 * cf_lsaRefreshTime (n_conf st)) (n_fib st)\<rparr>;
          st = st\<lparr>n_seq := initiateSeqNoFromFile file (setSeqFileName home (cf_seqFileDir (n_conf st)) (n_seq st))\<rparr>
      in createSyncSocket (cf_chronosyncPrefix (n_conf st)) st)"

lemma nlsr_ok_prepared:
  assumes L: "codec_ok L" and s: "fresh s" "adl_wf adl" "distinct npl" "cf_routerPrefix (buildRouterPrefix c) \<noteq> []"
  shows "nlsr_ok L (prepared L home file (configured c adl npl cs en s))"
proof -
  have "self (prepared L home file (configured c adl npl cs en s)) = cf_routerPrefix (buildRouterPrefix c)"
    by (simp add: prepared_def Let_def createSyncSocket_def buildUpdatePrefix_def configured_def self_def nlsr_of_def
        after_def on_io_def logSeqNo_def)
  moreover have "agenda_ok s" using s by (simp add: fresh_def agenda_ok_def)
  ultimately show ?thesis
    using s codec_laws(1) [OF L]
    by (intro nlsr_ok_empty)
      (simp_all add: prepared_def Let_def createSyncSocket_def buildUpdatePrefix_def configured_def self_def nlsr_of_def
        after_def on_io_def logSeqNo_def fib_empty_def setEntryRefreshTime_def rt_empty_def agenda_ok_schedule
        fresh_def events_def [of s])
qed

lemma nlsr_ok_routes: "rt_table rt = rt_table (n_routingTable st) \<Longrightarrow> nlsr_ok L (st\<lparr>n_routingTable := rt\<rparr>) = nlsr_ok L st"
  by (simp add: nlsr_ok_def core_ok_def lsdb_ok_def lsa_events_def flags_ok_def self_def)

lemma nlsr_ok_filters [simp]:
  "nlsr_ok L (setInfoInterestFilter st) = nlsr_ok L st" "nlsr_ok L (setLsaInterestFilter st) = nlsr_ok L st"
  "nlsr_ok L (registerKeyPrefix st) = nlsr_ok L st" "nlsr_ok L (registerLocalhostPrefix st) = nlsr_ok L st"
  by (simp_all add: setInfoInterestFilter_def setLsaInterestFilter_def registerKeyPrefix_def registerLocalhostPrefix_def)

lemma started_ok:
  assumes L: "codec_ok L" and st: "started L st"
  shows "nlsr_ok L st"
proof -
  obtain c adl npl cs en s home f cert where s: "fresh s" "adl_wf adl" "distinct npl" "cf_routerPrefix (buildRouterPrefix c) \<noteq> []"
    and st: "st = initialize L home f cert (configured c adl npl cs en s)"
    using st unfolding started_def by blast
  let ?p = "prepared L home f (configured c adl npl cs en s)"
  have p: "nlsr_ok L ?p" by (rule nlsr_ok_prepared [OF L s])
  have zero: "nlsr_ok L (st\<lparr>n_adl := map (\<lambda>a. a\<lparr>ad_linkCost := 0\<rparr>) (n_adl st)\<rparr>)" if "nlsr_ok L st" for st
    using that nlsr_ok_wf [OF that] by (intro nlsr_ok_adl) (simp_all add: adl_wf_def o_def)
  show ?thesis
    unfolding st initialize_def Let_def prepared_def [unfolded Let_def, symmetric]
    by (simp add: p zero nlsr_ok_hello nlsr_ok_own nlsr_ok_routes)
qed

text \<open>Every state of every execution.\<close>

lemma reachable_ok:
  assumes L: "codec_ok L" "component_uri_ok L" and st0: "started L st0" and "reachable L st0 st"
  shows "nlsr_ok L st"
  using assms(4)
proof (induction rule: reachable.induct)
  case (more st st')
  from more.hyps(2) show ?case
  proof cases
    case (received i)
    then show ?thesis using kept_deliver [OF more.IH, of i] by simp
  next
    case (fired i d ev)
    then show ?thesis using kept_callback [OF L(2) more.IH] by fastforce
  next
    case (passed d t)
    have "nlsr_ok L (st\<lparr>n_io := s\<rparr>)" if "io_pending s = io_pending (n_io st)" "io_next_id s = io_next_id (n_io st)" for s
    proof -
      have "expire_timer s = expire_timer (n_io st)" "fib_timers_ok f s = fib_timers_ok f (n_io st)"
        "pending_count ev s = pending_count ev (n_io st)" for f ev
        using that by (auto simp: expire_timer_def fib_timers_ok_def agenda_ok_def pending_count_def events_def)
      then show ?thesis
        using more.IH by (simp add: nlsr_ok_def core_ok_def lsdb_ok_def lsa_events_def flags_ok_def self_def tables_ok_def)
    qed
    then show ?thesis using passed by simp
  qed
qed (rule started_ok [OF L(1) st0])

end
