(* ===== verification/Npt_Origins.thy ===== *)
theory Npt_Origins
  imports System
begin

text \<open>
  The abstract content of the name prefix table: which router a prefix is attached to. The
  operations of the table are insertion, deletion and no change of this relation, and in every
  reachable state it agrees with the Name LSAs of the database.
\<close>

section \<open>Set difference of sorted lists\<close>

lemma set_difference_sorted:
  assumes L: "name_order_ok L"
    and "sorted_wrt (\<lambda>x y. \<not> nameLess L y x) xs" and "sorted_wrt (\<lambda>x y. \<not> nameLess L y x) ys"
    and "distinct xs"
  shows "set (set_difference (nameLess L) xs ys) = set xs - set ys"
  using assms(2-4)
proof (induction "nameLess L" xs ys rule: set_difference.induct)
  case (3 x xs y ys)
  note irrefl = strict_weak_order.irrefl [OF name_order_swo [OF L]]
    and asym = strict_weak_order.asym [OF name_order_swo [OF L]]
  consider (less) "nameLess L x y" | (greater) "nameLess L y x" "\<not> nameLess L x y" | (equal) "x = y"
    using name_order_total [OF L, of x y] by blast
  then show ?case
  proof cases
    case less
    then have "x \<notin> set (y # ys)"
      using 3(5) irrefl asym by auto
    then show ?thesis using 3 less by auto
  next
    case greater
    then have "y \<notin> set (x # xs)" using 3(4) irrefl by auto
    then show ?thesis using 3 greater by auto
  next
    case equal
    then have "\<not> nameLess L x y" "\<not> nameLess L y x" using irrefl by auto
    then show ?thesis using 3 equal by auto
  qed
qed simp_all

lemma npl_sort_sorted:
  "name_order_ok L \<Longrightarrow> sorted_wrt (\<lambda>x y. \<not> nameLess L y x) (npl_sort L l)"
  unfolding npl_sort_def by (rule strict_weak_order.stable_sort_sorted [OF name_order_swo])

lemma names_added:
  assumes "name_order_ok L" and "distinct old" and "distinct new"
  shows "set (set_difference (nameLess L) (npl_sort L new) (npl_sort L old)) = set new - set old"
    and "set (namesAfterAdd L old new) = set old \<union> set new" and "distinct (namesAfterAdd L old new)"
proof -
  show a: "set (set_difference (nameLess L) (npl_sort L new) (npl_sort L old)) = set new - set old"
    using set_difference_sorted [OF assms(1) npl_sort_sorted npl_sort_sorted] assms by simp
  show "set (namesAfterAdd L old new) = set old \<union> set new"
    by (simp add: namesAfterAdd_def npl.fold_insert_contents a)
  show "distinct (namesAfterAdd L old new)"
    using assms(2) by (simp add: namesAfterAdd_def npl.fold_insert_wf)
qed

text \<open>An update of a Name LSA leaves exactly the names of the new one.\<close>

lemma names_updated:
  assumes "name_order_ok L" and "distinct old" and "distinct new"
  shows "set (set_difference (nameLess L) (namesAfterAdd L old new) (npl_sort L new)) = set old - set new"
    and "set (namesAfterUpdate L old new) = set new"
proof -
  have sorted: "sorted_wrt (\<lambda>x y. \<not> nameLess L y x) (namesAfterAdd L old new)"
    unfolding namesAfterAdd_def by (rule npl_sort_sorted [OF assms(1)])
  show r: "set (set_difference (nameLess L) (namesAfterAdd L old new) (npl_sort L new)) = set old - set new"
    using set_difference_sorted [OF assms(1) sorted npl_sort_sorted [OF assms(1)]] names_added [OF assms] by auto
  show "set (namesAfterUpdate L old new) = set new"
    unfolding namesAfterUpdate_def
    using npl.fold_remove_contents [OF names_added(3) [OF assms]] names_added(2) [OF assms] r by auto
qed

section \<open>The relation of prefixes and routers\<close>

definition origins :: "npt \<Rightarrow> (name \<times> name) set" where
  "origins t = {(n, d). case npt_find n t of None \<Rightarrow> False | Some e \<Rightarrow> d \<in> rte_destination ` set (npe_rteList e)}"

lemma origins_iff:
  "(n, d) \<in> origins t \<longleftrightarrow> (\<exists>e. npt_find n t = Some e \<and> d \<in> rte_destination ` set (npe_rteList e))"
  by (simp add: origins_def split: option.split)

lemma added_destinations:
  "rte_destination ` set (npe_rteList (added_entry t n rte)) = insert (rte_destination rte)
     (case npt_find n t of None \<Rightarrow> {} | Some e \<Rightarrow> rte_destination ` set (npe_rteList e))"
proof -
  have "rte_destination ` set (npe_rteList (addRoutingTableEntry rte e)) =
      insert (rte_destination rte) (rte_destination ` set (npe_rteList e))" for e
    using arg_cong [OF addRte_destinations [of rte e], of set] by (auto split: if_splits)
  then show ?thesis
    by (simp add: added_entry_def npe_sort_def generateNhlfromRteList_def npt_entry_named_def split: option.split)
qed

lemma origins_addRte:
  "origins (fst (npt_addRte L c adl n rte (t, fs))) = insert (n, rte_destination rte) (origins t)"
  by (auto simp: origins_iff npt_find_addRte added_destinations split: option.splits if_splits)

lemma origins_removeRte:
  assumes wf: "npt_wf t"
  shows "origins (fst (npt_removeRte L c adl n rte (t, fs))) = origins t - {(n, rte_destination rte)}"
proof (cases "npt_find n t")
  case None
  then show ?thesis by (auto simp: npt_removeRte_def origins_iff)
next
  case (Some e)
  let ?e = "removeRoutingTableEntry rte e"
  have e: "npe_wf e" "npe_namePrefix e = n" using npt_find_wf [OF wf Some] by simp_all
  then have list: "rte_destination ` set (npe_rteList ?e) = rte_destination ` set (npe_rteList e) - {rte_destination rte}"
    using set_erase_first_key [of rte_destination "npe_rteList e" "rte_destination rte"]
    by (auto simp: removeRoutingTableEntry_def npe_wf_def)
  show ?thesis
  proof (cases "npe_rteList ?e = []")
    case True
    then have "rte_destination x = rte_destination rte" if "x \<in> set (npe_rteList e)" for x
      using list that by auto
    then show ?thesis
      using Some True by (auto simp: npt_removeRte_def origins_iff npt_find_erase [OF wf] split: if_splits)
  next
    case False
    let ?e' = "npe_sort (generateNhlfromRteList ?e)"
    have "npe_namePrefix ?e' = n" "npe_rteList ?e' = npe_rteList ?e"
      using e by (simp_all add: npe_sort_def generateNhlfromRteList_def removeRoutingTableEntry_def)
    then show ?thesis
      using Some False list
      by (auto simp: npt_removeRte_def origins_iff npt_find_replace Let_def split: if_splits)
  qed
qed

lemma origins_pairs:
  "npt_wf t \<Longrightarrow> set (prefix_origins t) = origins t"
  by (force simp: prefix_origins_def origins_iff npt_find_by_key by_key_iff npt_wf_def)

lemma origins_add_pairs: "origins (fst (add_pairs L c adl rt ps (t, fs))) = set ps \<union> origins t"
proof (induction ps arbitrary: t fs)
  case (Cons p ps)
  obtain n d where p: "p = (n, d)" by fastforce
  obtain t1 fs1 where st: "npt_addRte L c adl n (rte_of d rt) (t, fs) = (t1, fs1)"
    by (cases "npt_addRte L c adl n (rte_of d rt) (t, fs)") auto
  then have "origins t1 = insert (n, d) (origins t)"
    using origins_addRte [of L c adl n "rte_of d rt" t fs] by (simp add: rte_of_destination)
  then show ?case using Cons.IH [of t1 fs1] by (auto simp: p add_pairs_simps st)
qed (simp add: add_pairs_simps)

lemma origins_update:
  "npt_wf t \<Longrightarrow> origins (fst (updateWithNewRoute L c adl rt (t, fs))) = origins t"
  by (auto simp: updateWithNewRoute_pairs origins_add_pairs origins_pairs)

section \<open>Agreement with the database\<close>

definition name_pairs :: "name_lsa list \<Rightarrow> (name \<times> name) set" where
  "name_pairs db = {(n, r). \<exists>l\<in>set db. ls_origRouter l = r \<and> n \<in> set (nl_npl l)}"

text \<open>
  Apart from the own LSA, the own name and a router's own name, which the other kinds of LSA
  attach and detach too, the table and the Name LSAs say the same.
\<close>

definition npt_agrees :: "nlsr \<Rightarrow> bool" where
  "npt_agrees st \<longleftrightarrow> (\<forall>n r. r \<noteq> self st \<and> n \<noteq> r \<and> n \<noteq> self st \<longrightarrow>
     ((n, r) \<in> origins (n_npt st) \<longleftrightarrow> (n, r) \<in> name_pairs (n_nameLsdb st)))"

text \<open>All that the agreement looks at.\<close>

definition view :: "nlsr \<Rightarrow> (name \<times> name) set \<times> (name \<times> name) set \<times> name" where
  "view st = ({(n, r) \<in> origins (n_npt st). n \<noteq> r}, name_pairs (n_nameLsdb st), self st)"

lemma npt_agrees_view: "view st' = view st \<Longrightarrow> npt_agrees st' = npt_agrees st"
proof -
  have "npt_agrees st = (case view st of (O', N, s) \<Rightarrow>
      \<forall>n r. r \<noteq> s \<and> n \<noteq> r \<and> n \<noteq> s \<longrightarrow> ((n, r) \<in> O' \<longleftrightarrow> (n, r) \<in> N))" for st
    by (auto simp: npt_agrees_def view_def)
  then show "view st' = view st \<Longrightarrow> npt_agrees st' = npt_agrees st" by simp
qed

lemma view_cong: "n_npt st' = n_npt st \<Longrightarrow> n_nameLsdb st' = n_nameLsdb st \<Longrightarrow> n_conf st' = n_conf st \<Longrightarrow> view st' = view st"
  by (simp add: view_def self_def)

lemma origins_nptAdd: "origins (n_npt (nptAdd L n d st)) = insert (n, d) (origins (n_npt st))"
  using origins_addRte [of L "n_conf st" "n_adl st" n "rte_of d (rt_table (n_routingTable st))" "n_npt st" "(n_fib st, n_io st)"]
  by (simp add: nptAdd_def with_tables_def npt_addEntry_def rte_of_destination case_prod_beta)

lemma origins_nptRemove:
  assumes "nlsr_ok K st"
  shows "origins (n_npt (nptRemove L n d st)) = origins (n_npt st) - {(n, d)}"
proof -
  have "npt_wf (n_npt st)" using assms by (auto simp: nlsr_ok_def core_ok_def intro: tables_okD)
  from origins_removeRte [OF this, of L "n_conf st" "n_adl st" n "rte_of d (rt_table (n_routingTable st))" "(n_fib st, n_io st)"]
  show ?thesis
    by (simp add: nptRemove_def with_tables_def npt_removeEntry_def rte_of_destination case_prod_beta)
qed

lemma origins_nptAddNames:
  "origins (n_npt (nptAddNames L d ns st)) = origins (n_npt st) \<union> {(n, d) | n. n \<in> set ns \<and> n \<noteq> self st}"
  unfolding nptAddNames_def
  by (induction ns arbitrary: st) (auto simp: origins_nptAdd)

lemma origins_nptRemoveNames:
  "nlsr_ok L st \<Longrightarrow> origins (n_npt (nptRemoveNames L d ns st)) = origins (n_npt st) - {(n, d) | n. n \<in> set ns \<and> n \<noteq> self st}"
  unfolding nptRemoveNames_def
  by (induction ns arbitrary: st) (auto simp: origins_nptRemove nlsr_ok_npt)

lemma view_npt: "view (nptAdd L r r st) = view st" "nlsr_ok K st \<Longrightarrow> view (nptRemove L r r st) = view st"
  by (auto simp: view_def origins_nptAdd origins_nptRemove)

section \<open>Name LSAs\<close>

lemma schedule_frame [simp]:
  "n_npt (snd (scheduleNameLsaExpiration k q t st)) = n_npt st"
  "n_nameLsdb (snd (scheduleNameLsaExpiration k q t st)) = n_nameLsdb st"
  "n_conf (snd (scheduleNameLsaExpiration k q t st)) = n_conf st"
  "n_npt (onLsdbChange st) = n_npt st" "n_nameLsdb (onLsdbChange st) = n_nameLsdb st" "n_conf (onLsdbChange st) = n_conf st"
  "n_npt (on_io f st) = n_npt st" "n_nameLsdb (on_io f st) = n_nameLsdb st" "n_conf (on_io f st) = n_conf st"
  by (simp_all add: scheduleNameLsaExpiration_def onLsdbChange_def on_io_def split: prod.split)

lemma agrees_installNew:
  assumes ag: "npt_agrees st" and new: "findNameLsa (nameLsaKey l) (n_nameLsdb st) = None"
  shows "npt_agrees (installNewNameLsa L l st)"
proof -
  have "snd (addNameLsa l st) = onLsdbChange (st\<lparr>n_nameLsdb := n_nameLsdb st @ [l]\<rparr>)"
    using new by (simp add: addNameLsa_def findNameLsa_def)
  then have "n_nameLsdb (installNewNameLsa L l st) = n_nameLsdb st @ [l]"
    "n_conf (installNewNameLsa L l st) = n_conf st"
    "origins (n_npt (installNewNameLsa L l st)) = (if ls_origRouter l = self st then origins (n_npt st)
       else insert (ls_origRouter l, ls_origRouter l) (origins (n_npt st)) \<union> {(n, ls_origRouter l) | n. n \<in> set (nl_npl l) \<and> n \<noteq> self st})"
    by (simp_all add: installNewNameLsa_def Let_def self_def origins_nptAddNames origins_nptAdd)
  then show ?thesis
    using ag by (auto simp: npt_agrees_def self_def name_pairs_def)
qed

text \<open>The stored LSA of a router is the only one.\<close>

lemma name_pairs_of:
  assumes "nlsr_ok L st" and "findNameLsa k (n_nameLsdb st) = Some l" and "ls_origRouter l = r"
  shows "(n, r) \<in> name_pairs (n_nameLsdb st) \<longleftrightarrow> n \<in> set (nl_npl l)"
proof -
  have d: "distinct (map ls_origRouter (n_nameLsdb st))" using assms(1) by (simp add: nlsr_ok_def core_ok_def lsdb_ok_def)
  have "l \<in> set (n_nameLsdb st)" using found_lsa(1) [OF assms(2)] by simp
  then show ?thesis using d assms(3) by (auto simp: name_pairs_def distinct_map inj_on_def)
qed

lemma name_pairs_put:
  assumes "nlsr_ok L st" and "findNameLsa (nameLsaKey l) (n_nameLsdb st) = Some old"
  shows "(n, r) \<in> name_pairs (n_nameLsdb (putNameLsa l st)) \<longleftrightarrow>
    (if r = ls_origRouter l then n \<in> set (nl_npl l) else (n, r) \<in> name_pairs (n_nameLsdb st))"
proof -
  have d: "distinct (map nameLsaKey (n_nameLsdb st))"
    using assms(1) by (auto simp: nlsr_ok_def core_ok_def lsdb_ok_def distinct_map inj_on_def)
  have old: "by_key nameLsaKey (nameLsaKey l) (n_nameLsdb st) = Some old" using assms(2) by (simp add: find_keyed)
  then have o: "ls_origRouter old = ls_origRouter l" using by_key_SomeD [OF old] by simp
  have "set (n_nameLsdb (putNameLsa l st)) = insert l (set (n_nameLsdb st) - {old})"
    using set_update_first_key [OF d old, of "\<lambda>_. l"] by (simp add: putNameLsa_def)
  moreover have "x = old" if "x \<in> set (n_nameLsdb st)" "ls_origRouter x = ls_origRouter l" for x
    using d that o by_key_SomeD [OF old] by (auto simp: distinct_map inj_on_def)
  ultimately show ?thesis using o by (auto simp: name_pairs_def)
qed

lemma agrees_update:
  assumes L: "name_order_ok L" and ok: "nlsr_ok L st" and ag: "npt_agrees st"
    and chk: "findNameLsa (nameLsaKey l) (n_nameLsdb st) = Some chk" and l: "distinct (nl_npl l)"
  shows "npt_agrees (updateNameLsa L chk l st)"
proof -
  let ?old = "nl_npl chk" and ?new = "nl_npl l" and ?r = "ls_origRouter l"
  have r: "ls_origRouter chk = ?r" using found_lsa(1) [OF chk] by simp
  have old: "distinct ?old" using found_lsa(1) [OF chk] stored_wf(1) [OF ok] by (simp add: name_lsa_wf_def)
  let ?add = "set_difference (nameLess L) (npl_sort L ?new) (npl_sort L ?old)"
  let ?rem = "set_difference (nameLess L) (namesAfterAdd L ?old ?new) (npl_sort L ?new)"
  define s2 where "s2 = (if ?r \<noteq> self st then nptAddNames L ?r ?add (onLsdbChange st) else onLsdbChange st)"
  define s3 where "s3 = (if ?r \<noteq> self st then nptRemoveNames L ?r ?rem s2 else s2)"
  define t where "t = snd (scheduleNameLsaExpiration (nameLsaKey l) (ls_seqNo l) (timeToExpire s3 l) (on_io (cancelEvent (ls_event chk)) s3))"
  define c where "c = chk\<lparr>ls_seqNo := ls_seqNo l, ls_expiration := ls_expiration l, nl_npl := namesAfterUpdate L ?old ?new,
      ls_event := fst (scheduleNameLsaExpiration (nameLsaKey l) (ls_seqNo l) (timeToExpire s3 l) (on_io (cancelEvent (ls_event chk)) s3))\<rparr>"
  have u: "updateNameLsa L chk l st = putNameLsa c t"
    by (simp add: updateNameLsa_alt Let_def s2_def s3_def t_def c_def)
  have db: "n_nameLsdb t = n_nameLsdb st" "n_conf t = n_conf st"
    by (simp_all add: t_def s3_def s2_def)
  have "nlsr_ok L s2" using ok by (simp add: s2_def nlsr_ok_names)
  then have origins: "origins (n_npt t) = (if ?r = self st then origins (n_npt st)
      else origins (n_npt st) \<union> {(n, ?r) | n. n \<in> set ?add \<and> n \<noteq> self st} - {(n, ?r) | n. n \<in> set ?rem \<and> n \<noteq> self st})"
    by (cases "?r = self st")
      (simp_all add: t_def s3_def s2_def origins_nptRemoveNames origins_nptAddNames self_def)
  have key: "nameLsaKey c = nameLsaKey l" "ls_origRouter c = ?r" "set (nl_npl c) = set ?new"
    using r names_updated(2) [OF L old l] by (simp_all add: c_def)
  have pairs: "(n, r') \<in> name_pairs (n_nameLsdb (putNameLsa c t)) \<longleftrightarrow>
      (if r' = ?r then n \<in> set ?new else (n, r') \<in> name_pairs (n_nameLsdb st))" for n r'
    using name_pairs_put [OF ok, of c chk n r'] chk key db by (simp add: putNameLsa_def)
  have fr: "n_npt (putNameLsa c t) = n_npt t" "self (putNameLsa c t) = self st"
    by (simp_all add: putNameLsa_def self_def db)
  show ?thesis
    unfolding u npt_agrees_def fr pairs origins
    using ag name_pairs_of [OF ok chk r] names_added(1) [OF L old l] names_updated(1) [OF L old l]
    by (auto simp: npt_agrees_def)
qed

lemma agrees_install:
  assumes L: "name_order_ok L" and ok: "nlsr_ok L st" and ag: "npt_agrees st" and l: "name_lsa_wf l"
  shows "npt_agrees (installNameLsa L l st)"
proof (cases "findNameLsa (nameLsaKey l) (n_nameLsdb st)")
  case None
  then show ?thesis by (simp add: installNameLsa_def agrees_installNew ag)
next
  case (Some chk)
  with agrees_update [OF L ok ag Some] l ag show ?thesis
    by (simp add: installNameLsa_def name_lsa_wf_def)
qed

lemma agrees_remove:
  assumes ok: "nlsr_ok L st" and ag: "npt_agrees st"
  shows "npt_agrees (snd (removeNameLsa L key st))"
proof (cases "find (\<lambda>x. nameLsaKey x = key) (n_nameLsdb st)")
  case None
  then show ?thesis using ag by (simp add: removeNameLsa_def)
next
  case (Some l)
  let ?r = "ls_origRouter l"
  have key: "nameLsaKey l = key" using find_SomeD [OF Some] by simp
  have d: "distinct (map nameLsaKey (n_nameLsdb st))"
    using ok by (auto simp: nlsr_ok_def core_ok_def lsdb_ok_def distinct_map inj_on_def)
  have "set (n_nameLsdb (snd (removeNameLsa L key st))) = {x \<in> set (n_nameLsdb st). nameLsaKey x \<noteq> nameLsaKey l}"
    using set_erase_first_key [OF d, of key] unfolding key by (simp add: removeNameLsa_def Some Let_def)
  then have pairs: "(n, r) \<in> name_pairs (n_nameLsdb (snd (removeNameLsa L key st))) \<longleftrightarrow>
      r \<noteq> ?r \<and> (n, r) \<in> name_pairs (n_nameLsdb st)" for n r
    by (auto simp: name_pairs_def)
  have "origins (n_npt (snd (removeNameLsa L key st))) = (if ?r = self st then origins (n_npt st)
      else origins (n_npt st) - {(?r, ?r)} - {(n, ?r) | n. n \<in> set (nl_npl l) \<and> n \<noteq> self st})"
    using nlsr_ok_npt(2) [OF ok, of ?r ?r]
    by (simp add: removeNameLsa_def Some Let_def origins_nptRemoveNames origins_nptRemove [OF ok])
  moreover have "self (snd (removeNameLsa L key st)) = self st"
    by (simp add: removeNameLsa_def Some Let_def self_def)
  moreover have "(n, ?r) \<in> name_pairs (n_nameLsdb st) \<longleftrightarrow> n \<in> set (nl_npl l)" for n
    using name_pairs_of [OF ok, where k = key and l = l and r = ?r] Some by (simp add: findNameLsa_def)
  ultimately show ?thesis
    using ag by (auto simp: npt_agrees_def pairs)
qed

section \<open>The other operations do not touch the relation\<close>

lemma view_frames [simp]:
  "view (on_io f st) = view st" "view (after d ev st) = view st" "view (stat p st) = view st"
  "view (onLsdbChange st) = view st" "view (scheduleRoutingTableCalculation st) = view st"
  "view (scheduleAdjLsaBuild st) = view st" "view (scheduleIfHyperbolic st) = view st"
  "view (snd (scheduleNameLsaExpiration k q t st)) = view st" "view (snd (scheduleAdjLsaExpiration k q t st)) = view st"
  "view (snd (scheduleCoordinateLsaExpiration k q t st)) = view st"
  "view (putAdjLsa a st) = view st" "view (putCoordinateLsa c st) = view st"
  "view (snd (addAdjLsa a st)) = view st" "view (snd (addCoordinateLsa c st)) = view st"
  by (rule view_cong; simp add: on_io_def after_def stat_def onLsdbChange_def scheduleRoutingTableCalculation_def
      scheduleAdjLsaBuild_def scheduleIfHyperbolic_def scheduleNameLsaExpiration_def scheduleAdjLsaExpiration_def
      scheduleCoordinateLsaExpiration_def putAdjLsa_def putCoordinateLsa_def addAdjLsa_def addCoordinateLsa_def Let_def
      split: prod.split option.split)+

lemma view_fields [simp]:
  "view (st\<lparr>n_adl := adl\<rparr>) = view st" "view (st\<lparr>n_npl := ns\<rparr>) = view st" "view (st\<lparr>n_seq := b\<rparr>) = view st"
  "view (st\<lparr>n_highestSeqNo := h\<rparr>) = view st" "view (st\<lparr>n_fib := f\<rparr>) = view st" "view (st\<lparr>n_io := s\<rparr>) = view st"
  "view (st\<lparr>n_adjLsdb := as\<rparr>) = view st" "view (st\<lparr>n_corLsdb := cs\<rparr>) = view st"
  "view (st\<lparr>n_adjBuildCount := k\<rparr>) = view st" "view (st\<lparr>n_isBuildAdjLsaSheduled := e\<rparr>) = view st"
  "view (st\<lparr>n_isRouteCalculationScheduled := e\<rparr>) = view st" "view (st\<lparr>n_isRoutingTableCalculating := e\<rparr>) = view st"
  "view (st\<lparr>n_routingTable := rt\<rparr>) = view st" "view (st\<lparr>n_certStore := m\<rparr>) = view st"
  by (rule view_cong; simp)+

lemma view_installs [simp]:
  "view (installAdjLsa L a st) = view st" "view (installCoordinateLsa L c st) = view st"
  by (simp_all add: installAdjLsa_def installCoordinateLsa_def installNewAdjLsa_def installNewCoordinateLsa_def
      updateAdjLsa_def updateCoordinateLsa_def addNptEntries_def view_npt Let_def case_prod_beta split: option.split)

lemma view_removes:
  assumes "nlsr_ok K st"
  shows "view (snd (removeAdjLsa L k st)) = view st" and "view (snd (removeCoordinateLsa L k st)) = view st"
  using view_npt(2) [OF assms]
  by (auto simp: removeAdjLsa_def removeCoordinateLsa_def removeNptEntries_def Let_def split: option.split)

text \<open>\<open>holds P r\<close>: \<open>r\<close> is an exception or satisfies \<open>P\<close>.\<close>

definition holds :: "('a \<Rightarrow> bool) \<Rightarrow> exn + 'a \<Rightarrow> bool" where
  "holds P r \<longleftrightarrow> (case r of Inl _ \<Rightarrow> True | Inr x \<Rightarrow> P x)"

lemma holds_simps [simp]: "holds P (Inl e)" "holds P (Inr x) = P x"
  by (simp_all add: holds_def)

lemma holds_then: "holds P r \<Longrightarrow> (\<And>x. P x \<Longrightarrow> holds Q (f x)) \<Longrightarrow> holds Q (and_then r f)"
  by (cases r) simp_all

lemma holds_require: "(\<And>x. r = Some x \<Longrightarrow> holds Q (f x)) \<Longrightarrow> holds Q (and_then (require e r) f)"
  by (cases r) simp_all

lemma holds_mono: "holds P r \<Longrightarrow> (\<And>x. P x \<Longrightarrow> Q x) \<Longrightarrow> holds Q r"
  by (cases r) simp_all

abbreviation keeps_view :: "nlsr \<Rightarrow> exn + nlsr \<Rightarrow> bool" where
  "keeps_view st \<equiv> holds (\<lambda>s. view s = view st)"

abbreviation agreeing :: "exn + nlsr \<Rightarrow> bool" where
  "agreeing \<equiv> holds npt_agrees"

lemma agreeing_view: "keeps_view st r \<Longrightarrow> npt_agrees st \<Longrightarrow> agreeing r"
  using npt_agrees_view by (blast intro: holds_mono)

lemma keeps_view_publish: "view s = view st \<Longrightarrow> keeps_view st (publishRoutingUpdate L s)"
  by (simp add: publishRoutingUpdate_def publishSyncUpdate_def)

lemma keeps_view_build:
  assumes "nlsr_ok L (st\<lparr>n_isBuildAdjLsaSheduled := False\<rparr>)"
  shows "keeps_view st (buildAdjLsa L st)"
  using view_removes(1) [OF assms]
  by (auto simp: buildAdjLsa_def buildAndInstallOwnAdjLsa_def Let_def intro!: holds_then [where P = "\<lambda>s. view s = view st"] keeps_view_publish)

lemma keeps_view_refresh:
  "view s = view st \<Longrightarrow> keeps_view st (refreshAdjLsa L a s)" "view s = view st \<Longrightarrow> keeps_view st (refreshCoordinateLsa L c s)"
  by (auto simp: refreshAdjLsa_def refreshCoordinateLsa_def Let_def case_prod_beta intro!: keeps_view_publish)

lemma keeps_view_expire:
  assumes ok: "nlsr_ok L st"
  shows "keeps_view st (exprireOrRefreshAdjLsa L k q st)" and "keeps_view st (exprireOrRefreshCoordinateLsa L k q st)"
  using view_removes [OF ok] isOwnLsa_ok [OF ok, of l for l :: adj_lsa] isOwnLsa_ok [OF ok, of l for l :: cor_lsa]
  by (auto simp: exprireOrRefreshAdjLsa_def exprireOrRefreshCoordinateLsa_def split: option.split
      intro!: holds_then [where P = "\<lambda>s. view s = view st"] keeps_view_refresh)

lemma keeps_view_refreshName:
  assumes ok: "nlsr_ok L st" and l: "findNameLsa k (n_nameLsdb st) = Some l"
  shows "keeps_view st (refreshNameLsa L l st)"
proof -
  have key: "nameLsaKey l = k" using found_lsa(1) [OF l] by simp
  have put: "view (putNameLsa (l\<lparr>ls_seqNo := q, ls_expiration := t, ls_event := e\<rparr>) s) = view st"
    if "n_nameLsdb s = n_nameLsdb st" "n_conf s = n_conf st" "n_npt s = n_npt st" for q t e s
  proof -
    let ?l = "l\<lparr>ls_seqNo := q, ls_expiration := t, ls_event := e\<rparr>"
    have l': "findNameLsa (nameLsaKey ?l) (n_nameLsdb st) = Some l" using l key by (simp add: nameLsaKey_def)
    have "name_pairs (n_nameLsdb (putNameLsa ?l st)) = name_pairs (n_nameLsdb st)"
      using name_pairs_put [OF ok l'] name_pairs_of [OF ok l refl] by (auto simp: set_eq_iff)
    then show ?thesis using that by (simp add: view_def self_def putNameLsa_def)
  qed
  have scheduled: "view (putNameLsa (l\<lparr>ls_seqNo := q, ls_expiration := t, ls_event := e\<rparr>)
      (snd (scheduleNameLsaExpiration k' q' t' (onLsdbChange st\<lparr>n_seq := x\<rparr>)))) = view st" for q t e k' q' t' x
    by (rule put) simp_all
  show ?thesis
    unfolding refreshNameLsa_def Let_def case_prod_beta
    by (rule keeps_view_publish, rule scheduled)
qed

lemma agreeing_expireName:
  assumes ok: "nlsr_ok L st" and ag: "npt_agrees st"
  shows "agreeing (exprireOrRefreshNameLsa L k q st)"
proof (cases "findNameLsa k (n_nameLsdb st)")
  case None
  then show ?thesis by (simp add: exprireOrRefreshNameLsa_def ag)
next
  case (Some l)
  then show ?thesis
    using agrees_remove [OF ok ag, of k] agreeing_view [OF keeps_view_refreshName [OF ok Some] ag] ag
    by (simp add: exprireOrRefreshNameLsa_def isOwnLsa_ok [OF ok])
qed

lemma runCalculations_frame: "holds (\<lambda>s'. n_npt s' = n_npt s \<and> view s' = view s) (runCalculations s)"
proof -
  have "holds (\<lambda>s'. n_npt s' = n_npt s \<and> view s' = view s)
      (if b then and_then (require Stuck r) (\<lambda>rt. Inr (s\<lparr>n_routingTable := rt\<rparr>)) else Inr s)" for b r
    by (cases b) (auto intro!: holds_require)
  then show ?thesis
    unfolding runCalculations_def Let_def by (rule holds_then) simp
qed

lemma view_npt_update:
  "npt_wf (n_npt st) \<Longrightarrow> view (nptUpdateWithNewRoute L st) = view st"
  using origins_update [of "n_npt st" L "n_conf st" "n_adl st" "rt_table (n_routingTable st)" "(n_fib st, n_io st)"]
  by (simp add: nptUpdateWithNewRoute_def with_tables_def view_def self_def case_prod_beta)

lemma keeps_view_calculate:
  assumes wf: "npt_wf (n_npt st)"
  shows "keeps_view st (calculate L st)"
proof (cases "n_isRoutingTableCalculating st")
  case True
  then show ?thesis by (simp add: calculate_def)
next
  case False
  let ?st = "st\<lparr>n_isRoutingTableCalculating := True\<rparr>"
  have npt: "n_npt (clearRoutingTables ?st) = n_npt st" "view (clearRoutingTables ?st) = view st"
    by (simp_all add: clearRoutingTables_def)
  have run: "keeps_view st (and_then (runCalculations (clearRoutingTables ?st)) (\<lambda>st. Inr (nptUpdateWithNewRoute L st)))"
    using wf npt view_npt_update by (auto intro!: holds_then [OF runCalculations_frame])
  show ?thesis
    unfolding calculate_def Let_def
    using False run wf npt view_npt_update [of "clearRoutingTables ?st" L]
    by (auto intro!: holds_require holds_then [where P = "\<lambda>s. view s = view st"])
qed

section \<open>Every handler\<close>

lemma agreeing_callback:
  assumes L: "name_order_ok L" and ok: "nlsr_ok L st" and ag: "npt_agrees st" and i: "(i, d, ev) \<in> set (io_pending (n_io st))"
  shows "agreeing (run_callback L ev (take_off i st))"
proof -
  have v: "view (take_off i st) = view st" by (simp add: take_off_def)
  have ag': "npt_agrees (take_off i st)" using npt_agrees_view [OF v] ag by simp
  have wf: "npt_wf (n_npt (take_off i st))"
    using ok by (auto simp: take_off_def nlsr_ok_def core_ok_def intro: tables_okD)
  have hello: "view (sendScheduledInterest L w s) = view s" for w s
  proof -
    have "view (contactNeighbor L a s) = view s" for a s
      by (simp add: contactNeighbor_def sayHello_def hello_expressInterest_def registerPrefixes_def)
    then have "view (fold (contactNeighbor L) xs s) = view s" for xs s by (rule fold_frame)
    then show ?thesis by (simp add: sendScheduledInterest_def Let_def scheduleInterest_def)
  qed
  have fib: "view (expireFibEntry n s) = view s" for n s
    by (simp add: expireFibEntry_def split: prod.split)
  note plain = nlsr_ok_take_off(1) [OF ok i]
  show ?thesis
  proof (cases ev)
    case EvCalculate
    then show ?thesis using agreeing_view [OF keeps_view_calculate [OF wf] ag'] by simp
  next
    case EvBuildAdjLsa
    then show ?thesis using agreeing_view [OF keeps_view_build [OF nlsr_ok_take_off(3) [OF ok i]] ag'] by simp
  next
    case (EvExpireName n q)
    then show ?thesis using agreeing_expireName [OF plain ag'] by simp
  next
    case (EvExpireAdj n q)
    then show ?thesis using agreeing_view [OF keeps_view_expire(1) [OF plain] ag'] by simp
  next
    case (EvExpireCor n q)
    then show ?thesis using agreeing_view [OF keeps_view_expire(2) [OF plain] ag'] by simp
  next
    case (EvFibRemove n)
    then show ?thesis using npt_agrees_view [OF fib] ag' by simp
  next
    case (EvHello w)
    then show ?thesis using npt_agrees_view [OF hello] ag' by simp
  next
    case (EvRetryValidation data t n q)
    then show ?thesis using npt_agrees_view [OF view_frames(1)] ag' by (simp add: retryContentValidation_def)
  next
    case EvLogSeqNo
    then show ?thesis using npt_agrees_view [OF view_frames(2)] ag' by (simp add: logSeqNo_def)
  next
    case EvLogSnapshot
    then show ?thesis using npt_agrees_view [OF view_frames(2)] ag' by (simp add: logSnapshot_def)
  qed
qed

lemma view_requests: "view s = view st \<Longrightarrow> keeps_view st (expressInterest L n k t s)"
  by (auto simp: expressInterest_def Let_def case_prod_beta split: option.split intro!: holds_require)

lemma view_lsa_handlers:
  "keeps_view st (processInterest L n st)" "keeps_view st (processInterestTimedOut L n k t m q st)"
  "view (onContent d t n q st) = view st" "view (onContentValidationFailed d t n q st) = view st"
  using view_requests
  by (auto simp: processInterest_def processInterestForNameLsa_def processInterestForAdjacencyLsa_def
      processInterestForCoordinateLsa_def putLsaData_def processInterestTimedOut_def onContent_def
      onContentValidationFailed_def Let_def split: option.split intro!: holds_require)

lemma view_sync:
  "view (processUpdateFromSync L u st) = view st"
proof -
  have "list_all (\<lambda>f. \<forall>s. keeps_view s (f s)) fs \<Longrightarrow> view (until_exception fs s) = view s" for fs s
    by (induction fs arbitrary: s) (auto simp: holds_def split: sum.splits)
  then show ?thesis
    using view_requests by (auto simp: processUpdateFromSync_def request_if_new_def expressInterestForLsa_def
        split: option.split simp del: until_exception.simps)
qed

lemma keeps_view_nsync: "keeps_view st (onNsyncUpdate L us st)"
proof (induction us arbitrary: st)
  case (Cons u us)
  obtain p q where u: "u = (p, q)" by fastforce
  show ?case
    using Cons.IH [of "processUpdateFromSync L x st" for x] view_sync by (auto simp: u intro!: holds_require)
qed simp

lemma view_hello [simp]:
  "view (sayHello K n st) = view st" "view (registerPrefixes K n u c t st) = view st"
  "view (registerShared K a t n st) = view st" "view (setStrategies st) = view st"
  "view (contactNeighbor K a st) = view st" "view (hello_onContent d st) = view st"
  "view (hello_processInterestTimedOut K n st) = view st" "view (hello_onContentValidated K d st) = view st"
  "view (onRegistrationSuccess K fid n t st) = view st" "view (hello_onRegistrationFailure n st) = view st"
  by (simp_all add: sayHello_def hello_expressInterest_def registerPrefixes_def registerShared_def setStrategies_def
      contactNeighbor_def hello_onContent_def hello_processInterestTimedOut_def hello_onContentValidated_def
      onRegistrationSuccess_def hello_onRegistrationFailure_def Let_def split: option.split)

lemma keeps_view_hello: "keeps_view st (hello_processInterest K n st)"
  by (auto simp: hello_processInterest_def Let_def split: option.split intro!: holds_require)

lemma view_daemon [simp]:
  "view (onFaceEventNotification b fid st) = view st" "view (onInterest n st) = view st"
  "view (onCommandValidationFailed msg st) = view st" "view (sendResponse c msg st) = view st"
  "view (onKeyInterest K cache n m st) = view st"
  by (auto simp: onFaceEventNotification_def onFaceDestroyed_def onInterest_def sendNack_def onCommandValidationFailed_def
      sendResponse_def onKeyInterest_def Let_def split: option.split)

text \<open>The handlers that change Name LSAs.\<close>

lemma agreeing_commands:
  assumes L: "name_order_ok L" and ok: "nlsr_ok L st" and ag: "npt_agrees st"
  shows "agreeing (onCommandValidated L x n st)"
proof -
  have own: "npt_agrees (buildAndInstallOwnNameLsa L (st\<lparr>n_npl := ns\<rparr>))" if "distinct ns" for ns
  proof -
    let ?s = "st\<lparr>n_npl := ns, n_seq := increaseNameLsaSeq (n_seq st)\<rparr>"
    have "nlsr_ok L ?s" using nlsr_ok_npl [OF ok that] by simp
    moreover have "npt_agrees ?s" using npt_agrees_view [of ?s st] ag by simp
    ultimately show ?thesis
      using agrees_install [OF L _ _ name_lsa_wf_mk, of ?s]
      by (simp add: buildAndInstallOwnNameLsa_def Let_def)
  qed
  have d: "distinct (n_npl st)" using ok by (simp add: nlsr_ok_def core_ok_def)
  have change: "agreeing (changePrefixes L f ps st)" if "\<And>n. distinct (snd (f n (n_npl st)))" for f ps
  proof -
    have "npt_agrees (st\<lparr>n_npl := ns\<rparr>)" "npt_agrees (sendResponse c msg st)" for ns c msg
      using npt_agrees_view [of "st\<lparr>n_npl := ns\<rparr>" st] npt_agrees_view [of "sendResponse c msg st" st] ag by simp_all
    then show ?thesis
      using agreeing_view [OF keeps_view_publish [OF refl] own [OF that]]
      by (simp add: changePrefixes_def case_prod_beta)
  qed
  have commands: "agreeing (advertise L ps st)" "agreeing (withdraw L ps st)" for ps
    unfolding advertise_def withdraw_def
    by (rule change; simp add: npl.insert_wf npl.remove_wf d)+
  have resp: "npt_agrees s \<Longrightarrow> npt_agrees (sendResponse c msg s)" for s c msg
    using npt_agrees_view [of "sendResponse c msg s" s] by simp
  show ?thesis
    unfolding onCommandValidated_def Let_def
    using resp [OF ag] by (auto split: option.split intro!: holds_then [OF commands(1)] holds_then [OF commands(2)] resp)
qed

lemma agreeing_content:
  assumes L: "name_order_ok L" and ok: "nlsr_ok L st" and ag: "npt_agrees st"
  shows "agreeing (onContentValidated L beyond data st)"
proof -
  have name: "agreeing (processContentNameLsa L k q x st)" for k q x
    using agrees_install [OF L ok ag] parsed_name_lsa_wf ag
    by (auto simp: processContentNameLsa_def install_parsed_def split: parsed.split)
  have "keeps_view st (processContentAdjacencyLsa L k q x st)" "keeps_view st (processContentCoordinateLsa L k q x st)" for k q x
    by (auto simp: processContentAdjacencyLsa_def processContentCoordinateLsa_def install_parsed_def split: parsed.split)
  then have others: "agreeing (processContentAdjacencyLsa L k q x st)" "agreeing (processContentCoordinateLsa L k q x st)" for k q x
    using agreeing_view ag by blast+
  have stat: "npt_agrees s \<Longrightarrow> agreeing (Inr (stat p s))" for s p
    using npt_agrees_view [of "stat p s" s] by simp
  show ?thesis
    unfolding onContentValidated_def Let_def
    using ag by (auto intro!: holds_require holds_then [OF name stat] holds_then [OF others(1) stat] holds_then [OF others(2) stat])
qed

lemma agreeing_deliver:
  assumes L: "name_order_ok L" and ok: "nlsr_ok L st" and ag: "npt_agrees st"
  shows "agreeing (deliver L i st)"
proof -
  have v: "keeps_view st r \<Longrightarrow> agreeing r" for r by (rule agreeing_view [OF _ ag])
  have "keeps_view st (deliver L i st) \<or> agreeing (deliver L i st)"
    by (cases "(L, i, st)" rule: deliver.cases)
      (simp_all add: view_lsa_handlers keeps_view_nsync keeps_view_hello agreeing_commands [OF L ok ag] agreeing_content [OF L ok ag])
  then show ?thesis using v by blast
qed

section \<open>Reachable states\<close>

lemma agrees_own:
  assumes L: "name_order_ok L" and ok: "nlsr_ok L s" and ag: "npt_agrees s"
  shows "npt_agrees (buildAndInstallOwnNameLsa L s)"
proof -
  let ?s = "s\<lparr>n_seq := increaseNameLsaSeq (n_seq s)\<rparr>"
  have "npt_agrees ?s" using npt_agrees_view [of ?s s] ag by simp
  then show ?thesis
    using agrees_install [OF L _ _ name_lsa_wf_mk, of ?s] ok by (simp add: buildAndInstallOwnNameLsa_def Let_def)
qed

lemma view_intervals [simp]:
  "view (s\<lparr>n_firstHelloInterval := h\<rparr>) = view s" "view (s\<lparr>n_adjLsaBuildInterval := t\<rparr>) = view s"
  by (simp_all add: view_def self_def)

lemma view_start:
  "view (buildAndInstallOwnCoordinateLsa L s) = view s" "view (scheduleInterest w s) = view s"
  "view (registerKeyPrefix s) = view s" "view (registerLocalhostPrefix s) = view s"
  "view (setInfoInterestFilter s) = view s" "view (setLsaInterestFilter s) = view s"
  "view (loadCertToPublish L cert s) = view s" "view (s\<lparr>n_firstHelloInterval := h\<rparr>) = view s"
  "view (s\<lparr>n_adjLsaBuildInterval := t\<rparr>) = view s" "view (s\<lparr>n_routingTable := rt\<rparr>) = view s"
  "view (s\<lparr>n_adl := adl\<rparr>) = view s" "view (setStrategies s) = view s"
  by (simp_all add: buildAndInstallOwnCoordinateLsa_def scheduleInterest_def registerKeyPrefix_def
      registerLocalhostPrefix_def setInfoInterestFilter_def setLsaInterestFilter_def loadCertToPublish_def Let_def)

lemmas agrees_start [simp] = view_start [THEN npt_agrees_view]

lemma agrees_started:
  assumes L: "name_order_ok L" "codec_ok L" and st: "started L st"
  shows "npt_agrees st"
proof -
  obtain c adl npl cs en s home f cert where s: "fresh s" "adl_wf adl" "distinct npl" "cf_routerPrefix (buildRouterPrefix c) \<noteq> []"
    and st: "st = initialize L home f cert (configured c adl npl cs en s)"
    using st unfolding started_def by blast
  let ?p = "prepared L home f (configured c adl npl cs en s)"
  have p: "nlsr_ok L ?p" by (rule nlsr_ok_prepared [OF L(2) s])
  have "n_npt ?p = []" "n_nameLsdb ?p = []"
    by (simp_all add: prepared_def Let_def createSyncSocket_def buildUpdatePrefix_def configured_def nlsr_of_def
        after_def on_io_def logSeqNo_def)
  then have ag: "npt_agrees ?p" by (simp add: npt_agrees_def origins_def npt_find_def name_pairs_def)
  show ?thesis
    unfolding st initialize_def Let_def prepared_def [unfolded Let_def, symmetric]
    by (simp add: p ag agrees_own [OF L(1)] nlsr_ok_routes)
qed

lemma reachable_agrees:
  assumes L: "name_order_ok L" "codec_ok L" "component_uri_ok L" and st0: "started L st0" and "reachable L st0 st"
  shows "npt_agrees st"
  using assms(5)
proof (induction rule: reachable.induct)
  case (more st st')
  note ok = reachable_ok [OF L(2,3) st0 more.hyps(1)]
  from more.hyps(2) show ?case
  proof cases
    case (received i)
    then show ?thesis using agreeing_deliver [OF L(1) ok more.IH, of i] by simp
  next
    case (fired i d ev)
    then show ?thesis using agreeing_callback [OF L(1) ok more.IH fired(1)] by simp
  next
    case (passed d t)
    have "view (st\<lparr>n_io := s\<rparr>) = view st" for s by simp
    from npt_agrees_view [OF this] show ?thesis using passed more.IH by simp
  qed
qed (rule agrees_started [OF L(1,2) st0])

end
