(* ===== verification/Demo_Network.thy ===== *)
theory Demo_Network
  imports Calculator Hyperbolic Demo_Library
begin

text \<open>
  A small network the examples of the properties are computed on: three routers \<open>a\<close>, \<open>b\<close>
  and \<open>c\<close> with the links a-b, b-c and a-c, seen from \<open>a\<close>.
\<close>

abbreviation ra :: name where "ra \<equiv> [''a'']"
abbreviation rb :: name where "rb \<equiv> [''b'']"
abbreviation rc :: name where "rc \<equiv> [''c'']"

definition demo_link :: "name \<Rightarrow> string \<Rightarrow> real \<Rightarrow> adjacent" where
  "demo_link n uri cost = \<lparr>ad_name = n, ad_faceUri = uri, ad_linkCost = cost,
     ad_status = STATUS_ACTIVE, ad_timedOut = 0, ad_faceId = 0\<rparr>"

definition demo_adl :: adjacency_list where
  "demo_adl = [(demo_link rb ''udp4://b'' 10)\<lparr>ad_faceId := 7\<rparr>, (demo_link rc ''udp4://c'' 30)\<lparr>ad_faceId := 8\<rparr>]"

definition demo_lsdb :: "adj_lsa list" where
  "demo_lsdb =
    [mkAdjLsa ra ADJ_TYPE 1 0 2 demo_adl,
     mkAdjLsa rb ADJ_TYPE 1 0 2 [demo_link ra ''udp4://a'' 10, demo_link rc ''udp4://c'' 10],
     mkAdjLsa rc ADJ_TYPE 1 0 2 [demo_link ra ''udp4://a'' 30, demo_link rb ''udp4://b'' 10]]"

definition demo_conf :: conf where
  "demo_conf = conf_default\<lparr>cf_routerPrefix := ra, cf_maxFacesPerPrefix := 1\<rparr>"

lemma demo_adl_wf: "adl_wf demo_adl"
  by (simp add: adl_wf_def demo_adl_def demo_link_def)

lemma demo_lsdb_ok: "lsdb_keys_ok demo_lsdb"
  by (simp add: lsdb_keys_ok_def demo_lsdb_def adj_lsa_wf_mk)

lemma demo_origins: "ls_origRouter ` set demo_lsdb = {ra, rb, rc}"
  by (simp add: demo_lsdb_def)

lemma demo_conf_simps [simp]:
  "cf_routerPrefix demo_conf = ra" "cf_maxFacesPerPrefix demo_conf = 1"
  by (simp_all add: demo_conf_def)

end
