(* ===== verification/Demo_Run.thy ===== *)
theory Demo_Run
  imports System Demo_Library Demo_Network
begin

text \<open>
  A run for examples: a daemon with the router name /n/s/r starts, and learns a Name LSA.
\<close>

definition demo_start :: nlsr where
  "demo_start = initialize demo_lib ''/home'' None \<lparr>cert_name = [''k''], cert_wire = ''c''\<rparr>
     (configured (conf_default\<lparr>cf_network := [''n''], cf_siteName := [''s''], cf_routerName := [''r'']\<rparr>)
       demo_adl [[''p'']] Map.empty False \<lparr>io_system_now = 0, io_steady_now = 0, io_next_id = 0, io_pending = [], io_out = []\<rparr>)"

lemma demo_started: "started demo_lib demo_start"
proof -
  let ?c = "conf_default\<lparr>cf_network := [''n''], cf_siteName := [''s''], cf_routerName := [''r'']\<rparr>"
  let ?s = "\<lparr>io_system_now = 0, io_steady_now = 0, io_next_id = 0, io_pending = [], io_out = []\<rparr>"
  have "fresh ?s" "adl_wf demo_adl" "distinct [[''p'']]" "cf_routerPrefix (buildRouterPrefix ?c) \<noteq> []"
    by (simp_all add: fresh_def demo_adl_wf buildRouterPrefix_def)
  then show ?thesis unfolding started_def demo_start_def by blast
qed

lemmas demo_laws = demo_codec demo_components

lemma demo_origin: "self demo_start = [''n'', ''s'', ''r''] \<and>
   map (\<lambda>l. (ls_origRouter l, ls_seqNo l)) (n_nameLsdb demo_start) = [([''n'', ''s'', ''r''], 1)] \<and>
   cf_network (n_conf demo_start) = [''n''] \<and>
   n_highestSeqNo demo_start [''n'', ''NLSR'', ''LSA'', ''b'', NAME_TYPE] = None"
  by code_simp

text \<open>The demo daemon learns a Name LSA of another router.\<close>

definition demo_named :: name_lsa where
  "demo_named = mkNameLsa rb NAME_TYPE 1 0 [rc]"

definition demo_packet :: data_packet where
  "demo_packet = \<lparr>data_name = [''LSA'', ''b'', ''name'', ''1'', ''v''], data_content = name_getData demo_lib demo_named\<rparr>"

lemma demo_content: "name_getData demo_lib demo_named = ''/b|name|1|0|1|/c|''"
  by code_simp

lemma demo_parsed: "name_initializeFromContent demo_lib ''/b|name|1|0|1|/c|'' = Parsed demo_named"
proof -
  have "lsa_sendable demo_named" "name_lsa_wf demo_named" "length (nl_npl demo_named) < 2 ^ 32"
    and "demo_named\<lparr>ls_type := NAME_TYPE, ls_event := None\<rparr> = demo_named"
    by (simp_all add: lsa_sendable_def demo_named_def name_lsa_wf_def time_ok_def mkNameLsa_def name_lsa_default_def addName_def
        npl_insert_def)
  with name_roundtrip [OF demo_codec, of demo_named] demo_content show ?thesis by simp
qed

lemma demo_absent: "findNameLsa (r @ [NAME_TYPE]) (n_nameLsdb demo_start) = None \<longleftrightarrow> r \<noteq> [''n'', ''s'', ''r'']"
proof -
  have "ls_origRouter ` set (n_nameLsdb demo_start) = {[''n'', ''s'', ''r'']}"
    using demo_origin by (auto simp: map_eq_Cons_conv)
  then show ?thesis by (simp add: find_by_origin by_key_None)
qed

lemma name_content_installed:
  assumes "getNameComponentPosition (data_name d) LSA_COMPONENT = int p"
    and "compNumber L (compAt L (data_name d) (-2)) = Some q" and "compToUri L (compAt L (data_name d) (-3)) = NAME_TYPE"
    and "name_initializeFromContent L (c_string (data_content d) beyond) = Parsed l"
    and "isNameLsaNew ((cf_network (n_conf st) @ getSubName L (data_name d) (Suc p) (componentsAfter (data_name d) (int p) 4)) @ [NAME_TYPE])
      q (n_nameLsdb st)"
  shows "onContentValidated L beyond d st = Inr (stat RCV_NAME_LSA_DATA (installNameLsa L l st))"
  using assms by (simp add: onContentValidated_def processContentNameLsa_def install_parsed_def Let_def nat_add_distrib)

lemma demo_learns:
  "reachable demo_lib demo_start (stat RCV_NAME_LSA_DATA (installNameLsa demo_lib demo_named demo_start))"
proof -
  have "c_string ''/b|name|1|0|1|/c|'' [] = ''/b|name|1|0|1|/c|''" by code_simp
  then have c: "name_initializeFromContent demo_lib (c_string (data_content demo_packet) []) = Parsed demo_named"
    using demo_parsed demo_content by (metis demo_packet_def data_packet.select_convs(2))
  have pos: "getNameComponentPosition (data_name demo_packet) LSA_COMPONENT = int 0"
    and num: "compNumber demo_lib (compAt demo_lib (data_name demo_packet) (-2)) = Some 1"
    and ty: "compToUri demo_lib (compAt demo_lib (data_name demo_packet) (-3)) = NAME_TYPE"
    and sub: "getSubName demo_lib (data_name demo_packet) (Suc 0) (componentsAfter (data_name demo_packet) (int 0) 4) = [''b'']"
    by (simp_all add: demo_packet_def getNameComponentPosition_def LSA_COMPONENT_def demo_lib_def isDigits_def
        demoValue_def escape_def NAME_TYPE_def componentsAfter_def)
  have "findNameLsa ([''n'', ''b''] @ [NAME_TYPE]) (n_nameLsdb demo_start) = None"
    by (subst demo_absent) simp
  then have new: "isNameLsaNew ((cf_network (n_conf demo_start) @ [''b'']) @ [NAME_TYPE]) 1 (n_nameLsdb demo_start)"
    unfolding isNameLsaNew_def using demo_origin by simp
  have "deliver demo_lib (LsaValid [] demo_packet) demo_start = Inr (stat RCV_NAME_LSA_DATA (installNameLsa demo_lib demo_named demo_start))"
    unfolding deliver.simps by (rule name_content_installed [OF pos num ty c]) (unfold sub, rule new)
  from reachable.more [OF reachable.start step.received [OF this]] show ?thesis .
qed

end
