(* ===== verification/System_Properties.thy ===== *)
theory System_Properties
  imports Demo_Run
begin

text \<open>
  Properties of every state that a started daemon can reach, whatever is received, in whatever
  order callbacks run.
\<close>



text \<open>C10: The database holds at most one LSA of each kind per router, no Name LSA holds a
  prefix twice, no adjacency LSA a neighbor twice; the own prefixes and neighbors are distinct.\<close>

theorem database_keys:
  assumes "codec_ok L" and "component_uri_ok L" and "started L st0" and "reachable L st0 st"
  shows "distinct (map nameLsaKey (n_nameLsdb st)) \<and> distinct (map adjLsaKey (n_adjLsdb st)) \<and>
    distinct (map corLsaKey (n_corLsdb st)) \<and> list_all (\<lambda>l. distinct (nl_npl l)) (n_nameLsdb st) \<and>
    list_all (\<lambda>l. distinct (map ad_name (al_adl l))) (n_adjLsdb st) \<and>
    distinct (n_npl st) \<and> distinct (map ad_name (n_adl st))"
  using reachable_ok [OF assms]
  by (auto simp: nlsr_ok_def core_ok_def lsdb_ok_def lsdb_keys_ok_def distinct_map inj_on_def list_all_iff
      name_lsa_wf_def adj_lsa_wf_def adl_wf_def)

lemma database_keys_witness: "distinct (map nameLsaKey (n_nameLsdb demo_start)) \<and> distinct (n_npl demo_start)"
  using database_keys [OF demo_laws demo_started reachable.start] by simp



text \<open>C7: No callback of the scheduler can end the event loop: each one that is on the agenda of
  a reachable state returns, without an exception, an index out of an array or a loop that
  does not end, and the state it leaves is reachable again.\<close>

theorem callbacks_return:
  assumes "codec_ok L" and "component_uri_ok L" and "started L st0" and "reachable L st0 st"
  shows "list_all (\<lambda>(i, d, ev). \<exists>st'. run_callback L ev (take_off i st) = Inr st' \<and> reachable L st0 st')
    (io_pending (n_io st))"
proof -
  have "\<exists>st'. run_callback L ev (take_off i st) = Inr st' \<and> reachable L st0 st'"
    if "(i, d, ev) \<in> set (io_pending (n_io st))" for i d ev
  proof (cases "run_callback L ev (take_off i st)")
    case (Inl e)
    with kept_callback [OF assms(2) reachable_ok [OF assms] that] show ?thesis by simp
  next
    case (Inr st')
    with reachable.more [OF assms(4) step.fired [OF that Inr]] show ?thesis by blast
  qed
  then show ?thesis by (auto simp: list_all_iff)
qed

lemma callbacks_return_witness:
  "list_all (\<lambda>(i, d, ev). \<exists>st'. run_callback demo_lib ev (take_off i demo_start) = Inr st' \<and>
     reachable demo_lib demo_start st') (io_pending (n_io demo_start))"
  by (rule callbacks_return [OF demo_laws demo_started reachable.start])



end
