(* ===== verification/Database_Properties.thy ===== *)
theory Database_Properties
  imports Npt_Origins Demo_Run
begin

text \<open>
  What the link-state database does with LSAs: installation of newer ones, expiration, answers
  to Interests, and requests for the LSAs that the sync protocol announces.
\<close>

lemma nameLsdb_installNew:
  "findNameLsa (nameLsaKey l) (n_nameLsdb st) = None \<Longrightarrow>
   n_nameLsdb (installNewNameLsa L l st) = n_nameLsdb st @ [l]"
  by (simp add: installNewNameLsa_def addNameLsa_def findNameLsa_def Let_def)

lemma nameLsdb_update:
  assumes chk: "nameLsaKey chk = nameLsaKey l"
  shows "\<exists>e. n_nameLsdb (updateNameLsa L chk l st) =
    update_first (\<lambda>x. nameLsaKey x = nameLsaKey l)
      (\<lambda>_. chk\<lparr>ls_seqNo := ls_seqNo l, ls_expiration := ls_expiration l,
          nl_npl := namesAfterUpdate L (nl_npl chk) (nl_npl l), ls_event := e\<rparr>) (n_nameLsdb st)"
proof -
  have [simp]: "nameLsaKey (chk\<lparr>ls_seqNo := q, ls_expiration := t, nl_npl := ns, ls_event := e\<rparr>) = nameLsaKey l" for q t ns e
    using chk by (simp add: nameLsaKey_def)
  show ?thesis
    by (simp add: updateNameLsa_alt Let_def putNameLsa_def) blast
qed

lemma find_updated:
  assumes "nameLsaKey l' = k"
  shows "findNameLsa k' (update_first (\<lambda>x. nameLsaKey x = k) (\<lambda>_. l') db) =
    (if k' = k then map_option (\<lambda>_. l') (findNameLsa k db) else findNameLsa k' db)"
  unfolding findNameLsa_def using assms by (induction db) auto

text \<open>C12: Installing a Name LSA stores exactly its names, sequence number and expiration if the
  database has none of the router or one with a lower number; a number that is not higher
  changes nothing at all; LSAs of other routers stay.\<close>

theorem name_lsa_installed:
  assumes "name_order_ok L" and "codec_ok L" and "component_uri_ok L" and "started L st0" and "reachable L st0 st"
    and "distinct (nl_npl l)"
  shows "\<exists>l'. findNameLsa (nameLsaKey l) (n_nameLsdb (installNameLsa L l st)) = Some l' \<and>
    (case findNameLsa (nameLsaKey l) (n_nameLsdb st) of
       None \<Rightarrow> l' = l
     | Some old \<Rightarrow>
         if ls_seqNo old < ls_seqNo l
         then ls_seqNo l' = ls_seqNo l \<and> ls_expiration l' = ls_expiration l \<and>
           set (nl_npl l') = set (nl_npl l) \<and> distinct (nl_npl l')
         else installNameLsa L l st = st \<and> l' = old) \<and>
    (k \<noteq> nameLsaKey l \<longrightarrow> findNameLsa k (n_nameLsdb (installNameLsa L l st)) = findNameLsa k (n_nameLsdb st))"
proof (cases "findNameLsa (nameLsaKey l) (n_nameLsdb st)")
  case None
  then show ?thesis
    by (auto simp: installNameLsa_def nameLsdb_installNew findNameLsa_def find_append split: option.split)
next
  case (Some old)
  show ?thesis
  proof (cases "ls_seqNo old < ls_seqNo l")
    case False
    then show ?thesis using Some by (simp add: installNameLsa_def)
  next
    case True
    note ok = reachable_ok [OF assms(2-5)]
    have old: "nameLsaKey old = nameLsaKey l" "distinct (nl_npl old)"
      using found_lsa(1) [OF Some] stored_wf(1) [OF ok] by (simp_all add: name_lsa_wf_def)
    obtain e where db: "n_nameLsdb (installNameLsa L l st) = update_first (\<lambda>x. nameLsaKey x = nameLsaKey l)
      (\<lambda>_. old\<lparr>ls_seqNo := ls_seqNo l, ls_expiration := ls_expiration l,
          nl_npl := namesAfterUpdate L (nl_npl old) (nl_npl l), ls_event := e\<rparr>) (n_nameLsdb st)" (is "_ = update_first _ (\<lambda>_. ?l) _")
      using nameLsdb_update [OF old(1), of L st] Some True by (auto simp: installNameLsa_def)
    have "nameLsaKey ?l = nameLsaKey l" using old(1) by (simp add: nameLsaKey_def)
    from find_updated [OF this] show ?thesis
      unfolding db using Some True names_updated(2) [OF assms(1) old(2) assms(6)] namesAfterUpdate_distinct [OF old(2)]
      by simp
  qed
qed

lemma name_lsa_installed_witness:
  "\<exists>l'. findNameLsa (nameLsaKey (mkNameLsa rb NAME_TYPE 1 0 [rc])) (n_nameLsdb
     (installNameLsa demo_lib (mkNameLsa rb NAME_TYPE 1 0 [rc]) demo_start)) = Some l'"
  using name_lsa_installed [OF demo_order demo_laws demo_started reachable.start, of "mkNameLsa rb NAME_TYPE 1 0 [rc]"]
    name_lsa_wf_mk [of rb NAME_TYPE 1 0 "[rc]"] unfolding name_lsa_wf_def by blast

text \<open>C4: The name prefix table attaches a prefix to another router exactly if the stored Name
  LSA of this router has the prefix: prefixes are attached when they are first advertised,
  detached when a newer LSA leaves them out or the LSA is removed, and kept through every
  other event. (The own name of a router comes and goes with its other LSAs.)\<close>

theorem table_matches_name_lsas:
  assumes "name_order_ok L" and "codec_ok L" and "component_uri_ok L" and "started L st0" and "reachable L st0 st"
    and "r \<noteq> self st" and "n \<noteq> r" and "n \<noteq> self st"
  shows "(case npt_find n (n_npt st) of None \<Rightarrow> False | Some e \<Rightarrow> r \<in> rte_destination ` set (npe_rteList e)) \<longleftrightarrow>
    (case findNameLsa (r @ [NAME_TYPE]) (n_nameLsdb st) of None \<Rightarrow> False | Some l \<Rightarrow> n \<in> set (nl_npl l))"
proof -
  note ok = reachable_ok [OF assms(2-5)]
  have "(n, r) \<in> origins (n_npt st) \<longleftrightarrow> (n, r) \<in> name_pairs (n_nameLsdb st)"
    using reachable_agrees [OF assms(1-5)] assms(6-8) by (simp add: npt_agrees_def)
  moreover have "(n, r) \<in> name_pairs (n_nameLsdb st) \<longleftrightarrow>
      (case findNameLsa (r @ [NAME_TYPE]) (n_nameLsdb st) of None \<Rightarrow> False | Some l \<Rightarrow> n \<in> set (nl_npl l))"
  proof (cases "findNameLsa (r @ [NAME_TYPE]) (n_nameLsdb st)")
    case None
    then have "r \<notin> ls_origRouter ` set (n_nameLsdb st)" by (simp add: find_by_origin by_key_None)
    with None show ?thesis by (auto simp: name_pairs_def)
  next
    case (Some l)
    then have "ls_origRouter l = r" using found_lsa(1) [OF Some] by (simp add: nameLsaKey_def)
    from name_pairs_of [OF ok Some this] show ?thesis by (simp add: Some)
  qed
  ultimately show ?thesis by (simp add: origins_def)
qed

lemma table_matches_name_lsas_witness:
  "\<exists>st e. reachable demo_lib demo_start st \<and> npt_find rc (n_npt st) = Some e \<and>
     rb \<in> rte_destination ` set (npe_rteList e)"
proof -
  let ?st = "stat RCV_NAME_LSA_DATA (installNameLsa demo_lib demo_named demo_start)"
  have own: "self ?st = [''n'', ''s'', ''r'']"
    using demo_origin demo_absent [of rb]
    by (simp add: stat_def self_def installNameLsa_def installNewNameLsa_def Let_def demo_named_def nameLsaKey_def
        addNameLsa_def findNameLsa_def)
  have none: "findNameLsa (nameLsaKey demo_named) (n_nameLsdb demo_start) = None"
    using demo_absent [of rb] by (simp add: demo_named_def nameLsaKey_def)
  then have "findNameLsa (rb @ [NAME_TYPE]) (n_nameLsdb ?st) = Some demo_named"
    using nameLsdb_installNew [OF none, of demo_lib]
    by (simp add: stat_def installNameLsa_def findNameLsa_def find_append demo_named_def nameLsaKey_def)
  moreover have "rc \<in> set (nl_npl demo_named)" by (simp add: demo_named_def mkNameLsa_npl)
  ultimately show ?thesis
    using table_matches_name_lsas [OF demo_order demo_laws demo_started demo_learns, of rb rc] own demo_learns
    by (auto split: option.splits)
qed

lemma refreshNameLsa_result:
  assumes "n_syncSocket st"
  shows "\<exists>st' e. refreshNameLsa L l st = Inr st' \<and>
    n_nameLsdb st' = update_first (\<lambda>x. nameLsaKey x = nameLsaKey l)
      (\<lambda>_. l\<lparr>ls_seqNo := ls_seqNo l + 1, ls_expiration := getLsaExpirationTimePoint st, ls_event := e\<rparr>) (n_nameLsdb st) \<and>
    sq_name (n_seq st') = ucast (ls_seqNo l + 1) \<and>
    events (n_io st') = events (n_io st) @ [EvExpireName (nameLsaKey l) (scast (ls_seqNo l + 1))] \<and>
    (\<exists>rest. io_out (n_io st') = rest @ [SyncPublish (toUri L (n_updatePrefix st)) (sq_combined (n_seq st'))])"
proof -
  define n where "n = ls_seqNo l + 1"
  define t where "t = getLsaExpirationTimePoint st"
  have t: "getLsaExpirationTimePoint (onLsdbChange st\<lparr>n_seq := m\<rparr>) = t" for m
    by (simp add: t_def getLsaExpirationTimePoint_def onLsdbChange_def)
  show ?thesis
    unfolding refreshNameLsa_def Let_def lsa.simps t n_def [symmetric] t_def [symmetric] nameLsaKey_def
    using assms
    by (simp add: scheduleNameLsaExpiration_def publishRoutingUpdate_def publishSyncUpdate_def writeSeqNoToFile_def
        on_io_def putNameLsa_def nameLsaKey_def onLsdbChange_def setNameLsaSeq_def combineSequenceNo_def case_prod_beta)
      blast
qed

text \<open>C13: When the timer of a Name LSA fires and the LSA still has the timer's sequence number,
  the router's own LSA gets the next number and a new expiration, its number is published, and
  a new timer is set; the LSA of another router is removed. Otherwise nothing happens.\<close>

theorem name_lsa_expires:
  assumes "codec_ok L" and "component_uri_ok L" and "started L st0" and "reachable L st0 st"
  shows "\<exists>st'. exprireOrRefreshNameLsa L key q st = Inr st' \<and>
    (case findNameLsa key (n_nameLsdb st) of
       None \<Rightarrow> st' = st
     | Some l \<Rightarrow>
         if ucast (ls_seqNo l) \<noteq> q then st' = st
         else if ls_origRouter l = self st then
           (\<exists>e. findNameLsa key (n_nameLsdb st') = Some (l\<lparr>ls_seqNo := ls_seqNo l + 1,
             ls_expiration := getLsaExpirationTimePoint st, ls_event := e\<rparr>)) \<and>
           sq_name (n_seq st') = ucast (ls_seqNo l + 1) \<and>
           events (n_io st') = events (n_io st) @ [EvExpireName key (scast (ls_seqNo l + 1))] \<and>
           (\<exists>rest. io_out (n_io st') = rest @ [SyncPublish (toUri L (n_updatePrefix st)) (sq_combined (n_seq st'))])
         else findNameLsa key (n_nameLsdb st') = None)"
proof (cases "findNameLsa key (n_nameLsdb st)")
  case None
  then show ?thesis by (simp add: exprireOrRefreshNameLsa_def)
next
  case (Some l)
  note ok = reachable_ok [OF assms]
  have key: "nameLsaKey l = key" using found_lsa(1) [OF Some] by simp
  have d: "distinct (map nameLsaKey (n_nameLsdb st))"
    using ok by (auto simp: nlsr_ok_def core_ok_def lsdb_ok_def distinct_map inj_on_def)
  have sock: "n_syncSocket st" using ok by (simp add: nlsr_ok_def core_ok_def)
  show ?thesis
  proof (cases "ucast (ls_seqNo l) = q")
    case False
    then show ?thesis by (simp add: exprireOrRefreshNameLsa_def Some)
  next
    case q: True
    show ?thesis
    proof (cases "ls_origRouter l = self st")
      case False
      have "findNameLsa key (n_nameLsdb (snd (removeNameLsa L key st))) = None"
        using by_key_erase_first [OF d, of key key] Some
        by (simp add: removeNameLsa_def findNameLsa_def Let_def by_key_def onLsdbChange_def)
      then show ?thesis
        using False q by (simp add: exprireOrRefreshNameLsa_def Some isOwnLsa_ok [OF ok])
    next
      case True
      let ?l = "\<lambda>q t e. l\<lparr>ls_seqNo := q, ls_expiration := t, ls_event := e\<rparr>"
      have found: "findNameLsa key (update_first (\<lambda>x. nameLsaKey x = key) (\<lambda>_. ?l q t e) (n_nameLsdb st)) =
          Some (?l q t e)" for q t e
        using find_updated [of "?l q t e" key key "n_nameLsdb st"] key Some by (simp add: nameLsaKey_def)
      obtain st' e where st': "refreshNameLsa L l st = Inr st'"
          "n_nameLsdb st' = update_first (\<lambda>x. nameLsaKey x = key)
             (\<lambda>_. ?l (ls_seqNo l + 1) (getLsaExpirationTimePoint st) e) (n_nameLsdb st)"
        and rest: "sq_name (n_seq st') = ucast (ls_seqNo l + 1)"
          "events (n_io st') = events (n_io st) @ [EvExpireName key (scast (ls_seqNo l + 1))]"
          "\<exists>rest. io_out (n_io st') = rest @ [SyncPublish (toUri L (n_updatePrefix st)) (sq_combined (n_seq st'))]"
        using refreshNameLsa_result [OF sock, of L l] unfolding key by blast
      have run: "exprireOrRefreshNameLsa L key q st = Inr st'"
        using True q st'(1) by (simp add: exprireOrRefreshNameLsa_def Some isOwnLsa_ok [OF ok])
      have stored: "findNameLsa key (n_nameLsdb st') = Some (?l (ls_seqNo l + 1) (getLsaExpirationTimePoint st) e)"
        unfolding st'(2) by (rule found)
      show ?thesis
        by (rule exI [of _ st']) (use run stored rest True q Some in \<open>simp; blast\<close>)
    qed
  qed
qed

lemma name_lsa_expires_witness:
  "\<exists>st'. exprireOrRefreshNameLsa demo_lib ([''n'', ''s'', ''r''] @ [NAME_TYPE]) 1 demo_start = Inr st' \<and>
     sq_name (n_seq st') = 2"
proof -
  obtain l where l: "n_nameLsdb demo_start = [l]" "ls_origRouter l = [''n'', ''s'', ''r'']" "ls_seqNo l = 1"
    using demo_origin by (auto simp: map_eq_Cons_conv)
  then have "findNameLsa ([''n'', ''s'', ''r''] @ [NAME_TYPE]) (n_nameLsdb demo_start) = Some l"
    by (simp add: findNameLsa_def nameLsaKey_def)
  then show ?thesis
    using name_lsa_expires [OF demo_laws demo_started reachable.start, of "[''n'', ''s'', ''r''] @ [NAME_TYPE]" 1] l demo_origin
    by auto
qed

section \<open>Interests for LSAs\<close>

lemma compAt_end:
  assumes "name_slices_ok L"
  shows "compAt L (xs @ y # ys) (- int (Suc (length ys))) = y"
proof -
  have "compAt L n (- int i) = n ! (length n - i)" if "0 < i" "i \<le> length n" for n i
    using assms that by (simp add: name_slices_ok_def)
  from this [of "Suc (length ys)" "xs @ y # ys"] show ?thesis by (simp add: nth_append)
qed

lemma compAt_last:
  assumes "name_slices_ok L"
  shows "compAt L (xs @ [a]) (-1) = a" and "compAt L (xs @ [a, b]) (-2) = a" and "compAt L (xs @ [a, b, c]) (-3) = a"
    and "compAt L (xs @ [a, b]) (-1) = b" and "compAt L (xs @ [a, b, c]) (-2) = b"
  using compAt_end [OF assms, of xs a "[]"] compAt_end [OF assms, of xs a "[b]"] compAt_end [OF assms, of xs a "[b, c]"]
    compAt_end [OF assms, of "xs @ [a]" b "[]"] compAt_end [OF assms, of "xs @ [a]" b "[c]"]
  by simp_all

lemma getSubName_slice:
  "name_slices_ok L \<Longrightarrow> getSubName L (xs @ ys @ zs) (length xs) (length ys) = ys"
  by (simp add: name_slices_ok_def)

text \<open>C15: An Interest /p/LSA/r/type/number is answered with the stored LSA of this type of the
  router r in the network if it has this number, in the text form and fresh for the refresh
  time, and is not answered otherwise.\<close>

theorem lsa_interest_answered:
  assumes slices: "name_slices_ok L" and comps: "component_uri_ok L"
    and n: "n = p @ LSA_COMPONENT # r @ [ty, numberComp L q]" and p: "LSA_COMPONENT \<notin> set p" and len: "length r < 2 ^ 64"
  shows "\<exists>st'. processInterest L n st = Inr st' \<and> n_nameLsdb st' = n_nameLsdb st \<and>
    io_out (n_io st') = io_out (n_io st) @ map (LsaData n (n_lsaRefreshTime st * second))
     (if ty = NAME_TYPE then (case findNameLsa (cf_network (n_conf st) @ r @ [NAME_TYPE]) (n_nameLsdb st) of
          Some l \<Rightarrow> if ucast (ls_seqNo l) = q then [name_getData L l] else [] | None \<Rightarrow> [])
      else if ty = ADJ_TYPE then (case findAdjLsa (cf_network (n_conf st) @ r @ [ADJ_TYPE]) (n_adjLsdb st) of
          Some l \<Rightarrow> if ucast (ls_seqNo l) = q then [adj_getData L l] else [] | None \<Rightarrow> [])
      else if ty = COR_TYPE then (case findCoordinateLsa (cf_network (n_conf st) @ r @ [COR_TYPE]) (n_corLsdb st) of
          Some l \<Rightarrow> if ucast (ls_seqNo l) = q then [cor_getData L l] else [] | None \<Rightarrow> [])
      else [])"
proof -
  have pos: "getNameComponentPosition n LSA_COMPONENT = int (length p)"
    by (simp add: n getNameComponentPosition_prefix [OF p])
  have last: "compAt L n (-1) = numberComp L q" "compAt L n (-2) = ty"
    using compAt_last [OF slices, where xs = "p @ LSA_COMPONENT # r"] by (simp_all add: n)
  have len_n: "length n = length p + length r + 3" by (simp add: n)
  have "componentsAfter n (int (length p)) 3 = length r"
    using len by (simp add: componentsAfter_def len_n unat_of_nat)
  then have sub: "getSubName L n (nat (int (length p) + 1)) (componentsAfter n (int (length p)) 3) = r"
    using getSubName_slice [OF slices, of "p @ [LSA_COMPONENT]" r "[ty, numberComp L q]"]
    by (simp add: n nat_add_distrib)
  have uri: "compToUri L c = NAME_TYPE \<longleftrightarrow> c = NAME_TYPE" "compToUri L c = ADJ_TYPE \<longleftrightarrow> c = ADJ_TYPE"
    "compToUri L c = COR_TYPE \<longleftrightarrow> c = COR_TYPE" for c
    using comps by (simp_all add: component_uri_ok_def plain_components_def NAME_TYPE_def ADJ_TYPE_def COR_TYPE_def)
  then have key: "compToUri L NAME_TYPE = NAME_TYPE" "compToUri L ADJ_TYPE = ADJ_TYPE" "compToUri L COR_TYPE = COR_TYPE"
    by blast+
  have types: "NAME_TYPE \<noteq> ADJ_TYPE" "NAME_TYPE \<noteq> COR_TYPE" "ADJ_TYPE \<noteq> COR_TYPE"
    by (simp_all add: NAME_TYPE_def ADJ_TYPE_def COR_TYPE_def)
  have num: "compNumber L (numberComp L q) = Some q" using comps by (simp add: component_uri_ok_def)
  consider "ty = NAME_TYPE" | "ty = ADJ_TYPE" | "ty = COR_TYPE" | "ty \<noteq> NAME_TYPE" "ty \<noteq> ADJ_TYPE" "ty \<noteq> COR_TYPE"
    by blast
  then show ?thesis
    by cases (simp_all add: processInterest_def Let_def pos last sub uri key types num
        processInterestForNameLsa_def processInterestForAdjacencyLsa_def processInterestForCoordinateLsa_def
        putLsaData_def on_io_def stat_def split: option.split)
qed

lemma lsa_interest_answered_witness:
  "\<exists>st' t x. processInterest demo_lib (LSA_COMPONENT # [''s'', ''r''] @ [NAME_TYPE, numberComp demo_lib 1]) demo_start = Inr st' \<and>
     io_out (n_io st') = io_out (n_io demo_start) @
       [LsaData (LSA_COMPONENT # [''s'', ''r''] @ [NAME_TYPE, numberComp demo_lib 1]) t x]"
proof -
  obtain l where l: "n_nameLsdb demo_start = [l]" "ls_origRouter l = [''n'', ''s'', ''r'']" "ls_seqNo l = 1"
    using demo_origin by (auto simp: map_eq_Cons_conv)
  then have "findNameLsa ([''n''] @ [''s'', ''r''] @ [NAME_TYPE]) (n_nameLsdb demo_start) = Some l"
    by (simp add: findNameLsa_def nameLsaKey_def)
  then show ?thesis
    using lsa_interest_answered [OF demo_slices demo_components, of _ "[]" "[''s'', ''r'']" NAME_TYPE 1 demo_start] l demo_origin
    by auto
qed

text \<open>One request: it is sent unless a higher number of the same LSA was asked for before.\<close>

definition not_outdated :: "64 word \<Rightarrow> 64 word option \<Rightarrow> bool" where
  "not_outdated q h \<longleftrightarrow> (case h of None \<Rightarrow> True | Some h \<Rightarrow> h \<le> q)"

definition lsaRequest :: "ndn_lib \<Rightarrow> name \<Rightarrow> nlsr \<Rightarrow> string \<Rightarrow> 64 word \<Rightarrow> out" where
  "lsaRequest L n st ty q = LsaInterest (n @ [ty, numberComp L q]) (cf_lsaInterestLifetime (n_conf st) * second) 0
     (io_steady_now (n_io st) + int LSA_REFRESH_TIME_MAX * second) (n @ [ty]) q"

lemma expressInterest_result:
  assumes slices: "name_slices_ok L" and comps: "component_uri_ok L"
  shows "\<exists>st'. expressInterest L (n @ [ty, numberComp L q]) 0 DEFAULT_LSA_RETRIEVAL_DEADLINE st = Inr st' \<and>
    n_nameLsdb st' = n_nameLsdb st \<and> n_adjLsdb st' = n_adjLsdb st \<and> n_corLsdb st' = n_corLsdb st \<and>
    n_conf st' = n_conf st \<and> io_steady_now (n_io st') = io_steady_now (n_io st) \<and>
    (\<forall>k. n_highestSeqNo st' k = (if k = n @ [ty] then Some (case n_highestSeqNo st k of None \<Rightarrow> q | Some h \<Rightarrow> max h q)
       else n_highestSeqNo st k)) \<and>
    io_out (n_io st') = io_out (n_io st) @
      (if not_outdated q (n_highestSeqNo st (n @ [ty])) then [lsaRequest L n st ty q] else [])"
proof -
  have num: "compNumber L (compAt L (n @ [ty, numberComp L q]) (- 1)) = Some q"
    using compAt_last(4) [OF slices] comps by (simp add: component_uri_ok_def)
  have "getSubName L (n @ [ty, numberComp L q]) 0 (length (n @ [ty])) = n @ [ty]"
    using getSubName_slice [OF slices, of "[]" "n @ [ty]" "[numberComp L q]"] by simp
  then have name: "getSubName L (n @ [ty, numberComp L q]) 0 (Suc (length n)) = n @ [ty]" by simp
  show ?thesis
  proof (cases "n_highestSeqNo st (n @ [ty])")
    case None
    then show ?thesis
      by (simp add: expressInterest_def num name lsaRequest_def not_outdated_def stat_def on_io_def emit_def Let_def)
  next
    case (Some h)
    then show ?thesis
      by (cases h q rule: linorder_cases)
        (auto simp: expressInterest_def num name lsaRequest_def not_outdated_def stat_def on_io_def emit_def Let_def max_def)
  qed
qed

text \<open>What a request leaves alone.\<close>

definition same_but_requests :: "nlsr \<Rightarrow> nlsr \<Rightarrow> bool" where
  "same_but_requests st st' \<longleftrightarrow> n_nameLsdb st' = n_nameLsdb st \<and> n_adjLsdb st' = n_adjLsdb st \<and> n_corLsdb st' = n_corLsdb st \<and>
     n_conf st' = n_conf st \<and> io_steady_now (n_io st') = io_steady_now (n_io st)"

lemma same_but_requests_new:
  "same_but_requests st st' \<Longrightarrow> isLsaNew r ty q st' = isLsaNew r ty q st"
  "same_but_requests st st' \<Longrightarrow> lsaRequest L n st' ty q = lsaRequest L n st ty q"
  by (simp_all add: same_but_requests_def isLsaNew_def lsaRequest_def)

definition requests :: "ndn_lib \<Rightarrow> sync_update \<Rightarrow> name \<Rightarrow> nlsr \<Rightarrow> string \<Rightarrow> 64 word \<Rightarrow> out list" where
  "requests L u r st ty q =
     (if isLsaNew r ty q st \<and> not_outdated q (n_highestSeqNo st (su_name u @ [ty])) then [lsaRequest L (su_name u) st ty q] else [])"

lemma request_if_new_result:
  assumes "name_slices_ok L" and "component_uri_ok L"
  shows "\<exists>st'. request_if_new L u r ty q st = Inr st' \<and> same_but_requests st st' \<and>
    (\<forall>t. t \<noteq> ty \<longrightarrow> n_highestSeqNo st' (su_name u @ [t]) = n_highestSeqNo st (su_name u @ [t])) \<and>
    io_out (n_io st') = io_out (n_io st) @ requests L u r st ty q"
proof (cases "isLsaNew r ty q st")
  case False
  then show ?thesis by (simp add: request_if_new_def same_but_requests_def requests_def)
next
  case True
  obtain st' where st': "expressInterest L (su_name u @ [ty, numberComp L q]) 0 DEFAULT_LSA_RETRIEVAL_DEADLINE st = Inr st'"
    and fr: "same_but_requests st st'"
      "\<forall>k. n_highestSeqNo st' k = (if k = su_name u @ [ty] then Some (case n_highestSeqNo st k of None \<Rightarrow> q | Some h \<Rightarrow> max h q)
         else n_highestSeqNo st k)"
      "io_out (n_io st') = io_out (n_io st) @
        (if not_outdated q (n_highestSeqNo st (su_name u @ [ty])) then [lsaRequest L (su_name u) st ty q] else [])"
    using expressInterest_result [OF assms, of "su_name u" ty q st] unfolding same_but_requests_def by blast
  show ?thesis
    by (rule exI [of _ st']) (use True st' fr in \<open>simp add: request_if_new_def expressInterestForLsa_def requests_def\<close>)
qed



end
