(* ===== verification/Operation_Properties.thy ===== *)
theory Operation_Properties
  imports Database_Properties
begin

text \<open>
  How the daemon notices that a neighbor fails or returns, what a build of the adjacency LSA
  does, and the commands of the operator.
\<close>

section \<open>Neighbors\<close>

lemma getPrefix_front:
  "name_slices_ok L \<Longrightarrow> ys \<noteq> [] \<Longrightarrow> getPrefix L (xs @ ys) (- int (length ys)) = xs"
  by (cases ys) (simp_all add: name_slices_ok_def del: of_nat_Suc)

lemma info_uri: "component_uri_ok L \<Longrightarrow> compToUri L INFO_COMPONENT = INFO_COMPONENT"
  by (simp add: component_uri_ok_def plain_components_def INFO_COMPONENT_def)

lemma hello_name:
  assumes "name_slices_ok L" and "component_uri_ok L"
  shows "compToUri L (compAt L (infoName L m st) (-2)) = INFO_COMPONENT" and "getPrefix L (infoName L m st) (-3) = m"
    and "compToUri L (compAt L (infoName L m st @ [v]) (-3)) = INFO_COMPONENT" and "getPrefix L (infoName L m st @ [v]) (-4) = m"
  using compAt_last(2) [OF assms(1), of "m @ [NLSR_COMPONENT]"] compAt_last(3) [OF assms(1), of "m @ [NLSR_COMPONENT]"]
    getPrefix_front [OF assms(1), of "[NLSR_COMPONENT, INFO_COMPONENT, nameBlock L (self st)]" m]
    getPrefix_front [OF assms(1), of "[NLSR_COMPONENT, INFO_COMPONENT, nameBlock L (self st), v]" m] info_uri [OF assms(2)]
  by (simp_all add: infoName_def)

text \<open>One timeout of the Interest for the neighbor \<open>m\<close>.\<close>

lemma adl_find_count:
  "adl_find m (incrementTimedOutInterestCount m l) = map_option (\<lambda>a. a\<lparr>ad_timedOut := ad_timedOut a + 1\<rparr>) (adl_find m l)"
  "adl_find m (setStatusOfNeighbor m s l) = map_option (\<lambda>a. a\<lparr>ad_status := s\<rparr>) (adl_find m l)"
  "adl_find m (setTimedOutInterestCount m k l) = map_option (\<lambda>a. a\<lparr>ad_timedOut := k\<rparr>) (adl_find m l)"
  by (simp_all add: incrementTimedOutInterestCount_def setStatusOfNeighbor_def setTimedOutInterestCount_def adl_find_update)

lemma timeout_below:
  assumes L: "name_slices_ok L" "component_uri_ok L" and a: "adl_find m (n_adl st) = Some a"
    and c: "ad_timedOut a + 1 < cf_interestRetryNumber (n_conf st)"
  defines "st' \<equiv> hello_processInterestTimedOut L (infoName L m st) st"
  shows "adl_find m (n_adl st') = Some (a\<lparr>ad_timedOut := ad_timedOut a + 1\<rparr>)" and "n_conf st' = n_conf st"
    and "io_out (n_io st') = io_out (n_io st) @ [HelloInterest (infoName L m st) (cf_interestResendTime (n_conf st))]"
  using a c
  by (simp_all add: st'_def hello_processInterestTimedOut_def hello_name [OF L] Let_def adl_find_count getTimedOutInterestCount_def
      sayHello_def hello_expressInterest_def stat_def on_io_def) (simp add: infoName_def self_def)

lemma timeout_last:
  assumes L: "name_slices_ok L" "component_uri_ok L" and a: "adl_find m (n_adl st) = Some a"
    and c: "ad_timedOut a + 1 = cf_interestRetryNumber (n_conf st)" and act: "ad_status a = STATUS_ACTIVE"
  defines "st' \<equiv> hello_processInterestTimedOut L (infoName L m st) st"
  shows "adl_find m (n_adl st') = Some (a\<lparr>ad_timedOut := ad_timedOut a + 1, ad_status := STATUS_INACTIVE\<rparr>)"
    and "io_out (n_io st') = io_out (n_io st)" and "n_isBuildAdjLsaSheduled st'"
  using a c act
  by (simp_all add: st'_def hello_processInterestTimedOut_def hello_name [OF L] Let_def adl_find_count getTimedOutInterestCount_def
      getStatusOfNeighbor_def scheduleAdjLsaBuild_def after_def on_io_def)



end
