(* ===== verification/Route_Properties.thy ===== *)
theory Route_Properties
  imports Demo_Network
begin

text \<open>
  What the link-state calculation is for, said of the database and not of the matrix: the
  links, the routes and their costs between router names, and the routing table that the
  calculation leaves, for one next hop per destination and for several.
\<close>

section \<open>Routes between router names\<close>

text \<open>A link counts when both ends advertise it, at the greater of the two costs.\<close>

definition link_cost :: "adj_lsa list \<Rightarrow> name \<Rightarrow> name \<Rightarrow> real" where
  "link_cost lsdb a b = corrected (advertised lsdb a b) (advertised lsdb b a)"

inductive route :: "adj_lsa list \<Rightarrow> name \<Rightarrow> name \<Rightarrow> real \<Rightarrow> bool" for lsdb a where
  start: "route lsdb a a 0"
| extend: "route lsdb a b c \<Longrightarrow> link_cost lsdb b r > 0 \<Longrightarrow> route lsdb a r (c + link_cost lsdb b r)"

text \<open>Routes that leave over the neighbor \<open>h\<close> and do not come back.\<close>

inductive route_via :: "adj_lsa list \<Rightarrow> name \<Rightarrow> name \<Rightarrow> name \<Rightarrow> real \<Rightarrow> bool" for lsdb a h where
  first_link: "h \<noteq> a \<Longrightarrow> link_cost lsdb a h > 0 \<Longrightarrow> route_via lsdb a h h (link_cost lsdb a h)"
| further: "route_via lsdb a h b c \<Longrightarrow> r \<noteq> a \<Longrightarrow> link_cost lsdb b r > 0 \<Longrightarrow>
    route_via lsdb a h r (c + link_cost lsdb b r)"

abbreviation known :: "adj_lsa list \<Rightarrow> name set" where
  "known lsdb \<equiv> ls_origRouter ` set lsdb"

text \<open>The numbering of the routers and the matrix that a calculation builds.\<close>

abbreviation pmap :: "adj_lsa list \<Rightarrow> router_map" where
  "pmap lsdb \<equiv> createFromAdjLsdb lsdb rm_empty"

abbreviation nr :: "adj_lsa list \<Rightarrow> nat" where
  "nr lsdb \<equiv> getMapSize (pmap lsdb)"

abbreviation mat :: "adj_lsa list \<Rightarrow> matrix" where
  "mat lsdb \<equiv> makeAdjMatrix (nr lsdb) (pmap lsdb) lsdb (initMatrix (nr lsdb))"

abbreviation nm :: "adj_lsa list \<Rightarrow> nat \<Rightarrow> name" where
  "nm lsdb i \<equiv> getRouterNameByMappingNo (int i) (pmap lsdb)"

lemma pmap_wf [simp]: "rm_wf (pmap lsdb)"
  by (simp add: rm_wf_create)

lemma mat_entry:
  "lsdb_keys_ok lsdb \<Longrightarrow> i < nr lsdb \<Longrightarrow> j < nr lsdb \<Longrightarrow>
   entry (mat lsdb) i j = link_cost lsdb (nm lsdb i) (nm lsdb j)"
  by (simp add: link_cost_def entry_makeAdjMatrix)

lemma nm_number:
  assumes "r \<in> known lsdb"
  obtains i where "i < nr lsdb" and "nm lsdb i = r"
    and "getMappingNoByRouterName r (pmap lsdb) = int i"
proof -
  have "getMappingNoByRouterName r (pmap lsdb) \<noteq> -1"
    using assms by (simp add: getMappingNo_iff routers_create)
  from own_number [OF pmap_wf this] that show thesis by blast
qed

lemma nm_inj: "i < nr lsdb \<Longrightarrow> j < nr lsdb \<Longrightarrow> nm lsdb i = nm lsdb j \<longleftrightarrow> i = j"
  using rm.name_inj [OF pmap_wf, of "int i" lsdb "int j"] by auto

lemma advertised_known: "advertised lsdb a b \<noteq> 0 \<Longrightarrow> a \<in> known lsdb"
  by (auto simp: advertised_def dest: by_key_SomeD split: option.splits)

lemma link_known:
  assumes "link_cost lsdb a b > 0"
  shows "a \<in> known lsdb" and "b \<in> known lsdb"
  using assms advertised_known [of lsdb a b] advertised_known [of lsdb b a]
  by (auto simp: link_cost_def corrected_def split: if_splits)

lemma route_path:
  assumes ok: "lsdb_keys_ok lsdb" and s: "s < nr lsdb"
  shows "route lsdb (nm lsdb s) r c \<Longrightarrow> v < nr lsdb \<Longrightarrow> nm lsdb v = r \<Longrightarrow> path_cost (nr lsdb) (mat lsdb) s v c"
proof (induction arbitrary: v rule: route.induct)
  case start
  then show ?case using s nm_inj path_cost.here by metis
next
  case (extend b c r)
  obtain u where u: "u < nr lsdb" "nm lsdb u = b"
    using nm_number link_known(1) [OF extend.hyps(2)] by blast
  have e: "entry (mat lsdb) u v = link_cost lsdb b r"
    using mat_entry [OF ok u(1) extend.prems(1)] u extend.prems by simp
  from path_cost.link [OF extend.IH [OF u] extend.prems(1)] e extend.hyps(2) show ?case by simp
qed

lemma path_route:
  assumes ok: "lsdb_keys_ok lsdb"
  shows "path_cost (nr lsdb) (mat lsdb) s v c \<Longrightarrow> route lsdb (nm lsdb s) (nm lsdb v) c"
proof (induction rule: path_cost.induct)
  case here
  show ?case by (rule route.start)
next
  case (link u c v)
  have "entry (mat lsdb) u v = link_cost lsdb (nm lsdb u) (nm lsdb v)"
    using mat_entry [OF ok path_cost_bound [OF link.hyps(1)] link.hyps(2)] .
  with route.extend [OF link.IH] link.hyps(3) show ?case by simp
qed

lemma path_cost_route:
  assumes "lsdb_keys_ok lsdb" and "s < nr lsdb" and "v < nr lsdb"
  shows "path_cost (nr lsdb) (mat lsdb) s v c \<longleftrightarrow> route lsdb (nm lsdb s) (nm lsdb v) c"
  using route_path [OF assms(1,2) _ assms(3) refl] path_route [OF assms(1)] by blast

lemma via_route:
  assumes ok: "lsdb_keys_ok lsdb" and s: "s < nr lsdb"
  shows "via_cost (nr lsdb) (mat lsdb) s h v c \<Longrightarrow> route_via lsdb (nm lsdb s) (nm lsdb h) (nm lsdb v) c"
proof (induction rule: via_cost.induct)
  case first
  then have "entry (mat lsdb) s h = link_cost lsdb (nm lsdb s) (nm lsdb h)" "nm lsdb h \<noteq> nm lsdb s"
    using mat_entry [OF ok] nm_inj by blast+
  with route_via.first_link first show ?case by metis
next
  case (link u c v)
  have "u < nr lsdb" using via_cost_bound [OF link.hyps(1)] by simp
  then have "entry (mat lsdb) u v = link_cost lsdb (nm lsdb u) (nm lsdb v)" "nm lsdb v \<noteq> nm lsdb s"
    using mat_entry [OF ok] nm_inj s link.hyps by blast+
  with route_via.further [OF link.IH] link.hyps show ?case by simp
qed

lemma route_via_cost:
  assumes ok: "lsdb_keys_ok lsdb" and s: "s < nr lsdb" and h: "h < nr lsdb"
  shows "route_via lsdb (nm lsdb s) (nm lsdb h) r c \<Longrightarrow> v < nr lsdb \<Longrightarrow> nm lsdb v = r \<Longrightarrow>
    via_cost (nr lsdb) (mat lsdb) s h v c"
proof (induction arbitrary: v rule: route_via.induct)
  case first_link
  then have "v = h" "h \<noteq> s" using nm_inj h by auto
  with via_cost.first [OF s h, of "mat lsdb"] first_link mat_entry [OF ok s h] show ?case by simp
next
  case (further b c r)
  obtain u where u: "u < nr lsdb" "nm lsdb u = b"
    using nm_number link_known(1) [OF further.hyps(3)] by blast
  have e: "entry (mat lsdb) u v = link_cost lsdb b r"
    using mat_entry [OF ok u(1) further.prems(1)] u further.prems by simp
  have "v \<noteq> s" using further by auto
  with via_cost.link [OF further.IH [OF u] further.prems(1), of] e further.hyps show ?case by simp
qed

lemma via_cost_route:
  assumes "lsdb_keys_ok lsdb" and "s < nr lsdb" and "h < nr lsdb" and "v < nr lsdb"
  shows "via_cost (nr lsdb) (mat lsdb) s h v c \<longleftrightarrow> route_via lsdb (nm lsdb s) (nm lsdb h) (nm lsdb v) c"
  using route_via_cost [OF assms(1-3) _ assms(4) refl] via_route [OF assms(1,2)] by blast

lemma route_known: "route lsdb a r c \<Longrightarrow> r = a \<or> r \<in> known lsdb"
  by (induction rule: route.induct) (auto dest: link_known)

lemma route_via_known:
  assumes "route_via lsdb a h r c"
  shows "r \<in> known lsdb" and "h \<in> known lsdb" and "r \<noteq> a"
  using assms by (induction rule: route_via.induct) (auto dest: link_known)

section \<open>The calculated table\<close>

definition best_route :: "adj_lsa list \<Rightarrow> name \<Rightarrow> name \<Rightarrow> name \<Rightarrow> real \<Rightarrow> bool" where
  "best_route lsdb a h r d \<longleftrightarrow> route_via lsdb a h r d \<and> (\<forall>c. route lsdb a r c \<longrightarrow> d \<le> c)"

definition face_to :: "adjacency_list \<Rightarrow> name \<Rightarrow> string" where
  "face_to adl h = ad_faceUri (getAdjacent h adl)"

lemma shortest_route:
  assumes ok: "lsdb_keys_ok lsdb" and s: "s < nr lsdb" and v: "v < nr lsdb"
    and short: "shortest_via (nr lsdb) (mat lsdb) s h v d"
  shows "best_route lsdb (nm lsdb s) (nm lsdb h) (nm lsdb v) d"
proof -
  from short have via: "via_cost (nr lsdb) (mat lsdb) s h v d"
    and least: "\<forall>c. path_cost (nr lsdb) (mat lsdb) s v c \<longrightarrow> d \<le> c"
    by (auto simp: shortest_via_def)
  have "h < nr lsdb" using via_cost_bound [OF via] by simp
  then show ?thesis
    using via least by (simp add: best_route_def via_cost_route [OF ok s _ v] path_cost_route [OF ok s v])
qed

lemma number_none:
  assumes "getMappingNoByRouterName r (pmap lsdb) = -1"
  shows "r \<notin> known lsdb" and "i < nr lsdb \<Longrightarrow> nm lsdb i \<noteq> r"
proof -
  show "r \<notin> known lsdb"
    using assms by (auto simp: getMappingNo_iff routers_create)
  show "i < nr lsdb \<Longrightarrow> nm lsdb i \<noteq> r"
    using rm.number_name [OF pmap_wf, of "int i" lsdb] assms by auto
qed

lemma findRoutingTableEntry_Nil [simp]: "findRoutingTableEntry d [] = None"
  by (simp add: findRoutingTableEntry_def)

lemma insertHops_absent:
  assumes "d \<notin> fst ` set hs"
  shows "findRoutingTableEntry d (insertHops hs t) = findRoutingTableEntry d t"
  using assms by (induction hs arbitrary: t) (auto simp: find_rt_insert)

text \<open>What the table may hold for a destination when only one face is used: nothing, if no route is
  shorter than the infinite distance, or one hop over the first link of a best route.\<close>

definition single_path_entry ::
  "adj_lsa list \<Rightarrow> adjacency_list \<Rightarrow> name \<Rightarrow> name \<Rightarrow> rt_entry option \<Rightarrow> bool" where
  "single_path_entry lsdb adl a r e = (case e of
       None \<Rightarrow> \<not> (\<exists>c<INF_DISTANCE. route lsdb a r c)
     | Some e \<Rightarrow> \<exists>h d. best_route lsdb a h r d \<and>
         e = \<lparr>rte_destination = r,
              rte_hops = [\<lparr>nh_faceUri = face_to adl h, nh_cost = d, nh_hyperbolic = False\<rparr>]\<rparr>)"

lemma single_path_table:
  assumes ok: "lsdb_keys_ok lsdb" and s: "s < nr lsdb" and r: "r \<noteq> nm lsdb s"
    and res: "search_result (nr lsdb) (mat lsdb) s ds ps"
  shows "single_path_entry lsdb adl (nm lsdb s) r
    (findRoutingTableEntry r (lsTable adl (pmap lsdb) (nr lsdb) s ds ps))"
proof (cases "getMappingNoByRouterName r (pmap lsdb) = -1")
  case True
  have "r \<notin> fst ` set (map (lsHop adl (pmap lsdb) s ds ps) (reached (nr lsdb) s ds))"
    using number_none(2) [OF True] by (auto simp: lsHop_def reached_def) blast
  then have "findRoutingTableEntry r (lsTable adl (pmap lsdb) (nr lsdb) s ds ps) = None"
    by (simp add: lsTable_def insertHops_absent)
  moreover have "\<not> route lsdb (nm lsdb s) r c" for c
    using number_none(1) [OF True] r route_known by blast
  ultimately show ?thesis
    by (simp add: single_path_entry_def)
next
  case False
  obtain v where v: "v < nr lsdb" "nm lsdb v = r"
    using own_number [OF pmap_wf False] by blast
  then have "v \<noteq> s" using r by auto
  note table = single_path [OF res s pmap_wf refl v(1) this, of adl]
  show ?thesis
  proof (cases "\<exists>c<INF_DISTANCE. path_cost (nr lsdb) (mat lsdb) s v c")
    case True
    obtain h d where h: "shortest_via (nr lsdb) (mat lsdb) s h v d"
      and e: "findRoutingTableEntry r (lsTable adl (pmap lsdb) (nr lsdb) s ds ps) =
        Some \<lparr>rte_destination = r, rte_hops =
          [\<lparr>nh_faceUri = faceTowards adl (pmap lsdb) h, nh_cost = d, nh_hyperbolic = False\<rparr>]\<rparr>"
      using table(1) [OF True] v(2) by auto
    from shortest_route [OF ok s v(1) h] v(2) e show ?thesis
      by (auto simp: single_path_entry_def faceTowards_def face_to_def)
  next
    case False
    with table(2) [OF False] v(2) path_cost_route [OF ok s v(1)] show ?thesis
      by (simp add: single_path_entry_def)
  qed
qed

lemma single_path_calculation:
  assumes ok: "lsdb_keys_ok lsdb" and own: "cf_routerPrefix c \<in> known lsdb"
    and one: "cf_maxFacesPerPrefix c = 1" and empty: "rt_table rt = []"
  shows "\<exists>rt'. calculateLsRoutingTable c lsdb adl rt = Some rt' \<and>
    (\<forall>r. r \<noteq> cf_routerPrefix c \<longrightarrow>
      single_path_entry lsdb adl (cf_routerPrefix c) r (findRoutingTableEntry r (rt_table rt')))"
proof -
  obtain s where s: "s < nr lsdb" "nm lsdb s = cf_routerPrefix c"
      "getMappingNoByRouterName (cf_routerPrefix c) (pmap lsdb) = int s"
    using nm_number [OF own] by blast
  obtain ds ps where d: "doDijkstraPathCalculation (nr lsdb) (mat lsdb) (int s) = (ds, ps)" by fastforce
  then have res: "search_result (nr lsdb) (mat lsdb) s ds ps"
    using doDijkstra_result [OF s(1), of "mat lsdb"] by simp
  have "calculateLsRoutingTable c lsdb adl rt =
      Some (rt\<lparr>rt_table := lsTable adl (pmap lsdb) (nr lsdb) s ds ps\<rparr>)"
    using d s(3) one empty addAll_hops [OF res s(1)]
    by (simp add: calculateLsRoutingTable_def calculatePath_def lsTable_def Let_def)
  with single_path_table [OF ok s(1) _ res] s(2) show ?thesis by auto
qed

text \<open>With several faces per prefix, a face has the cost of the best route over its neighbors.\<close>

definition best_over_face ::
  "adj_lsa list \<Rightarrow> adjacency_list \<Rightarrow> name \<Rightarrow> name \<Rightarrow> string \<Rightarrow> real \<Rightarrow> bool" where
  "best_over_face lsdb adl a r U d \<longleftrightarrow> (\<exists>h. face_to adl h = U \<and> route_via lsdb a h r d) \<and>
     (\<forall>h c. face_to adl h = U \<longrightarrow> route_via lsdb a h r c \<longrightarrow> d \<le> c)"

lemma best_via_face:
  assumes ok: "lsdb_keys_ok lsdb" and s: "s < nr lsdb" and v: "v < nr lsdb"
  shows "best_via (nr lsdb) (mat lsdb) s (faceTowards adl (pmap lsdb)) U v d \<longleftrightarrow>
    best_over_face lsdb adl (nm lsdb s) (nm lsdb v) U d"
proof -
  have "(\<exists>h. faceTowards adl (pmap lsdb) h = U \<and> via_cost (nr lsdb) (mat lsdb) s h v c) \<longleftrightarrow>
      (\<exists>h. face_to adl h = U \<and> route_via lsdb (nm lsdb s) h (nm lsdb v) c)" (is "?L \<longleftrightarrow> ?R") for c
  proof
    assume ?L
    then show ?R
      using via_route [OF ok s] by (auto simp: faceTowards_def face_to_def)
  next
    assume ?R
    then obtain h where h: "face_to adl h = U" "route_via lsdb (nm lsdb s) h (nm lsdb v) c" by blast
    obtain i where "i < nr lsdb" "nm lsdb i = h"
      using nm_number route_via_known(2) [OF h(2)] by blast
    with h route_via_cost [OF ok s _ _ v refl] show ?L
      by (auto simp: faceTowards_def face_to_def)
  qed
  then show ?thesis unfolding best_via_def best_over_face_def by blast
qed

lemma multi_path_table:
  assumes ok: "lsdb_keys_ok lsdb" and s: "s < nr lsdb" and r: "r \<noteq> nm lsdb s"
    and H: "set H = (\<Union>l\<in>fst ` set (getLinksFromAdjMatrix (nr lsdb) (mat lsdb) s).
        hops_via (nr lsdb) (mat lsdb) s adl (pmap lsdb) l)"
  shows "rt_cost (insertHops H []) (r, U) = Some d \<longleftrightarrow>
    d < INF_DISTANCE \<and> best_over_face lsdb adl (nm lsdb s) r U d"
proof (cases "getMappingNoByRouterName r (pmap lsdb) = -1")
  case True
  have "r \<notin> fst ` set H"
    using number_none(2) [OF True] by (auto simp: H hops_via_def hop_to_def) blast
  then have "rt_cost (insertHops H []) (r, U) = None"
    by (simp add: rt_cost_def insertHops_absent)
  with number_none(1) [OF True] route_via_known(1) show ?thesis
    by (auto simp: best_over_face_def)
next
  case False
  obtain v where v: "v < nr lsdb" "nm lsdb v = r"
    using own_number [OF pmap_wf False] by blast
  then have "v \<noteq> s" using r by auto
  from multi_path [OF dims_make [OF dims_init] s pmap_wf refl v(1) this H] v(2)
    best_via_face [OF ok s v(1)] show ?thesis by simp
qed

lemma multi_path_calculation:
  assumes ok: "lsdb_keys_ok lsdb" and own: "cf_routerPrefix c \<in> known lsdb"
    and many: "cf_maxFacesPerPrefix c \<noteq> 1" and empty: "rt_table rt = []"
  shows "\<exists>rt'. calculateLsRoutingTable c lsdb adl rt = Some rt' \<and>
    (\<forall>r U d. r \<noteq> cf_routerPrefix c \<longrightarrow> rt_cost (rt_table rt') (r, U) = Some d \<longleftrightarrow>
      d < INF_DISTANCE \<and> best_over_face lsdb adl (cf_routerPrefix c) r U d)"
proof -
  obtain s where s: "s < nr lsdb" "nm lsdb s = cf_routerPrefix c"
      "getMappingNoByRouterName (cf_routerPrefix c) (pmap lsdb) = int s"
    using nm_number [OF own] by blast
  have links: "\<forall>(l, c)\<in>set (getLinksFromAdjMatrix (nr lsdb) (mat lsdb) s). c = entry (mat lsdb) s l"
    by (auto simp: getLinks_alt)
  obtain H where H: "multiPath (nr lsdb) adl (pmap lsdb) s
        (getLinksFromAdjMatrix (nr lsdb) (mat lsdb) s) (mat lsdb) rt =
      Some (rt\<lparr>rt_table := insertHops H (rt_table rt)\<rparr>)"
    and set: "set H = (\<Union>l\<in>fst ` set (getLinksFromAdjMatrix (nr lsdb) (mat lsdb) s).
        hops_via (nr lsdb) (mat lsdb) s adl (pmap lsdb) l)"
    using multiPath_hops [OF s(1) dims_make [OF dims_init, of "nr lsdb" "pmap lsdb" lsdb] _ links,
        where adl = adl and pm = "pmap lsdb" and rt = rt] by blast
  have "calculateLsRoutingTable c lsdb adl rt = Some (rt\<lparr>rt_table := insertHops H []\<rparr>)"
    using H s(3) many empty by (simp add: calculateLsRoutingTable_def calculatePath_def Let_def)
  with multi_path_table [OF ok s(1) _ set] s(2) show ?thesis by auto
qed

section \<open>Properties\<close>

text \<open>C1: With one face per prefix, the calculation returns, and for every other router the
  table has one next hop, over the first link of a shortest route and with its cost; it has
  none when no route is shorter than the infinite distance.\<close>

theorem single_path_routes:
  assumes "lsdb_keys_ok lsdb" and "cf_routerPrefix c \<in> ls_origRouter ` set lsdb"
    and "cf_maxFacesPerPrefix c = 1" and "rt_table rt = []"
  shows "\<exists>rt'. calculateLsRoutingTable c lsdb adl rt = Some rt' \<and>
    (\<forall>r. r \<noteq> cf_routerPrefix c \<longrightarrow>
      single_path_entry lsdb adl (cf_routerPrefix c) r (findRoutingTableEntry r (rt_table rt')))"
  by (rule single_path_calculation [OF assms])

lemma single_path_routes_witness:
  "\<exists>rt'. calculateLsRoutingTable demo_conf demo_lsdb demo_adl rt_empty = Some rt' \<and>
    single_path_entry demo_lsdb demo_adl ra rc (findRoutingTableEntry rc (rt_table rt'))"
proof -
  have own: "cf_routerPrefix demo_conf \<in> known demo_lsdb" by (simp add: demo_origins)
  have empty: "rt_table rt_empty = []" and other: "rc \<noteq> ra" by (simp_all add: rt_empty_def)
  obtain rt' where calc: "calculateLsRoutingTable demo_conf demo_lsdb demo_adl rt_empty = Some rt'"
    and all: "\<forall>r. r \<noteq> ra \<longrightarrow> single_path_entry demo_lsdb demo_adl ra r (findRoutingTableEntry r (rt_table rt'))"
    using single_path_routes [OF demo_lsdb_ok own demo_conf_simps(2) empty, of demo_adl]
    unfolding demo_conf_simps(1) by (elim exE conjE) (rule that)
  from conjI [OF calc all [rule_format, OF other]] show ?thesis by (rule exI)
qed

text \<open>C3: With several faces per prefix, the calculation returns, and the table offers a face
  for a destination exactly when some route leaves over a neighbor with this face, at the cost
  of the cheapest of these routes.\<close>

theorem multi_path_routes:
  assumes "lsdb_keys_ok lsdb" and "cf_routerPrefix c \<in> ls_origRouter ` set lsdb"
    and "cf_maxFacesPerPrefix c \<noteq> 1" and "rt_table rt = []"
  shows "\<exists>rt'. calculateLsRoutingTable c lsdb adl rt = Some rt' \<and>
    (\<forall>r U d. r \<noteq> cf_routerPrefix c \<longrightarrow> rt_cost (rt_table rt') (r, U) = Some d \<longleftrightarrow>
      d < INF_DISTANCE \<and> best_over_face lsdb adl (cf_routerPrefix c) r U d)"
  using multi_path_calculation [OF assms] .

lemma multi_path_routes_witness:
  "\<exists>rt'. calculateLsRoutingTable (demo_conf\<lparr>cf_maxFacesPerPrefix := 3\<rparr>) demo_lsdb demo_adl rt_empty = Some rt' \<and>
    (rt_cost (rt_table rt') (rc, ''udp4://b'') = Some 20 \<longleftrightarrow>
      20 < INF_DISTANCE \<and> best_over_face demo_lsdb demo_adl ra rc ''udp4://b'' 20)"
proof -
  let ?c = "demo_conf\<lparr>cf_maxFacesPerPrefix := 3\<rparr>"
  have c: "cf_routerPrefix ?c = ra" "cf_maxFacesPerPrefix ?c \<noteq> 1" by simp_all
  have own: "cf_routerPrefix ?c \<in> known demo_lsdb" by (simp add: demo_origins)
  have empty: "rt_table rt_empty = []" and other: "rc \<noteq> ra" by (simp_all add: rt_empty_def)
  obtain rt' where calc: "calculateLsRoutingTable ?c demo_lsdb demo_adl rt_empty = Some rt'"
    and all: "\<forall>r U d. r \<noteq> ra \<longrightarrow> rt_cost (rt_table rt') (r, U) = Some d \<longleftrightarrow>
      d < INF_DISTANCE \<and> best_over_face demo_lsdb demo_adl ra r U d"
    using multi_path_routes [OF demo_lsdb_ok own c(2) empty, of demo_adl]
    unfolding c(1) by (elim exE conjE) (rule that)
  from conjI [OF calc all [rule_format, OF other]] show ?thesis by (rule exI)
qed

text \<open>C25: The matrix of the calculation is symmetric: the entry of two routers is the greater of
  the costs they advertise for each other, and 0 unless both advertise the link.\<close>

theorem matrix_of_links:
  assumes "lsdb_keys_ok lsdb" and "i < getMapSize pm" and "j < getMapSize pm" and "rm_wf pm"
  shows "entry (makeAdjMatrix (getMapSize pm) pm lsdb (initMatrix (getMapSize pm))) i j =
      link_cost lsdb (getRouterNameByMappingNo (int i) pm) (getRouterNameByMappingNo (int j) pm) \<and>
    link_cost lsdb a b = link_cost lsdb b a \<and>
    link_cost lsdb a b = (let x = advertised lsdb a b; y = advertised lsdb b a
      in if x = 0 \<or> y = 0 then 0 else max x y)"
  using entry_makeAdjMatrix [OF assms(4) refl assms(2,3,1)]
  by (auto simp: link_cost_def corrected_sym) (auto simp: corrected_def Let_def)

lemma demo_links: "link_cost demo_lsdb ra rc = 30" "link_cost demo_lsdb ra rb = 10"
  by (simp_all add: link_cost_def corrected_def advertised_def demo_lsdb_def mkAdjLsa_adl adl_wf_def
      demo_adl_def demo_link_def linkWeight_def getLinkCost_def)

lemma matrix_of_links_witness:
  "entry (makeAdjMatrix (getMapSize (pmap demo_lsdb)) (pmap demo_lsdb) demo_lsdb
      (initMatrix (getMapSize (pmap demo_lsdb)))) 0 2 = 30 \<and>
   link_cost demo_lsdb ra rc = link_cost demo_lsdb rc ra"
proof -
  have "getMapSize (pmap demo_lsdb) = 3" "nm demo_lsdb 0 = ra" "nm demo_lsdb 2 = rc"
    by (simp_all add: demo_lsdb_def createFromAdjLsdb_def mkAdjLsa_adl adl_wf_def demo_adl_def demo_link_def
        rm_addEntry_def rm_addMapEntry_def rm_empty_def getMapSize_def getRouterNameByMappingNo_def)
  then show ?thesis
    using matrix_of_links [OF demo_lsdb_ok, of 0 "pmap demo_lsdb" 2 ra rc] demo_links by simp
qed

text \<open>C21: Dijkstra's algorithm as written (the whole queue sorted after every step) leaves the
  cost of a shortest path for every router it reaches, the infinite distance for the others,
  and a parent through which the cost is attained.\<close>

theorem dijkstra_shortest:
  assumes "s < n" and "doDijkstraPathCalculation n adj (int s) = (distance, parent)" and "v < n"
  shows "(if distance ! v < INF_DISTANCE
      then path_cost n adj s v (distance ! v) \<and> (v \<noteq> s \<longrightarrow>
        (\<exists>u<n. parent ! v = int u \<and> entry adj u v > 0 \<and> distance ! v = distance ! u + entry adj u v))
      else distance ! v = INF_DISTANCE \<and> parent ! v = EMPTY_PARENT) \<and>
    (\<forall>c. path_cost n adj s v c \<longrightarrow> distance ! v \<le> c)"
  using doDijkstra_result [OF assms(1), of adj] assms(2,3)
  by (auto simp: search_result_def order_le_less)

lemma dijkstra_shortest_witness:
  "path_cost 2 [[0, 5], [5, 0]] 0 1 5 \<and> fst (doDijkstraPathCalculation 2 [[0, 5], [5, 0]] 0) ! 1 \<le> 5"
proof -
  let ?m = "[[0, 5], [5, 0]] :: matrix"
  obtain ds ps where d: "doDijkstraPathCalculation 2 ?m (int 0) = (ds, ps)" by fastforce
  have "path_cost 2 ?m 0 1 (0 + entry ?m 0 1)"
    by (rule path_cost.link, rule path_cost.here) (simp_all add: entry_def)
  with dijkstra_shortest [OF _ d, of 1] d show ?thesis by (simp add: entry_def)
qed

text \<open>C24: The calculation ends without an index out of the matrix and without a cycle of
  parents whenever the database holds an LSA of this router, whatever else is in it.\<close>

theorem calculation_returns:
  assumes "cf_routerPrefix c \<in> ls_origRouter ` set lsdb"
  shows "\<exists>rt'. calculateLsRoutingTable c lsdb adl rt = Some rt' \<and> rt_dryTable rt' = rt_dryTable rt \<and>
    (rt_wf (rt_table rt) \<longrightarrow> rt_wf (rt_table rt'))"
  using calculateLs_returns [OF assms] rt_wf_fold by fastforce

lemma calculation_returns_witness:
  "\<exists>rt'. calculateLsRoutingTable demo_conf demo_lsdb demo_adl rt_empty = Some rt' \<and> rt_dryTable rt' = []"
  using calculation_returns [of demo_conf demo_lsdb demo_adl rt_empty] by (auto simp: demo_origins rt_empty_def)

text \<open>C32: The hyperbolic calculation offers a face for a destination exactly for the neighbors
  with this face that are not inactive: at cost 0 for the neighbor itself, at the hyperbolic
  distance from the neighbor for other known routers; the cost is the least of the offers.
  A dry run computes the same table and leaves the one in use alone.\<close>

theorem hyperbolic_table:
  fixes adl :: adjacency_list and corLsdb :: "cor_lsa list" and c :: conf and adjLsdb :: "adj_lsa list"
    and dry :: bool and rt :: routing_table
  assumes "(if dry then rt_dryTable rt else rt_table rt) = []"
  defines "offers \<equiv> hyp_offer (createFromAdjLsdb adjLsdb rm_empty) (cf_routerPrefix c) corLsdb adl"
  defines "rt' \<equiv> calculateHypRoutingTable dry c adjLsdb corLsdb adl rt"
  shows "rt_cost (if dry then rt_dryTable rt' else rt_table rt') (r, U) =
      (if \<exists>d. offers r U d then Some (Min {d. offers r U d}) else None) \<and>
    (if dry then rt_table rt' = rt_table rt else rt_dryTable rt' = rt_dryTable rt)"
proof -
  let ?hs = "concat (map (hyp_hops (getMapSize (pmap adjLsdb)) (cf_routerPrefix c) (pmap adjLsdb) corLsdb) adl)"
  have rt': "rt' = (if dry then rt\<lparr>rt_dryTable := insertHops ?hs (rt_dryTable rt)\<rparr>
      else rt\<lparr>rt_table := insertHops ?hs (rt_table rt)\<rparr>)"
    by (simp add: rt'_def calculateHypRoutingTable_def calculatePaths_tables Let_def)
  have offer: "offers r U d \<longleftrightarrow> (\<exists>h\<in>set ?hs. fst h = r \<and> nh_faceUri (snd h) = U \<and> nh_cost (snd h) = d)" for d
    by (simp only: offers_def hyp_offer_hops [OF pmap_wf])
  then have set: "{d. offers r U d} = (\<lambda>h. nh_cost (snd h)) ` {h \<in> set ?hs. (fst h, nh_faceUri (snd h)) = (r, U)}"
    by (auto simp del: set_concat)
  have ex: "(\<exists>d. offers r U d) \<longleftrightarrow> (r, U) \<in> (\<lambda>h. (fst h, nh_faceUri (snd h))) ` set ?hs"
    unfolding offer by (auto simp del: set_concat simp: image_iff)
  have "rt_cost (insertHops ?hs []) (r, U) =
      (if \<exists>d. offers r U d then Some (Min {d. offers r U d}) else None)"
    unfolding ex set by (rule rt.cost_fold_Min) (simp add: rt_cost_def)
  with assms(1) rt' show ?thesis by (auto split: if_splits)
qed

lemma hyperbolic_table_witness:
  "rt_table (calculateHypRoutingTable True demo_conf demo_lsdb [] demo_adl rt_empty) = []"
  using hyperbolic_table [of True rt_empty demo_conf demo_lsdb "[]" demo_adl]
  by (simp add: rt_empty_def)


end
