(* ===== verification/Message_Properties.thy ===== *)
theory Message_Properties
  imports Demo_Network Lsa_Text Sequencing Name_Prefix_List Statistics
begin

text \<open>
  Properties of what the routers exchange and of the local tables it is built from: the
  text form of the LSAs, the packed sequence numbers, the adjacency list, the list of name
  prefixes, the numbering of routers and the packet counters.
\<close>

section \<open>LSAs as text\<close>


definition demo_name_lsa :: name_lsa where
  "demo_name_lsa = mkNameLsa ra NAME_TYPE 12 5000 [rb, [''x'', ''y'']]"


text \<open>C29: An adjacency LSA that is sent is read back with its links in order and every cost
  rounded up; the neighbors' status and faces, the flag of the sender and its timer do not
  travel with it.\<close>

theorem adj_lsa_roundtrip:
  assumes "codec_ok L" and "ls_origRouter l \<noteq> []" and "time_ok (ls_expiration l)"
    and "distinct (map ad_name (al_adl l))" and "list_all link_sendable (al_adl l)"
    and "length (al_adl l) < 2 ^ 32"
  shows "adj_initializeFromContent L (adj_getData L l) =
    Parsed (l\<lparr>ls_type := ADJ_TYPE, ls_event := None, al_noLink := None,
      al_adl := map received_link (al_adl l)\<rparr>)"
  using assms by (intro adj_roundtrip) (simp_all add: lsa_sendable_def adj_lsa_wf_def adl_wf_def)

lemma adj_lsa_roundtrip_witness:
  "\<exists>l. adj_initializeFromContent demo_lib (adj_getData demo_lib (mkAdjLsa ra ADJ_TYPE 3 5000 2 demo_adl)) = Parsed l \<and>
    al_adl l = map received_link demo_adl \<and> ls_seqNo l = 3"
proof -
  let ?l = "mkAdjLsa ra ADJ_TYPE 3 5000 2 demo_adl"
  have l: "al_adl ?l = demo_adl" "ls_expiration ?l = 5000" "ls_seqNo ?l = 3"
    by (simp_all add: mkAdjLsa_adl [OF demo_adl_wf]) (simp_all add: demo_adl_def demo_link_def)
  have "adj_initializeFromContent demo_lib (adj_getData demo_lib ?l) =
      Parsed (?l\<lparr>ls_type := ADJ_TYPE, ls_event := None, al_noLink := None, al_adl := map received_link (al_adl ?l)\<rparr>)"
    using demo_adl_wf
    by (intro adj_lsa_roundtrip [OF demo_codec])
      (simp_all add: l time_ok_def adl_wf_def, simp_all add: demo_adl_def demo_link_def link_sendable_def field_ok_def)
  then show ?thesis by (simp add: l)
qed

text \<open>A coordinate LSA is read back unchanged when its two numbers are.\<close>

lemma cor_lsa_roundtrip:
  assumes "codec_ok L" and "ls_origRouter l \<noteq> []" and "time_ok (ls_expiration l)"
    and "double_ok L (cl_corRad l)" and "double_ok L (cl_corTheta l)"
  shows "cor_initializeFromContent L (cor_getData L l) = Parsed (l\<lparr>ls_type := COR_TYPE, ls_event := None\<rparr>)"
  using assms by (intro cor_roundtrip) (simp_all add: lsa_sendable_def)

lemma demo_double: "double_ok demo_lib (real n)"
  by (simp add: double_ok_def demo_lib_def isDigits_digits isDigits_field demoValue_digits)

lemma cor_lsa_roundtrip_witness:
  "cor_initializeFromContent demo_lib (cor_getData demo_lib (mkCoordinateLsa ra COR_TYPE 4 5000 21 2)) =
    Parsed (mkCoordinateLsa ra COR_TYPE 4 5000 21 2)"
proof -
  let ?l = "mkCoordinateLsa ra COR_TYPE 4 5000 21 2"
  have "cor_initializeFromContent demo_lib (cor_getData demo_lib ?l) =
      Parsed (?l\<lparr>ls_type := COR_TYPE, ls_event := None\<rparr>)"
    using demo_double [of 21] demo_double [of 2]
    by (intro cor_lsa_roundtrip [OF demo_codec]) (simp_all add: mkCoordinateLsa_def cor_lsa_default_def time_ok_def)
  then show ?thesis by (simp add: mkCoordinateLsa_def cor_lsa_default_def)
qed


section \<open>Sequence numbers\<close>

text \<open>C35: The packed sequence number and its three parts determine each other: splitting undoes
  combining while the parts fit their fields, and combining undoes splitting always.\<close>

theorem sequence_split_combine:
  assumes "seq_in_range m"
  shows "splitSequenceNo (sq_combined (combineSequenceNo m)) m = combineSequenceNo m \<and>
    sq_combined (combineSequenceNo (splitSequenceNo w m)) = w \<and>
    unat (sq_combined (combineSequenceNo m)) =
      unat (sq_adj m) + 2 ^ 20 * unat (sq_cor m) + 2 ^ 40 * unat (sq_name m)"
  using split_combine [OF assms] combine_split combined_value [OF assms] by simp

lemma sequence_split_combine_witness:
  "unat (sq_combined (combineSequenceNo (sequencing_of3 3 2 1))) = 2 + 2 ^ 20 * 1 + 2 ^ 40 * 3"
  using sequence_split_combine [of "sequencing_of3 3 2 1" 0]
  by (simp add: sequencing_of3_def sequencing_default_def combineSequenceNo_def seq_in_range_def)

text \<open>C36: The number announced to the other routers only grows: every increase of a part and every
  restart from the file makes it greater, while the parts fit their fields.\<close>

theorem sequence_grows:
  assumes "seq_packed m" and "seq_in_range m"
  shows "(seq_in_range (increaseNameLsaSeq m) \<longrightarrow> sq_combined m < sq_combined (increaseNameLsaSeq m)) \<and>
    (seq_in_range (increaseAdjLsaSeq m) \<longrightarrow> sq_combined m < sq_combined (increaseAdjLsaSeq m)) \<and>
    (seq_in_range (increaseCorLsaSeq m) \<longrightarrow> sq_combined m < sq_combined (increaseCorLsaSeq m)) \<and>
    (seq_in_range (initiateSeqNoFromFile (Some (sq_combined m)) m) \<longrightarrow>
      sq_combined m < sq_combined (initiateSeqNoFromFile (Some (sq_combined m)) m))"
  using increase_combined [OF assms] restart_combined by blast

lemma sequence_grows_witness:
  "sq_combined (sequencing_of3 3 2 1) < sq_combined (increaseAdjLsaSeq (sequencing_of3 3 2 1))"
  using sequence_grows [of "sequencing_of3 3 2 1"]
  by (simp add: sequencing_of3_def sequencing_default_def combineSequenceNo_def seq_packed_def
      seq_in_range_def increaseAdjLsaSeq_def)

section \<open>Tables of the router\<close>

text \<open>The numbering of routers is a bijection between the numbers below the size of the map
  and the routers that the database mentions, as origin or as neighbor.\<close>

theorem router_numbers:
  "bij_betw (\<lambda>i. getRouterNameByMappingNo i (createFromAdjLsdb lsdb rm_empty))
     {0..<int (getMapSize (createFromAdjLsdb lsdb rm_empty))}
     (ls_origRouter ` set lsdb \<union> (\<Union>l\<in>set lsdb. ad_name ` set (al_adl l)))"
proof -
  have wf: "rm_wf (createFromAdjLsdb lsdb rm_empty)" by (simp add: rm_wf_create)
  have "{n. getMappingNoByRouterName n (createFromAdjLsdb lsdb rm_empty) \<noteq> -1} =
      ls_origRouter ` set lsdb \<union> (\<Union>l\<in>set lsdb. ad_name ` set (al_adl l))"
    by (auto simp: getMappingNo_iff [OF wf] routers_create) (simp_all add: rm_empty_def)
  with rm.numbers_bij [OF wf] show ?thesis by simp
qed

text \<open>C37: An adjacency LSA may be built exactly when every neighbor is active or has timed out as
  often as configured; it then advertises exactly the active neighbors.\<close>

theorem adjacency_lsa_content:
  assumes "length adl < 2 ^ 32" and "adl_wf adl"
  shows "(isAdjLsaBuildable c adl \<longleftrightarrow>
      (\<forall>a\<in>set adl. ad_status a = STATUS_ACTIVE \<or> cf_interestRetryNumber c \<le> ad_timedOut a)) \<and>
    al_adl (mkAdjLsa r ty n t k adl) = filter (\<lambda>a. ad_status a = STATUS_ACTIVE) adl \<and>
    getNumOfActiveNeighbor adl = int (length (al_adl (mkAdjLsa r ty n t k adl)))"
  by (simp add: isAdjLsaBuildable_iff [OF assms(1)] list_all_iff counts_as_settled_def
      mkAdjLsa_adl [OF assms(2)] getNumOfActiveNeighbor_filter)

lemma adjacency_lsa_content_witness:
  "isAdjLsaBuildable demo_conf demo_adl \<and> getNumOfActiveNeighbor demo_adl = 2"
  using adjacency_lsa_content [OF _ demo_adl_wf, of demo_conf ra ADJ_TYPE 1 0 2]
  by (simp add: demo_adl_def demo_link_def)

text \<open>The list of name prefixes is a set: an insertion reports whether the name is new and adds
  it, a removal reports whether it was there and takes it out, and no name is there twice.\<close>

theorem name_prefix_list_set:
  assumes "distinct l"
  shows "npl_insert n l = (n \<notin> set l, if n \<in> set l then l else l @ [n]) \<and> distinct (snd (npl_insert n l)) \<and>
    fst (npl_remove n l) = (n \<in> set l) \<and> set (snd (npl_remove n l)) = set l - {n} \<and>
    distinct (snd (npl_remove n l))"
  using npl.insert_new [of n l] npl.insert_old [of n l] npl.insert_wf [OF assms, of n]
    npl.remove_found [of n l] npl.remove_contents [OF assms, of n] npl.remove_wf [OF assms, of n]
  by (auto simp: npl_insert_def find_eq_None split: option.splits)

lemma name_prefix_list_set_witness:
  "npl_insert rb [ra] = (True, [ra, rb]) \<and> set (snd (npl_remove ra [ra, rb])) = {rb}"
  using name_prefix_list_set [of "[ra]" rb] name_prefix_list_set [of "[ra, rb]" ra] by simp

text \<open>A packet counter counts: an increment adds one to its own counter and leaves the others
  alone, and a reset makes all of them 0.\<close>

theorem statistics_count:
  "stats_get q (fold stats_increment ps s) = stats_get q s + int (length (filter (\<lambda>p. p = q) ps)) \<and>
   stats_get q (stats_resetAll s) = 0"
  by (induction ps arbitrary: s) (auto simp: stats_get_increment stats_get_reset)

end
