(* ===== verification/Forwarding_Properties.thy ===== *)
theory Forwarding_Properties
  imports Demo_Network Npt
begin

text \<open>
  Properties of the path from the routing table to the forwarder: what a FIB update leaves
  in the table, on the agenda and in the commands to the forwarder, and how the FIB follows
  the name prefix table.
\<close>

definition demo_hops :: nexthop_list where
  "demo_hops = [\<lparr>nh_faceUri = ''udp4://c'', nh_cost = 30, nh_hyperbolic = False\<rparr>,
     \<lparr>nh_faceUri = ''udp4://b'', nh_cost = 20, nh_hyperbolic = False\<rparr>]"

definition demo_io :: io where
  "demo_io = \<lparr>io_system_now = 0, io_steady_now = 0, io_next_id = 0, io_pending = [], io_out = []\<rparr>"

lemma demo_tables_ok: "tables_ok c [] fib_empty demo_io"
  by (simp add: tables_ok_def npt_wf_def fib_wf_def fib_timers_ok_def agenda_ok_def fib_npt_ok_def
      fib_find_def fib_empty_def demo_io_def)

lemma demo_hops_installed: "hopsToInstall (demo_conf\<lparr>cf_maxFacesPerPrefix := 2\<rparr>) demo_hops \<noteq> []"
  by (simp add: hopsToInstall_def Let_def getNumberOfFacesForName_def demo_hops_def)

lemma fib_wf_entry: "fib_wf c f \<Longrightarrow> fib_find n f = Some e \<Longrightarrow> entry_wf c e"
  by (auto simp: fib_wf_def fib_find_def list_all_iff dest: find_SomeD)



text \<open>C22: The agenda of the scheduler holds exactly one expiration for every FIB entry, the one the
  entry remembers; updates and removals keep this and touch no other timer.\<close>

theorem fib_one_timer:
  assumes "fib_timers_ok f s" and "fib_wf c f"
  shows "(\<forall>f' s'. fib_update L c adl n hs (f, s) = (f', s') \<longrightarrow>
      fib_timers_ok f' s' \<and> other_events s' = other_events s) \<and>
    (\<forall>f' s'. fib_remove adl n (f, s) = (f', s') \<longrightarrow>
      fib_timers_ok f' s' \<and> other_events s' = other_events s)"
proof (intro conjI allI impI)
  fix f' s' assume u: "fib_update L c adl n hs (f, s) = (f', s')"
  show "fib_timers_ok f' s'" by (rule fib_timers_ok_update [OF assms u])
  show "other_events s' = other_events s"
    using other_events_update [OF assms, of L adl n hs] u by simp
next
  fix f' s' assume r: "fib_remove adl n (f, s) = (f', s')"
  show "fib_timers_ok f' s'" by (rule fib_timers_ok_remove [OF assms r])
  show "other_events s' = other_events s"
    using other_events_remove [OF assms(1), of adl n] r by simp
qed

lemma fib_one_timer_witness:
  "case fib_update demo_lib demo_conf demo_adl rc demo_hops (fib_empty, demo_io) of
     (f, s) \<Rightarrow> fib_timers_ok f s \<and> other_events s = []"
proof -
  have ok: "fib_timers_ok fib_empty demo_io" "fib_wf demo_conf fib_empty"
    using demo_tables_ok [of demo_conf] by (simp_all add: tables_ok_def)
  have none: "other_events demo_io = []"
    by (simp add: other_events_def events_def demo_io_def)
  show ?thesis
    using conjunct1 [OF fib_one_timer [OF ok, of demo_lib demo_adl rc demo_hops]]
    unfolding none by blast
qed

text \<open>C31: A FIB update registers every installed hop whose face is known with the forwarder, with
  its cost, and then unregisters the faces that the entry loses; it sends nothing for the name
  of a neighbor.\<close>

theorem fib_update_commands:
  assumes "hopsToInstall c hs \<noteq> []"
  shows "io_out (snd (fib_update L c adl n hs (f, s))) = io_out s @
    (if isNeighbor n adl then []
     else map (registration L adl f n)
            (filter (\<lambda>h. adl_getFaceId (nh_faceUri h) adl \<noteq> 0) (hopsToInstall c hs)) @
       unregistrations adl f n
         (filter (\<lambda>h. nh_faceUri h \<notin> nh_faceUri ` set (hopsToInstall c hs))
           (nhl_sort (fold addNextHop (hopsToInstall c hs) (old_hops n f)))))"
  using out_fib_update [OF assms] by (simp add: isPrefixUpdatable_def unregistrations_def)

lemma fib_update_commands_witness:
  "io_out (snd (fib_update demo_lib (demo_conf\<lparr>cf_maxFacesPerPrefix := 2\<rparr>) demo_adl rb demo_hops
     (fib_empty, demo_io))) = []"
  using fib_update_commands [OF demo_hops_installed, of demo_lib demo_adl rb fib_empty demo_io]
  by (simp add: demo_io_def isNeighbor_def adl_find_def demo_adl_def demo_link_def)

text \<open>A registration that the forwarder refuses every time is sent again three times and then
  given up, and so is the choice of a strategy.\<close>

lemma refusals_bounded:
  "(\<exists>t. refused_registrations 4 adl p uri 0 s = Some (if adl_getFaceId uri adl = 0 then 0 else 3, t)) \<and>
   (\<exists>t. refused_strategies 4 n strategy 0 s = Some (3, t))"
  using refused_registrations_three refused_strategies_three by blast





text \<open>The hops of a prefix offer every face that one of its origins offers, once, at the lowest
  cost among the origins, cheapest first.\<close>

theorem prefix_hops:
  "nhl_sorted (all_hops rs) \<and> nhl_wf (all_hops rs) \<and>
   nhl_cost (all_hops rs) u = (if \<exists>r\<in>set rs. u \<in> nh_faceUri ` set (rte_hops r)
     then Some (Min (nh_cost ` {h. (\<exists>r\<in>set rs. h \<in> set (rte_hops r)) \<and> nh_faceUri h = u})) else None) \<and>
   npe_hops (npe_sort (generateNhlfromRteList (e\<lparr>npe_rteList := rs\<rparr>))) = all_hops rs"
  using all_hops_wf [of rs] all_hops_cost [of rs u] regenerate [of "e\<lparr>npe_rteList := rs\<rparr>"] by simp

lemma prefix_hops_witness:
  "nhl_cost (all_hops [\<lparr>rte_destination = rb, rte_hops = demo_hops\<rparr>]) ''udp4://b'' = Some 20"
proof -
  have "{h. h \<in> set demo_hops \<and> nh_faceUri h = ''udp4://b''} = {demo_hops ! 1}"
    by (auto simp: demo_hops_def)
  then show ?thesis
    using prefix_hops [of "[\<lparr>rte_destination = rb, rte_hops = demo_hops\<rparr>]" "''udp4://b''" "npt_entry_named rb"]
    by (simp add: image_iff) (auto simp: demo_hops_def)
qed

end
