(* ===== verification/Sync_Digest.thy ===== *)
theory Sync_Digest
  imports Runtime "HOL-Library.Char_ord" "HOL-Library.List_Lexorder"
begin

unbundle bit_operations_syntax

text \<open>
  The sync protocol's messages (src/nsync/sync-state.proto), the library functions it uses,
  and \<open>Digest\<close> (src/nsync/sync-digest.h, sync-digest.cc): a hash that is computed in steps,
  compared, and written to and read from the hexadecimal form in a name.
\<close>

section \<open>Messages\<close>

datatype action_type = ACTION_UPDATE | ACTION_DELETE | ACTION_OTHER

text \<open>\<open>ss_seqno\<close>: the session and the number.\<close>

record sync_state_msg_item =
  ss_name :: string
  ss_type :: action_type
  ss_seqno :: "(64 word \<times> 64 word) option"

type_synonym sync_state_msg = "sync_state_msg_item list"

section \<open>Library functions\<close>

text \<open>
  \<open>sy_hash\<close> is the hash function of OpenSSL, \<open>sy_raw64\<close> the bytes of an integer in the memory
  of the host and \<open>sy_unraw64\<close> the integer at the start of some bytes. \<open>sy_uniform lo hi\<close> draws
  a number with the random generator, whose state is a number. \<open>sy_serialize\<close> and \<open>sy_parse\<close>
  are the generated functions for messages. \<open>sy_begin\<close> is the position of the element that an
  unordered container of some elements gives first.
\<close>

record sync_lib =
  sy_hash :: "bytes \<Rightarrow> bytes"
  sy_raw64 :: "64 word \<Rightarrow> bytes"
  sy_unraw64 :: "bytes \<Rightarrow> 64 word"
  sy_uniform :: "nat \<Rightarrow> nat \<Rightarrow> nat \<Rightarrow> nat \<times> nat"
  sy_serialize :: "sync_state_msg \<Rightarrow> string"
  sy_parse :: "string \<Rightarrow> sync_state_msg option"
  sy_begin :: "string list \<Rightarrow> nat"

definition hash_ok :: "sync_lib \<Rightarrow> bool" where
  "hash_ok S \<longleftrightarrow> (\<forall>bs. length (sy_hash S bs) = 32)"

definition messages_ok :: "sync_lib \<Rightarrow> bool" where
  "messages_ok S \<longleftrightarrow> (\<forall>m. sy_parse S (sy_serialize S m) = Some m)"

definition random_ok :: "sync_lib \<Rightarrow> bool" where
  "random_ok S \<longleftrightarrow> (\<forall>lo hi g. lo \<le> hi \<longrightarrow> lo \<le> fst (sy_uniform S lo hi g) \<and> fst (sy_uniform S lo hi g) \<le> hi)"

text \<open>
  What ends a function early: the exceptions of the protocol, one of the application's
  callbacks, an assertion that fails, a name that the library rejects, and a loop that does not
  end.
\<close>

datatype 'e sync_exn =
    DigestCalculationError
  | SyncStateMsgDecodingFailure
  | InterestTableIsEmpty
  | Callback 'e
  | AssertionFailed
  | NameRejected
  | Endless

section \<open>Digests\<close>

text \<open>The bytes given to the hash function so far, and the result, empty until it is final.\<close>

record digest =
  dg_context :: bytes
  dg_buffer :: bytes

definition digest_new :: digest where
  "digest_new = \<lparr>dg_context = [], dg_buffer = []\<rparr>"

definition digest_empty :: "digest \<Rightarrow> bool" where
  "digest_empty d \<longleftrightarrow> dg_buffer d = []"

definition digest_reset :: "digest \<Rightarrow> digest" where
  "digest_reset d = d\<lparr>dg_context := [], dg_buffer := []\<rparr>"

definition digest_isZero :: "digest \<Rightarrow> 'e sync_exn + bool" where
  "digest_isZero d =
     (if dg_buffer d = [] then Inl DigestCalculationError
      else Inr (length (dg_buffer d) = 1 \<and> dg_buffer d ! 0 = 0))"

definition digest_finalize :: "sync_lib \<Rightarrow> digest \<Rightarrow> digest" where
  "digest_finalize S d = (if dg_buffer d \<noteq> [] then d else d\<lparr>dg_buffer := sy_hash S (dg_context d)\<rparr>)"

definition digest_getHash :: "sync_lib \<Rightarrow> digest \<Rightarrow> 'e sync_exn + 64 word" where
  "digest_getHash S d = and_then (digest_isZero d) (\<lambda>zero.
     if zero then Inr 0
     else if 8 > length (dg_buffer d) then Inl DigestCalculationError
     else Inr (sy_unraw64 S (take 8 (dg_buffer d))))"

definition digest_eq :: "digest \<Rightarrow> digest \<Rightarrow> 'e sync_exn + bool" where
  "digest_eq a b =
     (if dg_buffer a = [] then Inl DigestCalculationError
      else if dg_buffer b = [] then Inl DigestCalculationError
      else Inr (dg_buffer a = dg_buffer b))"

definition digest_update :: "bytes \<Rightarrow> digest \<Rightarrow> 'e sync_exn + digest" where
  "digest_update bs d =
     (if dg_buffer d \<noteq> [] then Inl DigestCalculationError
      else Inr (d\<lparr>dg_context := dg_context d @ bs\<rparr>))"

definition digest_addDigest :: "digest \<Rightarrow> digest \<Rightarrow> 'e sync_exn + digest" where
  "digest_addDigest src d =
     (if dg_buffer src = [] then Inl DigestCalculationError else digest_update (dg_buffer src) d)"

definition digest_addString :: "string \<Rightarrow> digest \<Rightarrow> 'e sync_exn + digest" where
  "digest_addString s = digest_update (bytes_of s)"

definition digest_addU64 :: "sync_lib \<Rightarrow> 64 word \<Rightarrow> digest \<Rightarrow> 'e sync_exn + digest" where
  "digest_addU64 S w = digest_update (sy_raw64 S w)"

text \<open>What was fed to a new digest and then made final.\<close>

definition digest_of :: "sync_lib \<Rightarrow> bytes \<Rightarrow> digest" where
  "digest_of S bs = digest_finalize S (digest_new\<lparr>dg_context := bs\<rparr>)"

section \<open>The hexadecimal form\<close>

definition hex_lookup :: string where
  "hex_lookup = ''0123456789abcdef''"

definition hex_from_4_bit :: "8 word \<Rightarrow> char" where
  "hex_from_4_bit w = hex_lookup ! unat w"

definition string_from_binary :: "bytes \<Rightarrow> string" where
  "string_from_binary bs = concat (map (\<lambda>b. [hex_from_4_bit (drop_bit 4 b), hex_from_4_bit (b AND 15)]) bs)"

text \<open>The table has eight rows of 16 entries.\<close>

definition hex_table :: "int list" where
  "hex_table = replicate 48 (-1) @ [0, 1, 2, 3, 4, 5, 6, 7, 8, 9] @ replicate 6 (-1) @
     [-1, 10, 11, 12, 13, 14, 15] @ replicate 9 (-1) @ replicate 16 (-1) @
     [-1, 10, 11, 12, 13, 14, 15] @ replicate 9 (-1) @ replicate 16 (-1)"

definition hex_to_4_bit :: "char \<Rightarrow> 'e sync_exn + 8 word" where
  "hex_to_4_bit c =
     (let ch = of_char c :: nat in
      if ch < 128 \<and> hex_table ! ch \<noteq> -1 then Inr (word_of_int (hex_table ! ch)) else Inl DigestCalculationError)"

text \<open>After an odd number of characters the terminating null, which is no digit, is read.\<close>

fun string_to_binary :: "string \<Rightarrow> 'e sync_exn + bytes" where
  "string_to_binary [] = Inr []"
| "string_to_binary [c] = and_then (hex_to_4_bit c) (\<lambda>_. Inl DigestCalculationError)"
| "string_to_binary (c # d # cs) =
     and_then (hex_to_4_bit c) (\<lambda>x. and_then (hex_to_4_bit d) (\<lambda>y.
     and_then (string_to_binary cs) (\<lambda>bs. Inr ((push_bit 4 x OR y) # bs))))"

definition digest_print :: "digest \<Rightarrow> 'e sync_exn + string" where
  "digest_print d = (if dg_buffer d = [] then Inl AssertionFailed else Inr (string_from_binary (dg_buffer d)))"

definition white_space :: "char \<Rightarrow> bool" where
  "white_space c \<longleftrightarrow> of_char c \<in> {9 :: nat, 10, 11, 12, 13, 32}"

definition digest_read :: "string \<Rightarrow> digest \<Rightarrow> 'e sync_exn + digest" where
  "digest_read is d =
     (let str = takeWhile (\<lambda>c. \<not> white_space c) (dropWhile white_space is) in
      if str = [] then Inl DigestCalculationError
      else if dg_buffer d \<noteq> [] then Inl DigestCalculationError
      else and_then (string_to_binary str) (\<lambda>bs. Inr (d\<lparr>dg_buffer := bs\<rparr>)))"

section \<open>Lemmas\<close>

lemma digest_of_simps [simp]: "dg_buffer (digest_of S bs) = sy_hash S bs"
  by (simp add: digest_of_def digest_finalize_def digest_new_def)

text \<open>A new digest accepts everything; the order of what it is fed with is kept.\<close>

lemma digest_feed:
  "dg_buffer d = [] \<Longrightarrow> digest_update bs d = Inr (d\<lparr>dg_context := dg_context d @ bs\<rparr>)"
  "dg_buffer src \<noteq> [] \<Longrightarrow> dg_buffer d = [] \<Longrightarrow>
     digest_addDigest src d = Inr (d\<lparr>dg_context := dg_context d @ dg_buffer src\<rparr>)"
  "dg_buffer d \<noteq> [] \<Longrightarrow> digest_update bs d = Inl DigestCalculationError"
  by (simp_all add: digest_update_def digest_addDigest_def)

definition hex_digit :: "char \<Rightarrow> bool" where
  "hex_digit c \<longleftrightarrow> c \<in> set hex_lookup"

lemma hex_digit_cases:
  "n < 16 \<Longrightarrow> (hex_to_4_bit (hex_lookup ! n) :: 'e sync_exn + 8 word) = Inr (of_nat n) \<and>
     \<not> white_space (hex_lookup ! n)"
proof -
  have "\<forall>n\<in>set [0..<16]. (hex_to_4_bit (hex_lookup ! n) :: 'e sync_exn + 8 word) = Inr (of_nat n) \<and> \<not> white_space (hex_lookup ! n)"
    by (simp add: upt_rec hex_lookup_def hex_to_4_bit_def hex_table_def white_space_def numeral_nat)
  then show "n < 16 \<Longrightarrow> ?thesis" by simp
qed

lemma nibbles:
  fixes b :: "8 word"
  shows "unat (drop_bit 4 b) < 16" and "unat (b AND 15) < 16" and "push_bit 4 (drop_bit 4 b) OR (b AND 15) = b"
proof -
  have "unat b < 2 ^ 8" using unsigned_less [of b] by simp
  moreover from this have "unat (drop_bit 4 b) = unat b div 16"
    using unsigned_drop_bit_eq [of 4 b, where 'a = nat] by (simp add: drop_bit_nat_def take_bit_nat_eq_self)
  ultimately show "unat (drop_bit 4 b) < 16" by simp
  have "b AND 15 = take_bit 4 b" by (simp add: take_bit_eq_mask mask_eq_exp_minus_1)
  moreover have "unat (take_bit 4 b) < 16"
    using take_bit_nat_less_exp [of 4 "unat b"] by (simp add: unsigned_take_bit_eq)
  moreover have "push_bit 4 (drop_bit 4 b) OR take_bit 4 b = b"
    by (rule bit_eqI) (auto simp: bit_or_iff bit_push_bit_iff bit_drop_bit_eq bit_take_bit_iff)
  ultimately show "unat (b AND 15) < 16" "push_bit 4 (drop_bit 4 b) OR (b AND 15) = b"
    by simp_all
qed

lemma string_round: "string_to_binary (string_from_binary bs) = Inr bs"
  "\<forall>c\<in>set (string_from_binary bs). \<not> white_space c"
  by (induction bs) (simp_all add: string_from_binary_def hex_from_4_bit_def hex_digit_cases nibbles)

lemma digest_round:
  assumes "dg_buffer d \<noteq> []" and "digest_print d = Inr s" and "dg_buffer e = []"
  shows "digest_read s e = Inr (e\<lparr>dg_buffer := dg_buffer d\<rparr>)"
proof -
  have s: "s = string_from_binary (dg_buffer d)" using assms(1,2) by (simp add: digest_print_def)
  then have ws: "\<forall>c\<in>set s. \<not> white_space c" and "s \<noteq> []"
    using string_round(2) assms(1) by (auto simp: string_from_binary_def neq_Nil_conv)
  then have "dropWhile white_space s = s" by (cases s) auto
  then have "takeWhile (\<lambda>c. \<not> white_space c) (dropWhile white_space s) = s"
    using ws by (simp add: takeWhile_eq_all_conv)
  then show ?thesis using \<open>s \<noteq> []\<close> assms(3) by (simp add: digest_read_def Let_def s string_round(1))
qed

end
