(* ===== verification/Sync_State.thy ===== *)
theory Sync_State
  imports Sync_Digest
begin

text \<open>
  The data of the sync protocol (src/nsync): sequence numbers (sync-seq-no), leaves
  (sync-leaf, sync-full-leaf, sync-diff-leaf), the container of leaves
  (sync-state-leaf-container), the full state with its root digest (sync-full-state), the
  difference between two states (sync-diff-state) and both as messages (sync-state). A name is
  a string, as in \<open>StdNameInfo\<close>; that equal names share one object cannot be seen.
\<close>

section \<open>Sequence numbers\<close>

record seqno =
  sn_valid :: bool
  sn_session :: "64 word"
  sn_seq :: "64 word"

definition seqno_none :: seqno where
  "seqno_none = \<lparr>sn_valid = False, sn_session = 0, sn_seq = 0\<rparr>"

definition seqno_of :: "64 word \<Rightarrow> seqno" where
  "seqno_of q = \<lparr>sn_valid = True, sn_session = 0, sn_seq = q\<rparr>"

definition seqno :: "64 word \<Rightarrow> 64 word \<Rightarrow> seqno" where
  "seqno session q = \<lparr>sn_valid = True, sn_session = session, sn_seq = q\<rparr>"

definition seqno_getDigest :: "sync_lib \<Rightarrow> seqno \<Rightarrow> digest" where
  "seqno_getDigest S s = digest_of S (sy_raw64 S (sn_session s) @ sy_raw64 S (sn_seq s))"

definition seqno_less :: "seqno \<Rightarrow> seqno \<Rightarrow> bool" where
  "seqno_less a b \<longleftrightarrow> sn_session a < sn_session b \<or> (sn_session a = sn_session b \<and> sn_seq a < sn_seq b)"

definition seqno_eq :: "seqno \<Rightarrow> seqno \<Rightarrow> bool" where
  "seqno_eq a b \<longleftrightarrow> sn_session a = sn_session b \<and> sn_seq a = sn_seq b"

definition seqno_le :: "seqno \<Rightarrow> seqno \<Rightarrow> bool" where
  "seqno_le a b \<longleftrightarrow> sn_session a = sn_session b \<and> sn_seq a \<le> sn_seq b"

definition seqno_incr :: "seqno \<Rightarrow> seqno" where
  "seqno_incr s = (if sn_valid s then s\<lparr>sn_seq := sn_seq s + 1\<rparr> else s\<lparr>sn_valid := True\<rparr>)"

definition seqno_setSeq :: "64 word \<Rightarrow> seqno \<Rightarrow> seqno" where
  "seqno_setSeq q s = s\<lparr>sn_seq := q\<rparr>"

text \<open>\<open>std::max\<close>\<close>

definition seqno_max :: "seqno \<Rightarrow> seqno \<Rightarrow> seqno" where
  "seqno_max a b = (if seqno_less a b then b else a)"

section \<open>Leaves\<close>

text \<open>\<open>StdNameInfo\<close> (src/nsync/sync-std-name-info.cc): the digest of a name.\<close>

definition info_getDigest :: "sync_lib \<Rightarrow> string \<Rightarrow> digest" where
  "info_getDigest S name = digest_of S (bytes_of name)"

record leaf =
  lf_info :: string
  lf_seq :: seqno

record full_leaf = leaf +
  fl_digest :: digest

datatype operation = UPDATE | REMOVE

record diff_leaf = leaf +
  dl_op :: operation

definition leaf_setSeq :: "seqno \<Rightarrow> 'z leaf_scheme \<Rightarrow> 'z leaf_scheme" where
  "leaf_setSeq s l = l\<lparr>lf_seq := seqno_max (lf_seq l) s\<rparr>"

definition leaf_updateDigest :: "sync_lib \<Rightarrow> full_leaf \<Rightarrow> full_leaf" where
  "leaf_updateDigest S l = l\<lparr>fl_digest := digest_of S
     (dg_buffer (info_getDigest S (lf_info l)) @ dg_buffer (seqno_getDigest S (lf_seq l)))\<rparr>"

definition full_leaf_new :: "sync_lib \<Rightarrow> string \<Rightarrow> seqno \<Rightarrow> full_leaf" where
  "full_leaf_new S info s =
     leaf_updateDigest S \<lparr>lf_info = info, lf_seq = s, fl_digest = digest_new\<rparr>"

definition full_leaf_setSeq :: "sync_lib \<Rightarrow> seqno \<Rightarrow> full_leaf \<Rightarrow> full_leaf" where
  "full_leaf_setSeq S s l = leaf_updateDigest S (leaf_setSeq s l)"

definition diff_leaf_update :: "string \<Rightarrow> seqno \<Rightarrow> diff_leaf" where
  "diff_leaf_update info s = \<lparr>lf_info = info, lf_seq = s, dl_op = UPDATE\<rparr>"

definition diff_leaf_remove :: "string \<Rightarrow> diff_leaf" where
  "diff_leaf_remove info = \<lparr>lf_info = info, lf_seq = seqno 0 0, dl_op = REMOVE\<rparr>"

definition print_operation :: "operation \<Rightarrow> string" where
  "print_operation p = (case p of UPDATE \<Rightarrow> ''update'' | REMOVE \<Rightarrow> ''remove'')"

text \<open>\<open>None\<close>: the exception \<open>SyncDiffLeafOperationParseError\<close>.\<close>

definition parse_operation :: "string \<Rightarrow> operation option" where
  "parse_operation s = (if s = ''update'' then Some UPDATE else if s = ''remove'' then Some REMOVE else None)"

section \<open>The container of leaves\<close>

text \<open>
  The list is in the order of the \<open>ordered\<close> index; names are unique, so that a leaf whose name
  is already there is not inserted.
\<close>

definition leaf_find :: "string \<Rightarrow> 'z leaf_scheme list \<Rightarrow> 'z leaf_scheme option" where
  "leaf_find n l = by_key lf_info n l"

definition leaf_insert :: "'z leaf_scheme \<Rightarrow> 'z leaf_scheme list \<Rightarrow> 'z leaf_scheme list" where
  "leaf_insert x l = (case leaf_find (lf_info x) l of None \<Rightarrow> insort_key lf_info x l | Some _ \<Rightarrow> l)"

definition leaf_erase :: "string \<Rightarrow> 'z leaf_scheme list \<Rightarrow> 'z leaf_scheme list" where
  "leaf_erase n l = filter (\<lambda>x. lf_info x \<noteq> n) l"

section \<open>The full state\<close>

record full_state =
  fs_leaves :: "full_leaf list"
  fs_digest :: "digest option"
  fs_lastUpdated :: time_point

definition full_state_new :: full_state where
  "full_state_new = \<lparr>fs_leaves = [], fs_digest = None, fs_lastUpdated = 0\<rparr>"

definition getTimeFromLastUpdate :: "time_point \<Rightarrow> full_state \<Rightarrow> int" where
  "getTimeFromLastUpdate now fs = now - fs_lastUpdated fs"

text \<open>The digest of no leaves is read from the text 00.\<close>

definition compute_digest :: "sync_lib \<Rightarrow> full_leaf list \<Rightarrow> digest" where
  "compute_digest S ls =
     (if length ls > 0 then digest_of S (concat (map (\<lambda>l. dg_buffer (fl_digest l)) ls))
      else \<lparr>dg_context = [], dg_buffer = [0]\<rparr>)"

definition full_getDigest :: "sync_lib \<Rightarrow> full_state \<Rightarrow> digest \<times> full_state" where
  "full_getDigest S fs = (case fs_digest fs of
       Some d \<Rightarrow> (d, fs)
     | None \<Rightarrow> let d = compute_digest S (fs_leaves fs) in (d, fs\<lparr>fs_digest := Some d\<rparr>))"

definition full_update :: "sync_lib \<Rightarrow> time_point \<Rightarrow> string \<Rightarrow> seqno \<Rightarrow> full_state \<Rightarrow> (bool \<times> bool \<times> seqno) \<times> full_state" where
  "full_update S now info s fs =
     (let fs = fs\<lparr>fs_lastUpdated := now, fs_digest := None\<rparr> in
      case leaf_find info (fs_leaves fs) of
        None \<Rightarrow> ((True, False, seqno_none), fs\<lparr>fs_leaves := leaf_insert (full_leaf_new S info s) (fs_leaves fs)\<rparr>)
      | Some item \<Rightarrow>
          if seqno_eq (lf_seq item) s \<or> seqno_less s (lf_seq item) then ((False, False, seqno_none), fs)
          else ((False, True, lf_seq item),
                fs\<lparr>fs_leaves := update_first (\<lambda>x. lf_info x = info) (full_leaf_setSeq S s) (fs_leaves fs)\<rparr>))"

definition full_remove :: "time_point \<Rightarrow> string \<Rightarrow> full_state \<Rightarrow> bool \<times> full_state" where
  "full_remove now info fs =
     (let fs = fs\<lparr>fs_lastUpdated := now, fs_digest := None\<rparr> in
      case leaf_find info (fs_leaves fs) of
        Some _ \<Rightarrow> (True, fs\<lparr>fs_leaves := leaf_erase info (fs_leaves fs)\<rparr>)
      | None \<Rightarrow> (False, fs))"

section \<open>Differences\<close>

text \<open>
  A difference that is in the log is an object others point to; \<open>ds_next\<close> is the address of the
  next one in the list of these objects.
\<close>

record diff_state =
  ds_leaves :: "diff_leaf list"
  ds_next :: "nat option"
  ds_digest :: "digest option"

definition diff_state_new :: diff_state where
  "diff_state_new = \<lparr>ds_leaves = [], ds_next = None, ds_digest = None\<rparr>"

definition diff_update :: "string \<Rightarrow> seqno \<Rightarrow> diff_state \<Rightarrow> diff_state" where
  "diff_update info s d =
     (let d = d\<lparr>ds_leaves := leaf_erase info (ds_leaves d)\<rparr>
      in d\<lparr>ds_leaves := leaf_insert (diff_leaf_update info s) (ds_leaves d)\<rparr>)"

definition diff_remove :: "string \<Rightarrow> diff_state \<Rightarrow> diff_state" where
  "diff_remove info d =
     (let d = d\<lparr>ds_leaves := leaf_erase info (ds_leaves d)\<rparr>
      in d\<lparr>ds_leaves := leaf_insert (diff_leaf_remove info) (ds_leaves d)\<rparr>)"

text \<open>The order of the leaves in a sum does not matter: their names differ.\<close>

definition diff_add :: "diff_state \<Rightarrow> diff_state \<Rightarrow> diff_state" where
  "diff_add d e = fold (\<lambda>l d. case dl_op l of
       UPDATE \<Rightarrow> diff_update (lf_info l) (lf_seq l) d
     | REMOVE \<Rightarrow> diff_remove (lf_info l) d) (ds_leaves e) d"

text \<open>The walk along the pointers; \<open>None\<close> is a cycle or a pointer to nothing.\<close>

partial_function (option) diff_walk :: "diff_state list \<Rightarrow> nat option \<Rightarrow> diff_state \<Rightarrow> diff_state option" where
  "diff_walk objs st ret = (case st of
       None \<Rightarrow> Some ret
     | Some a \<Rightarrow>
         if a < length objs then diff_walk objs (ds_next (objs ! a)) (diff_add ret (objs ! a)) else None)"

declare diff_walk.simps [code]

definition diff_diff :: "diff_state list \<Rightarrow> diff_state \<Rightarrow> diff_state option" where
  "diff_diff objs d = diff_walk objs (ds_next d) diff_state_new"

section \<open>Messages\<close>

definition item_of_update :: "string \<Rightarrow> seqno \<Rightarrow> sync_state_msg_item" where
  "item_of_update info s = \<lparr>ss_name = info, ss_type = ACTION_UPDATE, ss_seqno = Some (sn_session s, sn_seq s)\<rparr>"

definition full_message :: "full_state \<Rightarrow> sync_state_msg" where
  "full_message fs = map (\<lambda>l. item_of_update (lf_info l) (lf_seq l)) (fs_leaves fs)"

definition diff_message :: "diff_state \<Rightarrow> sync_state_msg" where
  "diff_message d = map (\<lambda>l. case dl_op l of
       UPDATE \<Rightarrow> item_of_update (lf_info l) (lf_seq l)
     | REMOVE \<Rightarrow> \<lparr>ss_name = lf_info l, ss_type = ACTION_DELETE, ss_seqno = None\<rparr>) (ds_leaves d)"

text \<open>A message without number has the default numbers, which are 0.\<close>

definition read_message :: "sync_state_msg \<Rightarrow> diff_state \<Rightarrow> diff_state" where
  "read_message m d = fold (\<lambda>i d.
     if ss_type i = ACTION_UPDATE then
       (case ss_seqno i of
          Some (session, q) \<Rightarrow> diff_update (ss_name i) (seqno session q) d
        | None \<Rightarrow> diff_update (ss_name i) (seqno 0 0) d)
     else diff_remove (ss_name i) d) m d"

end
