(* ===== verification/Sync_Content.thy ===== *)
theory Sync_Content
  imports Sync_State "HOL-Library.Product_Lexorder"
begin

text \<open>
  What the states of the sync protocol stand for: a full state for a map from names to the
  session and number, a difference for a map from names to a new value or to a removal. The
  locale \<open>sync_store\<close> is the interface \<open>State\<close> of src/nsync/sync-state.h.
\<close>

section \<open>Sequence numbers as pairs\<close>

definition pair_of :: "seqno \<Rightarrow> 64 word \<times> 64 word" where
  "pair_of s = (sn_session s, sn_seq s)"

lemma seqno_order:
  "seqno_less a b \<longleftrightarrow> pair_of a < pair_of b" "seqno_eq a b \<longleftrightarrow> pair_of a = pair_of b"
  "pair_of (seqno_max a b) = max (pair_of a) (pair_of b)"
  by (auto simp: seqno_less_def seqno_eq_def pair_of_def seqno_max_def less_prod_def max_def less_eq_prod_def)

lemma pair_of_seqno [simp]: "pair_of (seqno x q) = (x, q)"
  by (simp add: pair_of_def seqno_def)

section \<open>The container\<close>

definition leaves_wf :: "'z leaf_scheme list \<Rightarrow> bool" where
  "leaves_wf l \<longleftrightarrow> sorted (map lf_info l) \<and> distinct (map lf_info l)"

lemma leaves_wf_Nil [simp]: "leaves_wf []"
  by (simp add: leaves_wf_def)

lemma distinct_insort_names:
  "distinct (map f (insort_key f x l)) \<longleftrightarrow> f x \<notin> f ` set l \<and> distinct (map f l)"
  by (induction l) (auto simp: set_insort_key)

lemma leaves_wf_insert [simp]:
  assumes "leaves_wf l"
  shows "leaves_wf (leaf_insert x l)"
proof (cases "leaf_find (lf_info x) l")
  case None
  then have "lf_info x \<notin> lf_info ` set l" by (simp add: leaf_find_def by_key_None)
  then show ?thesis
    using assms None by (simp add: leaves_wf_def leaf_insert_def sorted_insort_key distinct_insort_names)
qed (simp add: assms leaf_insert_def)

lemma leaves_wf_erase [simp]: "leaves_wf l \<Longrightarrow> leaves_wf (leaf_erase n l)"
  by (simp add: leaves_wf_def leaf_erase_def sorted_filter distinct_map_filter)

lemma leaves_wf_change [simp]:
  "leaves_wf l \<Longrightarrow> (\<And>x. lf_info (f x) = lf_info x) \<Longrightarrow> leaves_wf (update_first P f l)"
  by (simp add: leaves_wf_def map_update_first_same)

lemma leaf_find_iff: "leaves_wf l \<Longrightarrow> leaf_find n l = Some x \<longleftrightarrow> x \<in> set l \<and> lf_info x = n"
  by (simp add: leaves_wf_def leaf_find_def by_key_iff)

lemma leaf_find_None: "leaf_find n l = None \<longleftrightarrow> n \<notin> lf_info ` set l"
  by (simp add: leaf_find_def by_key_None)

lemma leaf_find_insert:
  assumes "leaves_wf l"
  shows "leaf_find n (leaf_insert x l) =
    (if n = lf_info x \<and> leaf_find n l = None then Some x else leaf_find n l)"
proof (cases "leaf_find (lf_info x) l")
  case None
  have wf: "leaves_wf (leaf_insert x l)" using assms by simp
  have set: "set (leaf_insert x l) = insert x (set l)"
    using None by (simp add: leaf_insert_def set_insort_key)
  show ?thesis
  proof (cases "leaf_find n (leaf_insert x l)")
    case new: None
    then have "n \<noteq> lf_info x" "leaf_find n l = None" by (auto simp: leaf_find_None set)
    with new show ?thesis by simp
  next
    case (Some y)
    then have y: "y = x \<and> lf_info x = n \<or> y \<in> set l \<and> lf_info y = n"
      using leaf_find_iff [OF wf] set by auto
    then show ?thesis
      using None Some leaf_find_iff [OF assms, of n y] by (auto simp: leaf_find_None)
  qed
qed (auto simp: leaf_insert_def)

lemma leaf_find_erase: "leaf_find n (leaf_erase k l) = (if n = k then None else leaf_find n l)"
  by (induction l) (auto simp: leaf_find_def leaf_erase_def)

text \<open>Two containers with the same leaves up to what \<open>f\<close> shows of them are equal up to \<open>f\<close>.\<close>

lemma leaves_determined:
  assumes "leaves_wf a" and "leaves_wf b"
    and same: "\<And>n. map_option f (leaf_find n a) = map_option f (leaf_find n b)"
  shows "map lf_info a = map lf_info b" and "map f a = map f b"
proof -
  have "lf_info ` set a = lf_info ` set b"
    using same leaf_find_None by (metis option.map_disc_iff subset_antisym subsetI)
  then have "set (map lf_info a) = set (map lf_info b)" by simp
  then show names: "map lf_info a = map lf_info b"
    using assms(1,2) unfolding leaves_wf_def by (meson sorted_distinct_set_unique)
  then have len: "length a = length b" by (metis length_map)
  show "map f a = map f b"
  proof (rule nth_equalityI)
    fix i assume "i < length (map f a)"
    then have i: "i < length a" "i < length b" using len by simp_all
    have n: "lf_info (a ! i) = lf_info (b ! i)" using names i by (metis nth_map)
    have "leaf_find (lf_info (a ! i)) a = Some (a ! i)" "leaf_find (lf_info (a ! i)) b = Some (b ! i)"
      using leaf_find_iff [OF assms(1)] leaf_find_iff [OF assms(2)] i n by auto
    with same [of "lf_info (a ! i)"] show "map f a ! i = map f b ! i" using i by simp
  qed (simp add: len)
qed

section \<open>States that are updated leaf by leaf\<close>

text \<open>The change that a leaf of a difference stands for.\<close>

definition apply_leaf :: "(string \<Rightarrow> seqno \<Rightarrow> 's \<Rightarrow> 's) \<Rightarrow> (string \<Rightarrow> 's \<Rightarrow> 's) \<Rightarrow> diff_leaf \<Rightarrow> 's \<Rightarrow> 's" where
  "apply_leaf upd rem l s = (case dl_op l of UPDATE \<Rightarrow> upd (lf_info l) (lf_seq l) s | REMOVE \<Rightarrow> rem (lf_info l) s)"

text \<open>The value of a name after the leaf for it, when the value was \<open>v\<close>.\<close>

definition changed :: "('v option \<Rightarrow> seqno \<Rightarrow> 'v) \<Rightarrow> 'v option \<Rightarrow> 'v option \<Rightarrow> diff_leaf option \<Rightarrow> 'v option" where
  "changed merge removed v found = (case found of
       None \<Rightarrow> v
     | Some l \<Rightarrow> (case dl_op l of UPDATE \<Rightarrow> Some (merge v (lf_seq l)) | REMOVE \<Rightarrow> removed))"

lemma changed_None [simp]: "changed merge removed v None = v"
  by (simp add: changed_def)

locale sync_store =
  fixes upd :: "string \<Rightarrow> seqno \<Rightarrow> 's \<Rightarrow> 's" and rem :: "string \<Rightarrow> 's \<Rightarrow> 's"
    and wf :: "'s \<Rightarrow> bool" and content :: "'s \<Rightarrow> string \<Rightarrow> 'v option"
    and merge :: "'v option \<Rightarrow> seqno \<Rightarrow> 'v" and removed :: "'v option"
  assumes wf_upd [simp]: "wf s \<Longrightarrow> wf (upd n q s)" and wf_rem [simp]: "wf s \<Longrightarrow> wf (rem n s)"
    and content_upd: "wf s \<Longrightarrow> content (upd n q s) = (content s)(n := Some (merge (content s n) q))"
    and content_rem: "wf s \<Longrightarrow> content (rem n s) = (content s)(n := removed)"
begin

lemma wf_apply: "wf s \<Longrightarrow> wf (apply_leaf upd rem l s)"
  by (simp add: apply_leaf_def split: operation.split)

lemma content_apply:
  "wf s \<Longrightarrow> content (apply_leaf upd rem l s) =
     (content s)(lf_info l := changed merge removed (content s (lf_info l)) (Some l))"
  by (simp add: apply_leaf_def changed_def content_upd content_rem split: operation.split)

lemma wf_fold: "wf s \<Longrightarrow> wf (fold (apply_leaf upd rem) ls s)"
  by (induction ls arbitrary: s) (simp_all add: wf_apply)

lemma content_fold:
  assumes "wf s" and "distinct (map lf_info ls)"
  shows "content (fold (apply_leaf upd rem) ls s) n = changed merge removed (content s n) (leaf_find n ls)"
  using assms
proof (induction ls arbitrary: s)
  case Nil
  then show ?case by (simp add: leaf_find_def)
next
  case (Cons l ls)
  have "n = lf_info l \<Longrightarrow> leaf_find n ls = None"
    using Cons.prems(2) by (auto simp: leaf_find_None)
  then show ?case
    using Cons.IH [OF wf_apply [OF Cons.prems(1), of l]] Cons.prems(2)
    by (auto simp: leaf_find_def content_apply [OF Cons.prems(1)])
qed

end

section \<open>The full state\<close>

definition leaves_content :: "'z leaf_scheme list \<Rightarrow> string \<Rightarrow> (64 word \<times> 64 word) option" where
  "leaves_content ls n = map_option (\<lambda>l. pair_of (lf_seq l)) (leaf_find n ls)"

text \<open>A full leaf carries its own digest, and a cached root digest is the one of the leaves.\<close>

definition full_wf :: "sync_lib \<Rightarrow> full_state \<Rightarrow> bool" where
  "full_wf S fs \<longleftrightarrow> leaves_wf (fs_leaves fs) \<and>
     (\<forall>l\<in>set (fs_leaves fs). l = leaf_updateDigest S l) \<and>
     (case fs_digest fs of None \<Rightarrow> True | Some d \<Rightarrow> d = compute_digest S (fs_leaves fs))"

definition newest :: "(64 word \<times> 64 word) option \<Rightarrow> seqno \<Rightarrow> 64 word \<times> 64 word" where
  "newest v q = (case v of None \<Rightarrow> pair_of q | Some w \<Rightarrow> max w (pair_of q))"

lemma leaf_updateDigest_simps [simp]:
  "lf_info (leaf_updateDigest S l) = lf_info l" "lf_seq (leaf_updateDigest S l) = lf_seq l"
  "leaf_updateDigest S (leaf_updateDigest S l) = leaf_updateDigest S l"
  by (simp_all add: leaf_updateDigest_def)

lemma full_leaf_simps [simp]:
  "lf_info (full_leaf_new S n q) = n" "lf_seq (full_leaf_new S n q) = q"
  "lf_info (full_leaf_setSeq S q l) = lf_info l" "lf_seq (full_leaf_setSeq S q l) = seqno_max (lf_seq l) q"
  "leaf_updateDigest S (full_leaf_new S n q) = full_leaf_new S n q"
  "leaf_updateDigest S (full_leaf_setSeq S q l) = full_leaf_setSeq S q l"
  by (simp_all add: full_leaf_new_def full_leaf_setSeq_def leaf_setSeq_def)

lemma full_wf_new [simp]: "full_wf S full_state_new"
  by (simp add: full_wf_def full_state_new_def)

lemma set_leaf_insert: "set (leaf_insert x l) \<subseteq> insert x (set l)"
  by (auto simp: leaf_insert_def set_insort_key split: option.split)

lemma full_wf_update [simp]:
  assumes "full_wf S fs"
  shows "full_wf S (snd (full_update S now n q fs))"
proof -
  have wf: "leaves_wf (fs_leaves fs)" "\<forall>l\<in>set (fs_leaves fs). l = leaf_updateDigest S l"
    using assms by (simp_all add: full_wf_def)
  have "\<forall>l\<in>set (leaf_insert (full_leaf_new S n q) (fs_leaves fs)). l = leaf_updateDigest S l"
    "\<forall>l\<in>set (update_first (\<lambda>x. lf_info x = n) (full_leaf_setSeq S q) (fs_leaves fs)). l = leaf_updateDigest S l"
    using wf(2) set_leaf_insert [of "full_leaf_new S n q"] set_update_first [of _ "full_leaf_setSeq S q"] by fastforce+
  then show ?thesis
    using wf by (auto simp: full_wf_def full_update_def Let_def split: option.split)
qed

lemma full_wf_remove [simp]: "full_wf S fs \<Longrightarrow> full_wf S (snd (full_remove now n fs))"
  by (auto simp: full_wf_def full_remove_def Let_def leaf_erase_def [abs_def] leaves_wf_erase [unfolded leaf_erase_def] split: option.split)

lemma content_full_update:
  assumes "full_wf S fs"
  shows "leaves_content (fs_leaves (snd (full_update S now n q fs))) =
    (leaves_content (fs_leaves fs))(n := Some (newest (leaves_content (fs_leaves fs) n) q))"
proof -
  have wf: "leaves_wf (fs_leaves fs)" using assms by (simp add: full_wf_def)
  show ?thesis
  proof (cases "leaf_find n (fs_leaves fs)")
    case None
    then have "leaf_find k (leaf_insert (full_leaf_new S n q) (fs_leaves fs)) =
        (if k = n then Some (full_leaf_new S n q) else leaf_find k (fs_leaves fs))" for k
      by (simp add: leaf_find_insert [OF wf])
    then show ?thesis
      using None by (simp add: fun_eq_iff full_update_def leaves_content_def newest_def)
  next
    case (Some item)
    have "leaf_find k (update_first (\<lambda>x. lf_info x = n) (full_leaf_setSeq S q) (fs_leaves fs)) =
        (if k = n then Some (full_leaf_setSeq S q item) else leaf_find k (fs_leaves fs))" for k
      using Some by (simp add: leaf_find_def by_key_update_first)
    then show ?thesis
      using Some by (auto simp: fun_eq_iff full_update_def Let_def leaves_content_def newest_def seqno_order max_def)
  qed
qed

lemma content_full_remove:
  "leaves_content (fs_leaves (snd (full_remove now n fs))) = (leaves_content (fs_leaves fs))(n := None)"
  by (auto simp: fun_eq_iff full_remove_def Let_def leaves_content_def leaf_find_erase split: option.split)

interpretation full: sync_store "\<lambda>n q fs. snd (full_update S now n q fs)" "\<lambda>n fs. snd (full_remove now n fs)"
  "full_wf S" "\<lambda>fs. leaves_content (fs_leaves fs)" newest None
  for S now
  by unfold_locales (simp_all add: content_full_update content_full_remove)

section \<open>Differences\<close>

definition diff_content :: "diff_state \<Rightarrow> string \<Rightarrow> (64 word \<times> 64 word) option option" where
  "diff_content d n = map_option (\<lambda>l. case dl_op l of UPDATE \<Rightarrow> Some (pair_of (lf_seq l)) | REMOVE \<Rightarrow> None)
     (leaf_find n (ds_leaves d))"

definition diff_wf :: "diff_state \<Rightarrow> bool" where
  "diff_wf d \<longleftrightarrow> leaves_wf (ds_leaves d)"

lemma diff_wf_ops [simp]:
  "diff_wf diff_state_new" "diff_wf d \<Longrightarrow> diff_wf (diff_update n q d)" "diff_wf d \<Longrightarrow> diff_wf (diff_remove n d)"
  by (simp_all add: diff_wf_def diff_state_new_def diff_update_def diff_remove_def)

lemma diff_content_new [simp]: "diff_content diff_state_new n = None"
  by (simp add: diff_content_def diff_state_new_def leaf_find_def)

lemma diff_content_ops:
  "diff_wf d \<Longrightarrow> diff_content (diff_update n q d) = (diff_content d)(n := Some (Some (pair_of q)))"
  "diff_wf d \<Longrightarrow> diff_content (diff_remove n d) = (diff_content d)(n := Some None)"
  by (auto simp: fun_eq_iff diff_content_def diff_update_def diff_remove_def diff_wf_def leaf_find_insert leaf_find_erase
      diff_leaf_update_def diff_leaf_remove_def)

interpretation diff: sync_store diff_update diff_remove diff_wf diff_content "\<lambda>_ q. Some (pair_of q)" "Some None"
  by unfold_locales (simp_all add: diff_content_ops)

lemma diff_add_fold: "diff_add d e = fold (apply_leaf diff_update diff_remove) (ds_leaves e) d"
  by (simp add: diff_add_def apply_leaf_def [abs_def])

lemma diff_add_content:
  assumes "diff_wf d" and "diff_wf e"
  shows "diff_content (diff_add d e) = diff_content d ++ diff_content e"
proof
  fix n
  show "diff_content (diff_add d e) n = (diff_content d ++ diff_content e) n"
    using diff.content_fold [OF assms(1), where ls = "ds_leaves e" and n = n] assms(2)
    by (auto simp: diff_add_fold diff_content_def [of e] diff_wf_def leaves_wf_def map_add_def changed_def split: option.split operation.split)
qed

lemma diff_add_wf [simp]: "diff_wf d \<Longrightarrow> diff_wf (diff_add d e)"
  by (simp add: diff_add_fold diff.wf_fold)

text \<open>What a difference makes of a full state.\<close>

definition change_of :: "(string \<Rightarrow> (64 word \<times> 64 word) option option) \<Rightarrow> (string \<Rightarrow> (64 word \<times> 64 word) option) \<Rightarrow>
    string \<Rightarrow> (64 word \<times> 64 word) option" where
  "change_of d m n = (case d n of
       None \<Rightarrow> m n
     | Some None \<Rightarrow> None
     | Some (Some v) \<Rightarrow> Some (case m n of None \<Rightarrow> v | Some w \<Rightarrow> max w v))"

lemma apply_diff:
  fixes now :: time_point
  assumes "full_wf S fs" and "diff_wf d"
  defines "fs' \<equiv> fold (apply_leaf (\<lambda>n q fs. snd (full_update S now n q fs)) (\<lambda>n fs. snd (full_remove now n fs))) (ds_leaves d) fs"
  shows "full_wf S fs'" and "leaves_content (fs_leaves fs') = change_of (diff_content d) (leaves_content (fs_leaves fs))"
proof -
  show "full_wf S fs'" unfolding fs'_def by (rule full.wf_fold [OF assms(1)])
  show "leaves_content (fs_leaves fs') = change_of (diff_content d) (leaves_content (fs_leaves fs))"
  proof
    fix n
    show "leaves_content (fs_leaves fs') n = change_of (diff_content d) (leaves_content (fs_leaves fs)) n"
      using full.content_fold [OF assms(1), where ls = "ds_leaves d" and n = n] assms(2)
      by (auto simp: fs'_def change_of_def changed_def diff_content_def diff_wf_def leaves_wf_def newest_def split: option.split operation.split)
  qed
qed

section \<open>Messages\<close>

text \<open>The leaves a difference can have: numbers are valid, removals carry zero.\<close>

definition diff_canonical :: "diff_state \<Rightarrow> bool" where
  "diff_canonical d \<longleftrightarrow> diff_wf d \<and> (\<forall>l\<in>set (ds_leaves d).
     l = (case dl_op l of UPDATE \<Rightarrow> diff_leaf_update (lf_info l) (seqno (sn_session (lf_seq l)) (sn_seq (lf_seq l)))
          | REMOVE \<Rightarrow> diff_leaf_remove (lf_info l)))"

lemma read_fold:
  "read_message m d = fold (apply_leaf diff_update diff_remove) (map (\<lambda>i.
     if ss_type i = ACTION_UPDATE
     then diff_leaf_update (ss_name i) (case ss_seqno i of Some (x, q) \<Rightarrow> seqno x q | None \<Rightarrow> seqno 0 0)
     else diff_leaf_remove (ss_name i)) m) d"
  unfolding read_message_def fold_map
  by (intro fold_cong refl ext)
    (simp add: apply_leaf_def diff_leaf_update_def diff_leaf_remove_def split: option.split)

lemma read_message_wf [simp]: "diff_wf d \<Longrightarrow> diff_wf (read_message m d)"
  by (simp add: read_fold diff.wf_fold)

lemma insert_last:
  assumes "leaves_wf (xs @ [x])"
  shows "leaf_insert x (leaf_erase (lf_info x) xs) = xs @ [x]"
proof -
  have "lf_info x \<notin> lf_info ` set xs" "\<forall>y\<in>set xs. lf_info y \<le> lf_info x"
    using assms by (auto simp: leaves_wf_def sorted_append)
  then have e: "leaf_erase (lf_info x) xs = xs" and "leaf_find (lf_info x) xs = None" and lt: "\<forall>y\<in>set xs. \<not> lf_info x \<le> lf_info y"
    by (auto simp: leaf_erase_def filter_id_conv leaf_find_None image_iff dest: antisym)
  moreover have "insort_key lf_info x xs = xs @ [x]"
    using lt by (induction xs) auto
  ultimately show ?thesis by (simp add: leaf_insert_def)
qed

lemma read_leaves:
  assumes "leaves_wf (xs @ ls)" and "\<forall>l\<in>set ls. l = (case dl_op l of
      UPDATE \<Rightarrow> diff_leaf_update (lf_info l) (lf_seq l) | REMOVE \<Rightarrow> diff_leaf_remove (lf_info l))"
    and "ds_leaves d = xs"
  shows "ds_leaves (fold (apply_leaf diff_update diff_remove) ls d) = xs @ ls"
  using assms
proof (induction ls arbitrary: xs d)
  case (Cons l ls)
  have "leaves_wf (xs @ [l])" using Cons.prems(1) by (auto simp: leaves_wf_def sorted_append)
  then have i: "leaf_insert l (leaf_erase (lf_info l) xs) = xs @ [l]" by (rule insert_last)
  have l: "l = (case dl_op l of UPDATE \<Rightarrow> diff_leaf_update (lf_info l) (lf_seq l) | REMOVE \<Rightarrow> diff_leaf_remove (lf_info l))"
    using Cons.prems(2) by simp
  have "ds_leaves (apply_leaf diff_update diff_remove l d) = xs @ [l]"
    using l i Cons.prems(3) by (cases "dl_op l") (simp_all add: apply_leaf_def diff_update_def diff_remove_def)
  then show ?case using Cons.IH [of "xs @ [l]"] Cons.prems by simp
qed simp

end
