(* ===== verification/Sync_Logic.thy ===== *)
theory Sync_Logic
  imports Sync_Content Statistics
begin

text \<open>
  \<open>SyncInterestTable\<close>, \<open>SyncLogic\<close> and \<open>SyncSocket\<close> (src/nsync/sync-interest-table.cc,
  sync-logic.cc, sync-socket.cc): routers that hold the same numbers wait on Interests with the
  same digest; who changes something answers them with the difference, and an Interest with
  another digest is answered from the log of differences or with a request for everything.

  A function returns the exception that ended it, if any, and the state it left. The
  application's callbacks are an argument; they act on the application's part of the state.
\<close>

text \<open>Callbacks given to the scheduler, and what goes out.\<close>

datatype sync_event =
    EvSendSyncInterest
  | EvSendRecovery digest
  | EvDelayedInterest name digest
  | EvExpireInterests

datatype sync_out =
    SyncFilter name
  | ExpressSync name
  | ExpressData name int
  | PutSync name string int
  | ValidateSync data_packet
  | ValidateData data_packet

type_synonym sync_io = "(sync_event, sync_out) runtime"

section \<open>The table of pending Interests\<close>

record pit_entry =
  in_digest :: digest
  in_name :: string
  in_time :: time_point
  in_unknown :: bool

text \<open>\<open>pop\<close> takes the element an unordered container gives first.\<close>

definition table_pop :: "sync_lib \<Rightarrow> pit_entry list \<Rightarrow> 'e sync_exn + pit_entry \<times> pit_entry list" where
  "table_pop S t =
     (if length t = 0 then Inl InterestTableIsEmpty
      else let i = sy_begin S (map in_name t) mod length t in Inr (t ! i, take i t @ drop (Suc i) t))"

text \<open>The insertion computes the hash of the digest, which fails for a short one.\<close>

definition table_insert :: "sync_lib \<Rightarrow> time_point \<Rightarrow> digest \<Rightarrow> string \<Rightarrow> bool \<Rightarrow> pit_entry list \<Rightarrow>
    ('e sync_exn + bool) \<times> pit_entry list" where
  "table_insert S now d n unknown t =
     (let existent = n \<in> in_name ` set t;
          t = (if existent then filter (\<lambda>e. in_name e \<noteq> n) t else t)
      in case digest_getHash S d of
           Inl e \<Rightarrow> (Inl e, t)
         | Inr _ \<Rightarrow> (Inr existent, t @ [\<lparr>in_digest = d, in_name = n, in_time = now, in_unknown = unknown\<rparr>]))"

definition table_removeName :: "string \<Rightarrow> pit_entry list \<Rightarrow> bool \<times> pit_entry list" where
  "table_removeName n t =
     (if n \<in> in_name ` set t then (True, filter (\<lambda>e. in_name e \<noteq> n) t) else (False, t))"

definition table_removeDigest :: "sync_lib \<Rightarrow> digest \<Rightarrow> pit_entry list \<Rightarrow> 'e sync_exn + bool \<times> pit_entry list" where
  "table_removeDigest S d t = and_then (digest_getHash S d) (\<lambda>_. Inr
     (if \<exists>e\<in>set t. dg_buffer (in_digest e) = dg_buffer d
      then (True, filter (\<lambda>e. dg_buffer (in_digest e) \<noteq> dg_buffer d) t) else (False, t)))"

text \<open>The loop goes through the index by time, oldest first, up to the first young entry.\<close>

definition table_expire :: "time_point \<Rightarrow> pit_entry list \<Rightarrow> pit_entry list" where
  "table_expire expireTime t =
     (let kept = dropWhile (\<lambda>e. in_time e \<le> expireTime) (sort_key in_time t) in filter (\<lambda>e. e \<in> set kept) t)"

section \<open>State\<close>

record missing_data =
  md_prefix :: string
  md_low :: seqno
  md_high :: seqno

record ('a, 'e) callbacks =
  cb_update :: "missing_data list \<Rightarrow> 'a \<Rightarrow> 'e + 'a"
  cb_remove :: "string \<Rightarrow> 'a \<Rightarrow> 'e + 'a"
  cb_branch :: "string \<Rightarrow> 'a \<Rightarrow> 'e + 'a"

text \<open>
  \<open>sl_diffs\<close> holds the objects of the differences, at their addresses; \<open>sl_log\<close> the addresses of
  those that are in the log, the newest first. \<open>sl_rng\<close> is the state of the random generator.
\<close>

record 'a sync_logic =
  sl_state :: full_state
  sl_diffs :: "diff_state list"
  sl_log :: "nat list"
  sl_outstanding :: name
  sl_table :: "pit_entry list"
  sl_syncPrefix :: name
  sl_perBranch :: bool
  sl_stats :: statistics
  sl_rng :: nat
  sl_interval :: "32 word"
  sl_delayedId :: event_id
  sl_reexpressingId :: event_id
  sl_recoveryId :: event_id
  sl_io :: sync_io
  sl_app :: 'a

definition forwarderPrefix :: string where
  "forwarderPrefix = ''/d0n0t18ak/t0ps8cr8t''"

definition syncResponseFreshness :: int where "syncResponseFreshness = 1000"
definition syncInterestReexpress :: int where "syncInterestReexpress = 4"
definition defaultRecoveryRetransmitInterval :: "32 word" where "defaultRecoveryRetransmitInterval = 200"

definition on_sync_io :: "(sync_io \<Rightarrow> sync_io) \<Rightarrow> 'a sync_logic \<Rightarrow> 'a sync_logic" where
  "on_sync_io f st = st\<lparr>sl_io := f (sl_io st)\<rparr>"

definition sync_stat :: "packet_type \<Rightarrow> 'a sync_logic \<Rightarrow> 'a sync_logic" where
  "sync_stat p st = st\<lparr>sl_stats := stats_increment p (sl_stats st)\<rparr>"

definition draw :: "sync_lib \<Rightarrow> nat \<Rightarrow> nat \<Rightarrow> 'a sync_logic \<Rightarrow> nat \<times> 'a sync_logic" where
  "draw S lo hi st = (case sy_uniform S lo hi (sl_rng st) of (x, g) \<Rightarrow> (x, st\<lparr>sl_rng := g\<rparr>))"

definition rangeUniformRandom :: "sync_lib \<Rightarrow> 'a sync_logic \<Rightarrow> nat \<times> 'a sync_logic" where
  "rangeUniformRandom S = draw S 200 1000"

definition reexpressionJitter :: "sync_lib \<Rightarrow> 'a sync_logic \<Rightarrow> nat \<times> 'a sync_logic" where
  "reexpressionJitter S = draw S 100 500"

definition rootDigest :: "sync_lib \<Rightarrow> 'a sync_logic \<Rightarrow> digest \<times> 'a sync_logic" where
  "rootDigest S st = (case full_getDigest S (sl_state st) of (d, fs) \<Rightarrow> (d, st\<lparr>sl_state := fs\<rparr>))"

text \<open>Both constructors.\<close>

definition sync_logic_new :: "bool \<Rightarrow> name \<Rightarrow> statistics \<Rightarrow> nat \<Rightarrow> sync_io \<Rightarrow> 'a \<Rightarrow> 'a sync_logic" where
  "sync_logic_new perBranch syncPrefix stats seed io app =
     (let io = snd (scheduleEvent (4 * second) EvExpireInterests io);
          io = emit (SyncFilter syncPrefix) io;
          (eid, io) = scheduleEvent 0 EvSendSyncInterest io
      in \<lparr>sl_state = full_state_new, sl_diffs = [], sl_log = [], sl_outstanding = [], sl_table = [],
          sl_syncPrefix = syncPrefix, sl_perBranch = perBranch, sl_stats = stats, sl_rng = seed,
          sl_interval = defaultRecoveryRetransmitInterval, sl_delayedId = None, sl_reexpressingId = eid,
          sl_recoveryId = None, sl_io = io, sl_app = app\<rparr>)"

section \<open>Sending\<close>

text \<open>The next Interest after a base time and the jitter; the timer before it is cancelled.\<close>

definition reexpressAfter :: "sync_lib \<Rightarrow> int \<Rightarrow> 'a sync_logic \<Rightarrow> 'a sync_logic" where
  "reexpressAfter S base st =
     (let (jitter, st) = reexpressionJitter S st;
          (eid, io) = scheduleEvent (base + int jitter * millisecond) EvSendSyncInterest (sl_io st);
          io = cancelEvent (sl_reexpressingId st) io
      in st\<lparr>sl_io := io, sl_reexpressingId := eid\<rparr>)"

definition sendSyncInterest :: "sync_lib \<Rightarrow> 'a sync_logic \<Rightarrow> ('e sync_exn, 'a sync_logic) outcome" where
  "sendSyncInterest S st =
     (let st = st\<lparr>sl_outstanding := sl_syncPrefix st\<rparr>;
          (digest, st) = rootDigest S st
      in with_value (digest_print digest) st (\<lambda>os.
           let st = st\<lparr>sl_outstanding := sl_outstanding st @ [os]\<rparr>;
               st = reexpressAfter S (syncInterestReexpress * second) st;
               st = on_sync_io (emit (ExpressSync (sl_outstanding st))) st
           in (None, sync_stat SENT_SYNC_INTEREST st)))"

text \<open>The interval is doubled after the time of the next retransmission is known.\<close>

definition sendSyncRecoveryInterests :: "sync_lib \<Rightarrow> digest \<Rightarrow> 'a sync_logic \<Rightarrow> ('e sync_exn, 'a sync_logic) outcome" where
  "sendSyncRecoveryInterests S digest st = with_value (digest_print digest) st (\<lambda>os.
     let interestName = sl_syncPrefix st @ [''recovery'', os];
         (jitter, st) = reexpressionJitter S st;
         nextRetransmission = int (unat (sl_interval st + of_nat jitter)) * millisecond;
         st = st\<lparr>sl_interval := push_bit 1 (sl_interval st)\<rparr>;
         st = on_sync_io (cancelEvent (sl_recoveryId st)) st;
         st = (if sl_interval st < 100 * 1000 then
                 case scheduleEvent nextRetransmission (EvSendRecovery digest) (sl_io st) of
                   (eid, io) \<Rightarrow> st\<lparr>sl_io := io, sl_recoveryId := eid\<rparr>
               else st);
         st = on_sync_io (emit (ExpressSync interestName)) st
     in (None, sync_stat SENT_SYNC_RECOVERY_INTEREST st))"

definition sendSyncData :: "sync_lib \<Rightarrow> name \<Rightarrow> digest \<Rightarrow> sync_state_msg \<Rightarrow> 'a sync_logic \<Rightarrow> 'a sync_logic" where
  "sendSyncData S n digest ssm st =
     (let st = on_sync_io (emit (PutSync n (sy_serialize S ssm) (syncResponseFreshness * second))) st;
          st = (if int (length n) - int (length (sl_syncPrefix st)) = 1
                then sync_stat SENT_SYNC_DATA st else sync_stat SENT_SYNC_RECOVERY_DATA st)
      in if sl_outstanding st = n then reexpressAfter S 0 st else st)"

section \<open>The log of differences\<close>

definition same_digest :: "digest \<Rightarrow> diff_state \<Rightarrow> bool" where
  "same_digest d x = (case ds_digest x of Some e \<Rightarrow> dg_buffer e = dg_buffer d | None \<Rightarrow> False)"

definition log_find :: "sync_lib \<Rightarrow> digest \<Rightarrow> 'a sync_logic \<Rightarrow> 'e sync_exn + nat option" where
  "log_find S d st = and_then (digest_getHash S d) (\<lambda>_.
     Inr (find (\<lambda>a. same_digest d (sl_diffs st ! a)) (sl_log st)))"

definition insertToDiffLog :: "sync_lib \<Rightarrow> diff_state \<Rightarrow> 'a sync_logic \<Rightarrow> ('e sync_exn, 'a sync_logic) outcome" where
  "insertToDiffLog S diffLog st =
     (let (digest, st) = rootDigest S st;
          a = length (sl_diffs st);
          st = st\<lparr>sl_diffs := sl_diffs st @ [diffLog\<lparr>ds_digest := Some digest\<rparr>]\<rparr>;
          st = (if length (sl_log st) > 0
                then st\<lparr>sl_diffs := (sl_diffs st)[hd (sl_log st) := (sl_diffs st ! hd (sl_log st))\<lparr>ds_next := Some a\<rparr>]\<rparr>
                else st);
          (digest, st) = rootDigest S st
      in with_value (digest_getHash S digest) st (\<lambda>_.
           (None, st\<lparr>sl_log := a # filter (\<lambda>b. \<not> same_digest digest (sl_diffs st ! b)) (sl_log st)\<rparr>)))"

section \<open>Local changes\<close>

definition all_leaves :: "full_state \<Rightarrow> diff_state" where
  "all_leaves fs = fold (\<lambda>l d. diff_update (lf_info l) (lf_seq l) d) (fs_leaves fs) diff_state_new"

text \<open>The loop takes the entries out one by one and ends with the table empty.\<close>

primrec satisfy_loop :: "nat \<Rightarrow> sync_lib \<Rightarrow> ndn_lib \<Rightarrow> diff_state \<Rightarrow> diff_state \<Rightarrow> 'a sync_logic \<Rightarrow>
    ('e sync_exn, 'a sync_logic) outcome" where
  "satisfy_loop 0 S L diffLog fullStateLog st = (Some Endless, st)"
| "satisfy_loop (Suc k) S L diffLog fullStateLog st =
     (if length (sl_table st) > 0 then
        with_value (table_pop S (sl_table st)) st (\<lambda>(interest, t).
          let st = st\<lparr>sl_table := t\<rparr> in
          case ofUri L (in_name interest) of
            None \<Rightarrow> (Some NameRejected, st)
          | Some n \<Rightarrow> satisfy_loop k S L diffLog fullStateLog
              (sendSyncData S n (in_digest interest)
                 (diff_message (if \<not> in_unknown interest then diffLog else fullStateLog)) st))
      else (None, st))"

definition satisfyPendingSyncInterests :: "sync_lib \<Rightarrow> ndn_lib \<Rightarrow> diff_state \<Rightarrow> 'a sync_logic \<Rightarrow>
    ('e sync_exn, 'a sync_logic) outcome" where
  "satisfyPendingSyncInterests S L diffLog st =
     (case satisfy_loop (Suc (length (sl_table st))) S L diffLog (all_leaves (sl_state st)) st of
        (Some InterestTableIsEmpty, st) \<Rightarrow> (None, st)
      | r \<Rightarrow> r)"

definition addLocalNames :: "sync_lib \<Rightarrow> ndn_lib \<Rightarrow> name \<Rightarrow> 64 word \<Rightarrow> 64 word \<Rightarrow> 'a sync_logic \<Rightarrow>
    ('e sync_exn, 'a sync_logic) outcome" where
  "addLocalNames S L prefix session q st =
     (let info = toUri L prefix;
          seqN = seqno session q;
          st = st\<lparr>sl_state := snd (full_update S (io_system_now (sl_io st)) info seqN (sl_state st))\<rparr>;
          diff = diff_update info seqN diff_state_new
      in and_next (insertToDiffLog S diff st) (satisfyPendingSyncInterests S L diff))"

definition sync_remove :: "sync_lib \<Rightarrow> ndn_lib \<Rightarrow> name \<Rightarrow> 'a sync_logic \<Rightarrow> ('e sync_exn, 'a sync_logic) outcome" where
  "sync_remove S L prefix st =
     (let info = toUri L prefix;
          now = io_system_now (sl_io st);
          fs = snd (full_remove now info (sl_state st));
          seqNo = (case leaf_find forwarderPrefix (fs_leaves fs) of
                     Some item \<Rightarrow> seqno_incr (lf_seq item)
                   | None \<Rightarrow> seqno_of 0);
          st = st\<lparr>sl_state := snd (full_update S now forwarderPrefix seqNo fs)\<rparr>;
          diff = diff_update forwarderPrefix seqNo (diff_remove info diff_state_new)
      in and_next (insertToDiffLog S diff st) (satisfyPendingSyncInterests S L diff))"

section \<open>Interests and Data\<close>

text \<open>The URI form of a component of hexadecimal digits is the component.\<close>

definition hex_uri_ok :: "ndn_lib \<Rightarrow> bool" where
  "hex_uri_ok L \<longleftrightarrow> (\<forall>bs. bs \<noteq> [] \<longrightarrow> compToUri L (string_from_binary bs) = string_from_binary bs)"

text \<open>Normal names are the prefix and a digest; others have their type before the digest.\<close>

definition convertNameToDigestAndType :: "ndn_lib \<Rightarrow> name \<Rightarrow> name \<Rightarrow> 'e sync_exn + digest \<times> string" where
  "convertNameToDigestAndType L syncPrefix n =
     (if take (length syncPrefix) n \<noteq> syncPrefix then Inl AssertionFailed
      else
        let nameLengthDiff = int (length n) - int (length syncPrefix) in
        if \<not> nameLengthDiff > 0 then Inl AssertionFailed
        else if \<not> nameLengthDiff < 3 then Inl AssertionFailed
        else
          let hash = compToUri L (compAt L n (-1));
              interestType = (if nameLengthDiff = 1 then ''normal'' else compToUri L (compAt L n (-2)))
          in and_then (digest_read hash digest_new) (\<lambda>digest. Inr (digest, interestType)))"

definition processSyncInterest :: "sync_lib \<Rightarrow> ndn_lib \<Rightarrow> name \<Rightarrow> digest \<Rightarrow> bool \<Rightarrow> 'a sync_logic \<Rightarrow>
    ('e sync_exn, 'a sync_logic) outcome" where
  "processSyncInterest S L n digest timedProcessing st =
     (let (root, st) = rootDigest S st in
      with_value (digest_isZero digest) st (\<lambda>zero.
      with_value (if zero then digest_isZero root else Inr True) st (\<lambda>rootZero.
      if zero \<and> \<not> rootZero then (None, sendSyncData S n digest (full_message (sl_state st)) st)
      else with_value (digest_eq root digest) st (\<lambda>same.
      if same then
        (case table_insert S (io_system_now (sl_io st)) digest (toUri L n) False (sl_table st) of
           (Inl e, t) \<Rightarrow> (Some e, st\<lparr>sl_table := t\<rparr>)
         | (Inr _, t) \<Rightarrow> (None, st\<lparr>sl_table := t\<rparr>))
      else with_value (log_find S digest st) st (\<lambda>found.
      case found of
        Some a \<Rightarrow>
          (case diff_diff (sl_diffs st) (sl_diffs st ! a) of
             None \<Rightarrow> (Some Endless, st)
           | Some stateDiff \<Rightarrow> (None, sendSyncData S n digest (diff_message stateDiff) st))
      | None \<Rightarrow>
          if \<not> timedProcessing then
            (case table_insert S (io_system_now (sl_io st)) digest (toUri L n) True (sl_table st) of
               (Inl e, t) \<Rightarrow> (Some e, st\<lparr>sl_table := t\<rparr>)
             | (Inr exists, t) \<Rightarrow>
                 let st = st\<lparr>sl_table := t\<rparr>;
                     st = (if exists then on_sync_io (cancelEvent (sl_delayedId st)) st else st);
                     (waitDelay, st) = rangeUniformRandom S st
                 in case scheduleEvent (int waitDelay * millisecond) (EvDelayedInterest n digest) (sl_io st) of
                      (eid, io) \<Rightarrow> (None, st\<lparr>sl_io := io, sl_delayedId := eid\<rparr>))
          else sendSyncRecoveryInterests S digest (st\<lparr>sl_interval := defaultRecoveryRetransmitInterval\<rparr>))))))"

definition processSyncRecoveryInterest :: "sync_lib \<Rightarrow> name \<Rightarrow> digest \<Rightarrow> 'a sync_logic \<Rightarrow>
    ('e sync_exn, 'a sync_logic) outcome" where
  "processSyncRecoveryInterest S n digest st = with_value (log_find S digest st) st (\<lambda>found.
     case found of
       None \<Rightarrow> (None, st)
     | Some _ \<Rightarrow> (None, sendSyncData S n digest (full_message (sl_state st)) st))"

text \<open>The exception of a digest is caught and logged.\<close>

definition catch_digest_error :: "('e sync_exn, 's) outcome \<Rightarrow> ('e sync_exn, 's) outcome" where
  "catch_digest_error r = (case r of (Some DigestCalculationError, st) \<Rightarrow> (None, st) | r \<Rightarrow> r)"

definition onSyncInterest :: "sync_lib \<Rightarrow> ndn_lib \<Rightarrow> name \<Rightarrow> 'a sync_logic \<Rightarrow> ('e sync_exn, 'a sync_logic) outcome" where
  "onSyncInterest S L n st = catch_digest_error
     (with_value (convertNameToDigestAndType L (sl_syncPrefix st) n) st (\<lambda>(digest, type).
        if type = ''normal'' then
          and_next (processSyncInterest S L n digest False st) (\<lambda>st. (None, sync_stat RCV_SYNC_INTEREST st))
        else if type = ''recovery'' then
          and_next (processSyncRecoveryInterest S n digest st) (\<lambda>st. (None, sync_stat RCV_SYNC_RECOVERY_INTEREST st))
        else (None, st)))"

definition onSyncData :: "data_packet \<Rightarrow> 'a sync_logic \<Rightarrow> 'a sync_logic" where
  "onSyncData data = on_sync_io (emit (ValidateSync data))"

section \<open>Received differences\<close>

text \<open>A callback acts on the application's state.\<close>

definition call_back :: "('a \<Rightarrow> 'e + 'a) \<Rightarrow> 'a sync_logic \<Rightarrow> ('e sync_exn, 'a sync_logic) outcome" where
  "call_back f st = (case f (sl_app st) of
       Inl e \<Rightarrow> (Some (Callback e), st)
     | Inr app \<Rightarrow> (None, st\<lparr>sl_app := app\<rparr>))"

definition branch_name :: "ndn_lib \<Rightarrow> missing_data \<Rightarrow> string" where
  "branch_name L mdi = md_prefix mdi @ ''/'' @ showNat L (unat (sn_session (md_high mdi))) @
     ''/'' @ showNat L (unat (sn_seq (md_high mdi)))"

text \<open>One leaf of a received difference; \<open>v\<close> collects what the application is told at the end.\<close>

definition process_leaf :: "sync_lib \<Rightarrow> ndn_lib \<Rightarrow> ('a, 'e) callbacks \<Rightarrow> diff_leaf \<Rightarrow>
    diff_state \<times> missing_data list \<times> 'a sync_logic \<Rightarrow>
    ('e sync_exn, diff_state \<times> missing_data list \<times> 'a sync_logic) outcome" where
  "process_leaf S L cb leaf acc = (case acc of (diffLog, v, st) \<Rightarrow>
     let now = io_system_now (sl_io st); info = lf_info leaf in
     case dl_op leaf of
       UPDATE \<Rightarrow>
         (case full_update S now info (lf_seq leaf) (sl_state st) of ((inserted, updated, oldSeq), fs) \<Rightarrow>
            let st = st\<lparr>sl_state := fs\<rparr> in
            if inserted \<or> updated then
              let diffLog = diff_update info (lf_seq leaf) diffLog;
                  oldSeq = (if \<not> sn_valid oldSeq then seqno (sn_session (lf_seq leaf)) 0 else seqno_incr oldSeq);
                  mdi = \<lparr>md_prefix = info, md_low = oldSeq, md_high = lf_seq leaf\<rparr>
              in if info \<noteq> forwarderPrefix then
                   if sl_perBranch st then
                     (case call_back (cb_branch cb (branch_name L mdi)) st of (e, st) \<Rightarrow> (e, diffLog, v, st))
                   else (None, diffLog, v @ [mdi], st)
                 else (None, diffLog, v, st)
            else (None, diffLog, v, st))
     | REMOVE \<Rightarrow>
         (case full_remove now info (sl_state st) of (removed, fs) \<Rightarrow>
            let st = st\<lparr>sl_state := fs\<rparr> in
            if removed then
              let diffLog = diff_remove info diffLog in
              if \<not> sl_perBranch st then
                (case call_back (cb_remove cb info) st of (e, st) \<Rightarrow> (e, diffLog, v, st))
              else (None, diffLog, v, st)
            else (None, diffLog, v, st)))"

fun process_leaves :: "sync_lib \<Rightarrow> ndn_lib \<Rightarrow> ('a, 'e) callbacks \<Rightarrow> diff_leaf list \<Rightarrow>
    diff_state \<times> missing_data list \<times> 'a sync_logic \<Rightarrow>
    ('e sync_exn, diff_state \<times> missing_data list \<times> 'a sync_logic) outcome" where
  "process_leaves S L cb [] acc = (None, acc)"
| "process_leaves S L cb (l # ls) acc = and_next (process_leaf S L cb l acc) (process_leaves S L cb ls)"

definition stateChanged :: "sync_lib \<Rightarrow> bool \<Rightarrow> 'a sync_logic \<Rightarrow> 'a sync_logic" where
  "stateChanged S c st = (if c then reexpressAfter S 0 st else st)"

definition processSyncData :: "sync_lib \<Rightarrow> ndn_lib \<Rightarrow> ('a, 'e) callbacks \<Rightarrow> name \<Rightarrow> string \<Rightarrow> 'a sync_logic \<Rightarrow>
    ('e sync_exn, 'a sync_logic) outcome" where
  "processSyncData S L cb n wireData st =
     (let st = st\<lparr>sl_table := snd (table_removeName (toUri L n) (sl_table st))\<rparr>;
          ownInterestSatisfied = (n = sl_outstanding st)
      in case sy_parse S wireData of
           None \<Rightarrow> (None, stateChanged S ownInterestSatisfied st)
         | Some msg \<Rightarrow>
             continue (process_leaves S L cb (ds_leaves (read_message msg diff_state_new)) (diff_state_new, [], st))
               (\<lambda>(diffLog, v, st).
                  and_next (if v \<noteq> [] \<and> \<not> sl_perBranch st then call_back (cb_update cb v) st else (None, st)) (\<lambda>st.
                  and_next (insertToDiffLog S diffLog st) (\<lambda>st.
                  (None, stateChanged S (length (ds_leaves diffLog) > 0 \<or> ownInterestSatisfied) st))))
               (\<lambda>(_, _, st). st))"

definition onSyncDataValidated :: "sync_lib \<Rightarrow> ndn_lib \<Rightarrow> ('a, 'e) callbacks \<Rightarrow> data_packet \<Rightarrow> 'a sync_logic \<Rightarrow>
    ('e sync_exn, 'a sync_logic) outcome" where
  "onSyncDataValidated S L cb data st = catch_digest_error
     (with_value (convertNameToDigestAndType L (sl_syncPrefix st) (data_name data)) st (\<lambda>(digest, type).
        if type = ''normal'' then
          and_next (processSyncData S L cb (data_name data) (data_content data) st)
            (\<lambda>st. (None, sync_stat RCV_SYNC_DATA st))
        else
          and_next (processSyncData S L cb (data_name data) (data_content data)
              (on_sync_io (cancelEvent (sl_recoveryId st)) st))
            (\<lambda>st. (None, sync_stat RCV_SYNC_RECOVERY_DATA st))))"

section \<open>Timers and queries\<close>

definition expireInterests :: "'a sync_logic \<Rightarrow> 'a sync_logic" where
  "expireInterests st =
     (let expireTime = io_system_now (sl_io st) - syncInterestReexpress * second;
          st = st\<lparr>sl_table := table_expire expireTime (sl_table st)\<rparr>
      in on_sync_io (\<lambda>io. snd (scheduleEvent (4 * second) EvExpireInterests io)) st)"

fun run_sync_event :: "sync_lib \<Rightarrow> ndn_lib \<Rightarrow> sync_event \<Rightarrow> 'a sync_logic \<Rightarrow> ('e sync_exn, 'a sync_logic) outcome" where
  "run_sync_event S L EvSendSyncInterest st = sendSyncInterest S st"
| "run_sync_event S L (EvSendRecovery d) st = sendSyncRecoveryInterests S d st"
| "run_sync_event S L (EvDelayedInterest n d) st = processSyncInterest S L n d True st"
| "run_sync_event S L EvExpireInterests st = (None, expireInterests st)"

definition getRootDigest :: "sync_lib \<Rightarrow> 'a sync_logic \<Rightarrow> ('e sync_exn + string) \<times> 'a sync_logic" where
  "getRootDigest S st = (case rootDigest S st of (d, st) \<Rightarrow> (digest_print d, st))"

definition getNumberOfBranches :: "'a sync_logic \<Rightarrow> nat" where
  "getNumberOfBranches st = length (fs_leaves (sl_state st))"

definition getBranchPrefixes :: "'a sync_logic \<Rightarrow> (string \<times> bool) list" where
  "getBranchPrefixes st = map (\<lambda>l. (lf_info l, False)) (filter (\<lambda>l. lf_info l \<noteq> forwarderPrefix) (fs_leaves (sl_state st)))"

section \<open>The socket\<close>

record posted_data =
  po_content :: string
  po_freshness :: int
  po_prefix :: name
  po_session :: "64 word"
  po_seq :: "64 word"

text \<open>\<open>so_posted\<close>: what was given to the event loop and did not run yet.\<close>

record 'a sync_socket =
  so_logic :: "'a sync_logic"
  so_sequenceLog :: "name \<Rightarrow> seqno option"
  so_posted :: "posted_data list"

definition publishData :: "name \<Rightarrow> 64 word \<Rightarrow> string \<Rightarrow> int \<Rightarrow> 64 word \<Rightarrow> 'a sync_socket \<Rightarrow> bool \<times> 'a sync_socket" where
  "publishData prefix session buf freshness q so =
     (True, so\<lparr>so_posted := so_posted so @ [\<lparr>po_content = buf, po_freshness = freshness * second,
        po_prefix = prefix, po_session = session, po_seq = q\<rparr>]\<rparr>)"

definition publishDataInternal :: "sync_lib \<Rightarrow> ndn_lib \<Rightarrow> posted_data \<Rightarrow> 'a sync_socket \<Rightarrow>
    ('e sync_exn, 'a sync_socket) outcome" where
  "publishDataInternal S L p so =
     (let dataName = po_prefix p @ [showNat L (unat (po_session p)), showNat L (unat (po_seq p))];
          so = so\<lparr>so_logic := on_sync_io (emit (PutSync dataName (po_content p) (po_freshness p))) (so_logic so),
                  so_sequenceLog := (so_sequenceLog so)(po_prefix p \<mapsto> seqno (po_session p) (po_seq p + 1))\<rparr>
      in case addLocalNames S L (po_prefix p) (po_session p) (po_seq p) (so_logic so) of
           (e, logic) \<Rightarrow> (e, so\<lparr>so_logic := logic\<rparr>))"

definition fetchData :: "ndn_lib \<Rightarrow> name \<Rightarrow> seqno \<Rightarrow> int \<Rightarrow> 'a sync_socket \<Rightarrow> 'a sync_socket" where
  "fetchData L prefix s retry so =
     (let interestName = prefix @ [showNat L (unat (sn_session s)), showNat L (unat (sn_seq s))]
      in so\<lparr>so_logic := on_sync_io (emit (ExpressData interestName retry)) (so_logic so)\<rparr>)"

definition socket_onData :: "data_packet \<Rightarrow> 'a sync_socket \<Rightarrow> 'a sync_socket" where
  "socket_onData data so = so\<lparr>so_logic := on_sync_io (emit (ValidateData data)) (so_logic so)\<rparr>"

definition socket_onDataTimeout :: "name \<Rightarrow> int \<Rightarrow> 'a sync_socket \<Rightarrow> 'a sync_socket" where
  "socket_onDataTimeout interest retry so =
     (if retry > 0 then so\<lparr>so_logic := on_sync_io (emit (ExpressData interest (retry - 1))) (so_logic so)\<rparr> else so)"

definition getNextSeq :: "name \<Rightarrow> 64 word \<Rightarrow> 'a sync_socket \<Rightarrow> 64 word" where
  "getNextSeq prefix session so = (case so_sequenceLog so prefix of
       Some s \<Rightarrow> if sn_session s = session then sn_seq s else 0
     | None \<Rightarrow> 0)"

definition socket_remove :: "sync_lib \<Rightarrow> ndn_lib \<Rightarrow> name \<Rightarrow> 'a sync_socket \<Rightarrow> ('e sync_exn, 'a sync_socket) outcome" where
  "socket_remove S L prefix so = (case sync_remove S L prefix (so_logic so) of
     (e, logic) \<Rightarrow> (e, so\<lparr>so_logic := logic\<rparr>))"

end
