(* ===== verification/Sync_Convergence.thy ===== *)
theory Sync_Convergence
  imports Sync_Logic
begin

text \<open>
  Why two routers end with the same state: every entry of the log of differences leads from
  the state it was made at to the present one. This holds as long as published numbers grow and
  nothing is removed.
\<close>

section \<open>Growth\<close>

text \<open>\<open>d\<close> only sets names to newer values, and takes the state \<open>m\<close> to \<open>m'\<close>.\<close>

type_synonym sync_map = "string \<Rightarrow> (64 word \<times> 64 word) option"

definition ahead :: "sync_map \<Rightarrow> string \<Rightarrow> 64 word \<times> 64 word \<Rightarrow> bool" where
  "ahead m n v \<longleftrightarrow> (case m n of None \<Rightarrow> True | Some w \<Rightarrow> w < v)"

definition grows :: "sync_map \<Rightarrow> (string \<Rightarrow> (64 word \<times> 64 word) option option) \<Rightarrow> sync_map \<Rightarrow> bool" where
  "grows m d m' \<longleftrightarrow> (\<forall>n. case d n of
       None \<Rightarrow> m' n = m n
     | Some None \<Rightarrow> False
     | Some (Some v) \<Rightarrow> ahead m n v \<and> m' n = Some v)"

lemma grows_empty [simp]: "grows m (\<lambda>_. None) m"
  by (simp add: grows_def)

lemma grows_chain:
  assumes "grows m d m'" and "grows m' e m''"
  shows "grows m (d ++ e) m''"
  unfolding grows_def
proof
  fix n
  show "case (d ++ e) n of None \<Rightarrow> m'' n = m n | Some None \<Rightarrow> False | Some (Some v) \<Rightarrow> ahead m n v \<and> m'' n = Some v"
    using assms [unfolded grows_def, rule_format, of n]
    by (auto simp: ahead_def map_add_def split: option.splits)
qed

lemma grows_change:
  assumes "grows m d m'"
  shows "change_of d m = m'"
proof
  fix n
  show "change_of d m n = m' n"
    using assms [unfolded grows_def, rule_format, of n]
    by (cases "m n") (auto simp: change_of_def ahead_def max_def split: option.splits)
qed

lemma grows_single:
  assumes "ahead m n v" and "m' = m(n \<mapsto> v)"
  shows "grows m [n \<mapsto> Some v] m'"
  using assms by (simp add: grows_def)

section \<open>The log\<close>

text \<open>\<open>Ms\<close> lists the leaves of the state after each difference was put in the log.\<close>

definition node_ok :: "sync_lib \<Rightarrow> full_leaf list list \<Rightarrow> diff_state list \<Rightarrow> nat \<Rightarrow> bool" where
  "node_ok S Ms ds i \<longleftrightarrow> diff_wf (ds ! i) \<and> ds_digest (ds ! i) = Some (compute_digest S (Ms ! i)) \<and>
     ds_next (ds ! i) = (if Suc i < length Ms then Some (Suc i) else None) \<and>
     (Suc i < length Ms \<longrightarrow>
        grows (leaves_content (Ms ! i)) (diff_content (ds ! Suc i)) (leaves_content (Ms ! Suc i)))"

definition log_ok :: "sync_lib \<Rightarrow> full_leaf list list \<Rightarrow> 'a sync_logic \<Rightarrow> bool" where
  "log_ok S Ms st \<longleftrightarrow> full_wf S (sl_state st) \<and> length (sl_diffs st) = length Ms \<and>
     (\<forall>i<length Ms. node_ok S Ms (sl_diffs st) i) \<and> (\<forall>a\<in>set (sl_log st). a < length Ms) \<and>
     (if Ms = [] then sl_log st = [] \<and> fs_leaves (sl_state st) = []
      else last Ms = fs_leaves (sl_state st) \<and> sl_log st \<noteq> [] \<and> hd (sl_log st) = length Ms - 1)"

text \<open>The walk from a node collects the change up to the last one.\<close>

lemma diff_walk_end [simp]: "diff_walk ds None ret = Some ret"
  by (subst diff_walk.simps) simp

lemma diff_walk_node: "a < length ds \<Longrightarrow> diff_walk ds (Some a) ret = diff_walk ds (ds_next (ds ! a)) (diff_add ret (ds ! a))"
  by (subst diff_walk.simps) simp

lemma walk_grows:
  assumes "\<forall>i<length Ms. node_ok S Ms ds i" and "length ds = length Ms" and "i < length Ms"
    and "diff_wf ret" and "grows m (diff_content ret) (leaves_content (Ms ! i))"
  shows "\<exists>d. diff_walk ds (ds_next (ds ! i)) ret = Some d \<and> diff_wf d \<and>
    grows m (diff_content d) (leaves_content (last Ms))"
  using assms(3-)
proof (induction "length Ms - i" arbitrary: i ret)
  case (Suc k)
  have ok: "node_ok S Ms ds i" using assms(1) Suc.prems(1) by simp
  show ?case
  proof (cases "Suc i < length Ms")
    case True
    have next_ok: "node_ok S Ms ds (Suc i)" using assms(1) True by simp
    let ?ret = "diff_add ret (ds ! Suc i)"
    have "grows m (diff_content ?ret) (leaves_content (Ms ! Suc i))"
      using grows_chain [OF Suc.prems(3)] ok next_ok True Suc.prems(2)
      by (simp add: node_ok_def diff_add_content)
    then have "\<exists>d. diff_walk ds (ds_next (ds ! Suc i)) ?ret = Some d \<and> diff_wf d \<and>
        grows m (diff_content d) (leaves_content (last Ms))"
      using Suc.hyps True Suc.prems(2) by simp
    moreover have "ds_next (ds ! i) = Some (Suc i)" using ok True by (simp add: node_ok_def)
    ultimately show ?thesis using True assms(2) by (simp add: diff_walk_node)
  next
    case False
    then have "i = length Ms - 1" "ds_next (ds ! i) = None"
      using Suc.prems(1) ok by (simp_all add: node_ok_def)
    moreover have "last Ms = Ms ! i" using calculation(1) Suc.prems(1) by (cases "Ms = []") (simp_all add: last_conv_nth)
    ultimately show ?thesis using Suc.prems(2,3) by simp
  qed
qed simp

lemma log_entry:
  assumes ok: "log_ok S Ms st" and a: "a \<in> set (sl_log st)"
  shows "\<exists>d. diff_diff (sl_diffs st) (sl_diffs st ! a) = Some d \<and> diff_wf d \<and>
    grows (leaves_content (Ms ! a)) (diff_content d) (leaves_content (fs_leaves (sl_state st)))"
proof -
  have a': "a < length Ms" and last: "last Ms = fs_leaves (sl_state st)"
    using assms by (auto simp: log_ok_def split: if_splits)
  have "diff_content diff_state_new = (\<lambda>_. None)" by (simp add: fun_eq_iff)
  then show ?thesis
    using walk_grows [of Ms S "sl_diffs st" a diff_state_new "leaves_content (Ms ! a)"] ok a'
    unfolding last by (simp add: log_ok_def diff_diff_def)
qed

section \<open>Putting a difference in the log\<close>

lemma rootDigest_wf:
  assumes "full_wf S (sl_state st)"
  shows "fst (rootDigest S st) = compute_digest S (fs_leaves (sl_state st))"
    and "full_wf S (sl_state (snd (rootDigest S st)))"
    and "\<exists>fs. snd (rootDigest S st) = st\<lparr>sl_state := fs\<rparr> \<and> fs_leaves fs = fs_leaves (sl_state st)"
  using assms
  by (auto simp: rootDigest_def full_getDigest_def full_wf_def Let_def split: option.splits)
    (metis sync_logic.surjective sync_logic.update_convs(1))+

lemma digest_root_hash:
  assumes "hash_ok S"
  shows "\<exists>h. digest_getHash S (compute_digest S ls) = Inr h"
proof (cases "ls = []")
  case False
  have "length (sy_hash S bs) = 32" for bs using assms by (simp add: hash_ok_def)
  then have "sy_hash S bs \<noteq> []" for bs by (metis list.size(3) zero_neq_numeral)
  with \<open>\<And>bs. length (sy_hash S bs) = 32\<close> False show ?thesis
    by (simp add: digest_getHash_def digest_isZero_def compute_digest_def)
qed (simp add: digest_getHash_def digest_isZero_def compute_digest_def)

text \<open>The new object is linked from the newest one.\<close>

definition linked :: "nat list \<Rightarrow> diff_state list \<Rightarrow> nat \<Rightarrow> diff_state list" where
  "linked lg ds a = (if lg = [] then ds else ds[hd lg := (ds ! hd lg)\<lparr>ds_next := Some a\<rparr>])"

lemma insert_result:
  assumes "hash_ok S" and "full_wf S (sl_state st)"
  defines "dg \<equiv> compute_digest S (fs_leaves (sl_state st))" and "a \<equiv> length (sl_diffs st)"
  shows "\<exists>fs. insertToDiffLog S d st = (None :: 'e sync_exn option, st\<lparr>sl_state := fs,
      sl_diffs := linked (sl_log st) (sl_diffs st @ [d\<lparr>ds_digest := Some dg\<rparr>]) a,
      sl_log := a # filter (\<lambda>b. \<not> same_digest dg (linked (sl_log st) (sl_diffs st @ [d\<lparr>ds_digest := Some dg\<rparr>]) a ! b)) (sl_log st)\<rparr>) \<and> fs_leaves fs = fs_leaves (sl_state st) \<and> full_wf S fs"
proof -
  define fs where "fs = sl_state (snd (rootDigest S st))"
  have r: "rootDigest S st = (dg, st\<lparr>sl_state := fs\<rparr>)" and fs: "fs_leaves fs = fs_leaves (sl_state st)" "full_wf S fs"
    using rootDigest_wf [OF assms(2)] by (auto simp: fs_def dg_def prod_eq_iff)
  have again: "\<exists>fs'. rootDigest S (st\<lparr>sl_state := fs, sl_diffs := ds\<rparr>) = (dg, st\<lparr>sl_state := fs', sl_diffs := ds\<rparr>) \<and>
      fs_leaves fs' = fs_leaves fs \<and> full_wf S fs'" for ds
  proof -
    have comm: "st\<lparr>sl_state := fs, sl_diffs := ds\<rparr>\<lparr>sl_state := fs'\<rparr> = st\<lparr>sl_state := fs', sl_diffs := ds\<rparr>" for fs' by simp
    show ?thesis
      using rootDigest_wf [of S "st\<lparr>sl_state := fs, sl_diffs := ds\<rparr>"] fs unfolding comm
      by (simp add: dg_def prod_eq_iff) (metis full_state.select_convs(1) sync_logic.select_convs(1) comm sync_logic.update_convs(1,2) sync_logic.surjective)
  qed
  obtain fs' where again': "rootDigest S (st\<lparr>sl_state := fs, sl_diffs := linked (sl_log st) (sl_diffs st @ [d\<lparr>ds_digest := Some dg\<rparr>]) a\<rparr>) =
      (dg, st\<lparr>sl_state := fs', sl_diffs := linked (sl_log st) (sl_diffs st @ [d\<lparr>ds_digest := Some dg\<rparr>]) a\<rparr>)"
    "fs_leaves fs' = fs_leaves fs" "full_wf S fs'"
    using again by blast
  obtain h where h: "(digest_getHash S dg :: 'e sync_exn + 64 word) = Inr h" using digest_root_hash [OF assms(1)] dg_def by blast
  have "insertToDiffLog S d st = (None :: 'e sync_exn option, st\<lparr>sl_state := fs',
      sl_diffs := linked (sl_log st) (sl_diffs st @ [d\<lparr>ds_digest := Some dg\<rparr>]) a,
      sl_log := a # filter (\<lambda>b. \<not> same_digest dg (linked (sl_log st) (sl_diffs st @ [d\<lparr>ds_digest := Some dg\<rparr>]) a ! b)) (sl_log st)\<rparr>)"
    using again'(1) h unfolding linked_def
    by (cases "sl_log st = []") (simp_all add: insertToDiffLog_def r Let_def a_def [symmetric])
  then show ?thesis using again'(2,3) fs by (intro exI [of _ fs'] conjI) simp_all
qed

lemma log_ok_insert:
  assumes S: "hash_ok S" and ok: "log_ok S Ms st0" and same: "sl_diffs st = sl_diffs st0" "sl_log st = sl_log st0"
    and wf: "full_wf S (sl_state st)" "diff_wf d" "ds_next d = None"
    and grow: "grows (leaves_content (fs_leaves (sl_state st0))) (diff_content d) (leaves_content (fs_leaves (sl_state st)))"
  shows "\<exists>fs ds lg. insertToDiffLog S d st = (None :: 'e sync_exn option, st\<lparr>sl_state := fs, sl_diffs := ds, sl_log := lg\<rparr>) \<and>
    fs_leaves fs = fs_leaves (sl_state st) \<and>
    log_ok S (Ms @ [fs_leaves (sl_state st)]) (st\<lparr>sl_state := fs, sl_diffs := ds, sl_log := lg\<rparr>) \<and>
    (\<forall>b\<in>set (sl_log st0). ds_digest (ds ! b) = ds_digest (sl_diffs st0 ! b) \<and>
       (same_digest (compute_digest S (fs_leaves (sl_state st))) (ds ! b) \<or> b \<in> set lg))"
proof -
  let ?root = "compute_digest S (fs_leaves (sl_state st))" and ?n = "length Ms"
  let ?Ms = "Ms @ [fs_leaves (sl_state st)]"
  define ds where "ds = linked (sl_log st) (sl_diffs st @ [d\<lparr>ds_digest := Some ?root\<rparr>]) (length (sl_diffs st))"
  define keep where "keep b \<longleftrightarrow> \<not> same_digest ?root (ds ! b)" for b
  obtain fs where r: "insertToDiffLog S d st = (None :: 'e sync_exn option, st\<lparr>sl_state := fs, sl_diffs := ds,
      sl_log := length (sl_diffs st) # filter keep (sl_log st)\<rparr>)" "fs_leaves fs = fs_leaves (sl_state st)" "full_wf S fs"
    using insert_result [OF S wf(1), where d = d and 'e = 'e] unfolding ds_def [symmetric] keep_def [abs_def, symmetric] by auto
  have n: "length (sl_diffs st) = ?n" using ok same by (simp add: log_ok_def)
  have ds: "ds ! i = (if i = ?n then d\<lparr>ds_digest := Some ?root\<rparr>
      else if Suc i = ?n then (sl_diffs st0 ! i)\<lparr>ds_next := Some ?n\<rparr> else sl_diffs st0 ! i)" if "i \<le> ?n" for i
  proof (cases "Ms = []")
    case True
    then show ?thesis using ok same that n by (simp add: ds_def linked_def log_ok_def)
  next
    case False
    then have "sl_log st \<noteq> []" "hd (sl_log st) = ?n - 1" using ok same by (simp_all add: log_ok_def)
    moreover have "?n - Suc 0 \<noteq> ?n" using False by (cases Ms) simp_all
    ultimately show ?thesis using that n same
      by (auto simp: ds_def linked_def nth_append nth_list_update)
  qed
  have len: "length ds = Suc ?n" using n by (simp add: ds_def linked_def)
  have nodes: "node_ok S ?Ms ds i" if i: "i < Suc ?n" for i
  proof -
    consider "i = ?n" | "Suc i = ?n" | "Suc i < ?n" using i by linarith
    then show ?thesis
    proof cases
      case 1
      then show ?thesis using wf by (simp add: node_ok_def ds diff_wf_def)
    next
      case 2
      then have i': "i = ?n - Suc 0" by simp
      have old: "node_ok S Ms (sl_diffs st0) i" and l: "Ms ! i = fs_leaves (sl_state st0)"
        using 2 ok unfolding i' by (auto simp: log_ok_def last_conv_nth split: if_splits)
      have "diff_content (ds ! Suc i) = diff_content d" "diff_wf (ds ! i) = diff_wf (sl_diffs st0 ! i)"
        "ds_digest (ds ! i) = ds_digest (sl_diffs st0 ! i)" "ds_next (ds ! i) = Some ?n"
        using 2 by (simp_all add: ds diff_content_def diff_wf_def fun_eq_iff)
      then show ?thesis using 2 old l grow by (simp add: node_ok_def nth_append)
    next
      case 3
      then have old: "node_ok S Ms (sl_diffs st0) i" using ok by (simp add: log_ok_def)
      have "ds ! i = sl_diffs st0 ! i" "diff_content (ds ! Suc i) = diff_content (sl_diffs st0 ! Suc i)"
        using 3 by (simp_all add: ds diff_content_def fun_eq_iff)
      then show ?thesis using 3 old by (simp add: node_ok_def nth_append)
    qed
  qed
  have "\<forall>a\<in>set (sl_log st). a < ?n" using ok same by (simp add: log_ok_def)
  then have "log_ok S ?Ms (st\<lparr>sl_state := fs, sl_diffs := ds, sl_log := length (sl_diffs st) # filter keep (sl_log st)\<rparr>)"
    using r nodes len n by (auto simp: log_ok_def less_Suc_eq)
  moreover have "ds_digest (ds ! b) = ds_digest (sl_diffs st0 ! b) \<and> (same_digest ?root (ds ! b) \<or> b \<in> set (length (sl_diffs st) # filter keep (sl_log st)))"
    if "b \<in> set (sl_log st0)" for b
  proof -
    have "b < ?n" using that ok by (simp add: log_ok_def)
    then show ?thesis using that same(2) by (auto simp: ds keep_def)
  qed
  ultimately show ?thesis using r by blast
qed

section \<open>Receiving a difference\<close>

text \<open>What the application is told about a leaf: the numbers after the one it knew.\<close>

definition missing_of :: "sync_map \<Rightarrow> diff_leaf \<Rightarrow> missing_data" where
  "missing_of m l = \<lparr>md_prefix = lf_info l,
     md_low = (case m (lf_info l) of None \<Rightarrow> seqno (sn_session (lf_seq l)) 0 | Some (x, q) \<Rightarrow> seqno x (q + 1)),
     md_high = lf_seq l\<rparr>"

definition told :: "sync_map \<Rightarrow> diff_leaf list \<Rightarrow> missing_data list" where
  "told m ls = map (missing_of m) (filter (\<lambda>l. ahead m (lf_info l) (pair_of (lf_seq l)) \<and> lf_info l \<noteq> forwarderPrefix) ls)"

definition only_updates :: "diff_leaf list \<Rightarrow> bool" where
  "only_updates ls \<longleftrightarrow> (\<forall>l\<in>set ls. dl_op l = UPDATE)"

text \<open>The leaves of a full state have valid numbers.\<close>

definition seqs_valid :: "full_state \<Rightarrow> bool" where
  "seqs_valid fs \<longleftrightarrow> (\<forall>l\<in>set (fs_leaves fs). sn_valid (lf_seq l))"

lemma leaf_found: "leaf_find n ls = Some l \<Longrightarrow> l \<in> set ls \<and> lf_info l = n"
  unfolding leaf_find_def by (rule by_key_SomeD)

lemma full_update_result:
  assumes "full_wf S fs"
  shows "fst (full_update S now n q fs) = (case leaf_find n (fs_leaves fs) of
      None \<Rightarrow> (True, False, seqno_none)
    | Some l \<Rightarrow> if ahead (leaves_content (fs_leaves fs)) n (pair_of q) then (False, True, lf_seq l) else (False, False, seqno_none))"
proof (cases "leaf_find n (fs_leaves fs)")
  case (Some l)
  have "(pair_of (lf_seq l) = pair_of q \<or> pair_of q < pair_of (lf_seq l)) \<longleftrightarrow> \<not> pair_of (lf_seq l) < pair_of q"
    by auto
  then show ?thesis using Some by (simp add: full_update_def ahead_def leaves_content_def seqno_order)
qed (simp add: full_update_def)

lemma seqs_valid_update:
  assumes "seqs_valid fs" and "sn_valid q"
  shows "seqs_valid (snd (full_update S now n q fs))"
proof -
  have "\<forall>l\<in>set (leaf_insert (full_leaf_new S n q) (fs_leaves fs)). sn_valid (lf_seq l)"
    "\<forall>l\<in>set (update_first (\<lambda>x. lf_info x = n) (full_leaf_setSeq S q) (fs_leaves fs)). sn_valid (lf_seq l)"
    using assms set_leaf_insert [of "full_leaf_new S n q" "fs_leaves fs"]
      set_update_first [of "\<lambda>x. lf_info x = n" "full_leaf_setSeq S q" "fs_leaves fs"]
    by (fastforce simp: seqs_valid_def seqno_max_def)+
  then show ?thesis using assms(1) by (simp add: seqs_valid_def full_update_def Let_def split: option.split)
qed

lemma told_Nil [simp]: "told m [] = []"
  by (simp add: told_def)

lemma process_update_leaf:
  assumes wf: "full_wf S (sl_state st)" "diff_wf d" and valid: "seqs_valid (sl_state st)" and op: "dl_op l = UPDATE" "sn_valid (lf_seq l)"
    and branch: "\<not> sl_perBranch st"
  defines "m \<equiv> leaves_content (fs_leaves (sl_state st))"
  shows "\<exists>d' fs. process_leaf S L cb l (d, v, st) =
      (None :: 'e sync_exn option, d', v @ told m [l], st\<lparr>sl_state := fs\<rparr>) \<and> full_wf S fs \<and> seqs_valid fs \<and> diff_wf d' \<and>
    ds_next d' = ds_next d \<and>
    (\<forall>m0. grows m0 (diff_content d) m \<longrightarrow> grows m0 (diff_content d') (leaves_content (fs_leaves fs))) \<and>
    leaves_content (fs_leaves fs) = m(lf_info l \<mapsto> newest (m (lf_info l)) (lf_seq l))"
proof -
  let ?now = "io_system_now (sl_io st)" and ?n = "lf_info l" and ?q = "lf_seq l"
  define fs where "fs = snd (full_update S ?now ?n ?q (sl_state st))"
  have fs: "full_wf S fs" "leaves_content (fs_leaves fs) = m(?n \<mapsto> newest (m ?n) ?q)"
    using wf(1) by (simp_all add: fs_def content_full_update m_def)
  have u: "full_update S ?now ?n ?q (sl_state st) = ((case leaf_find ?n (fs_leaves (sl_state st)) of
      None \<Rightarrow> (True, False, seqno_none)
    | Some l \<Rightarrow> if ahead m ?n (pair_of ?q) then (False, True, lf_seq l) else (False, False, seqno_none)), fs)"
    unfolding full_update_result [OF wf(1), of ?now ?n ?q, symmetric] m_def fs_def by simp
  have fs_valid: "seqs_valid fs" unfolding fs_def by (rule seqs_valid_update [OF valid op(2)])
  show ?thesis
  proof (cases "ahead m ?n (pair_of ?q)")
    case True
    have grow: "grows m [?n \<mapsto> Some (pair_of ?q)] (leaves_content (fs_leaves fs))"
      using True by (intro grows_single) (auto simp: fs ahead_def newest_def max_def split: option.splits)
    have "process_leaf S L cb l (d, v, st) =
        (None :: 'e sync_exn option, diff_update ?n ?q d, v @ told m [l], st\<lparr>sl_state := fs\<rparr>)"
    proof (cases "leaf_find ?n (fs_leaves (sl_state st))")
      case None
      then have "full_update S ?now ?n ?q (sl_state st) = ((True, False, seqno_none), fs)" and "m ?n = None"
        using u by (simp_all add: m_def leaves_content_def)
      then show ?thesis using True op branch
        by (simp add: process_leaf_def told_def missing_of_def seqno_none_def Let_def)
    next
      case (Some x)
      then have "full_update S ?now ?n ?q (sl_state st) = ((False, True, lf_seq x), fs)" and "m ?n = Some (pair_of (lf_seq x))"
        and "sn_valid (lf_seq x)"
        using u True valid by (auto simp: m_def leaves_content_def seqs_valid_def dest: leaf_found)
      then show ?thesis using True op branch
        by (simp add: process_leaf_def told_def missing_of_def seqno_incr_def pair_of_def Let_def) (simp add: seqno_def)
    qed
    moreover have "ds_next (diff_update ?n ?q d) = ds_next d" by (simp add: diff_update_def)
    moreover have "grows m0 (diff_content (diff_update ?n ?q d)) (leaves_content (fs_leaves fs))"
      if "grows m0 (diff_content d) m" for m0
      using grows_chain [OF that grow] wf(2) by (simp add: diff_content_ops)
    ultimately show ?thesis using fs fs_valid wf by (intro exI conjI) (assumption, simp_all)
  next
    case False
    then have "newest (m ?n) ?q = the (m ?n)" "m ?n \<noteq> None"
      by (auto simp: ahead_def newest_def max_def split: option.splits)
    then have same: "leaves_content (fs_leaves fs) = m" by (auto simp: fs fun_upd_idem)
    have "process_leaf S L cb l (d, v, st) = (None :: 'e sync_exn option, d, v @ told m [l], st\<lparr>sl_state := fs\<rparr>)"
    proof -
      have "full_update S ?now ?n ?q (sl_state st) = ((False, False, seqno_none), fs)"
        using u False \<open>m ?n \<noteq> None\<close> by (auto simp: m_def leaves_content_def split: option.splits)
      then show ?thesis using False op by (simp add: process_leaf_def told_def)
    qed
    then show ?thesis using fs fs_valid wf same by (intro exI conjI) (assumption, simp_all)
  qed
qed

lemma told_Cons: "told m (l # ls) = told m [l] @ told m ls"
  by (simp add: told_def)

lemma told_other:
  assumes "lf_info l \<notin> lf_info ` set ls"
  shows "told (m(lf_info l := x)) ls = told m ls"
proof -
  have "k \<in> set ls \<Longrightarrow> (m(lf_info l := x)) (lf_info k) = m (lf_info k)" for k
    using assms by (cases "lf_info k = lf_info l") force+
  then show ?thesis
    unfolding told_def by (intro map_cong filter_cong refl) (auto simp: ahead_def missing_of_def)
qed

lemma process_update_leaves:
  assumes "full_wf S (sl_state st)" and "diff_wf d" and "seqs_valid (sl_state st)" and "only_updates ls"
    and "\<forall>l\<in>set ls. sn_valid (lf_seq l)" and "\<not> sl_perBranch st" and "distinct (map lf_info ls)"
  shows "\<exists>d' fs. process_leaves S L cb ls (d, v, st) = (None :: 'e sync_exn option,
      d', v @ told (leaves_content (fs_leaves (sl_state st))) ls, st\<lparr>sl_state := fs\<rparr>) \<and>
    full_wf S fs \<and> seqs_valid fs \<and> diff_wf d' \<and> ds_next d' = ds_next d \<and>
    (\<forall>m0. grows m0 (diff_content d) (leaves_content (fs_leaves (sl_state st))) \<longrightarrow>
       grows m0 (diff_content d') (leaves_content (fs_leaves fs))) \<and>
    (\<forall>n. leaves_content (fs_leaves fs) n = changed newest None (leaves_content (fs_leaves (sl_state st)) n) (leaf_find n ls))"
  using assms
proof (induction ls arbitrary: d v st)
  case Nil
  have "st\<lparr>sl_state := sl_state st\<rparr> = st" by simp
  then show ?case using Nil.prems by (intro exI [of _ d] exI [of _ "sl_state st"]) (simp add: leaf_find_def)
next
  case (Cons l ls)
  let ?m = "leaves_content (fs_leaves (sl_state st))"
  have l: "dl_op l = UPDATE" "sn_valid (lf_seq l)" "lf_info l \<notin> lf_info ` set ls" and ls: "only_updates ls" "distinct (map lf_info ls)"
    using Cons.prems(4,5,7) by (simp_all add: only_updates_def)
  obtain d1 fs1 where one: "process_leaf S L cb l (d, v, st) = (None :: 'e sync_exn option, d1, v @ told ?m [l], st\<lparr>sl_state := fs1\<rparr>)"
      "full_wf S fs1" "seqs_valid fs1" "diff_wf d1" "ds_next d1 = ds_next d"
      "\<And>m0. grows m0 (diff_content d) ?m \<Longrightarrow> grows m0 (diff_content d1) (leaves_content (fs_leaves fs1))"
      "leaves_content (fs_leaves fs1) = ?m(lf_info l \<mapsto> newest (?m (lf_info l)) (lf_seq l))"
    using process_update_leaf [OF Cons.prems(1-3) l(1,2) Cons.prems(6), of L cb v] by blast
  let ?m1 = "leaves_content (fs_leaves fs1)"
  have t: "told ?m1 ls = told ?m ls" unfolding one(7) by (rule told_other [OF l(3)])
  let ?st = "st\<lparr>sl_state := fs1\<rparr>"
  have "full_wf S (sl_state ?st)" "seqs_valid (sl_state ?st)" "\<forall>l\<in>set ls. sn_valid (lf_seq l)" "\<not> sl_perBranch ?st"
    using one(2,3) Cons.prems(5,6) by simp_all
  note prem = this
  have e: "sl_state ?st = fs1" "\<And>fs. ?st\<lparr>sl_state := fs\<rparr> = st\<lparr>sl_state := fs\<rparr>" by simp_all
  note IH = Cons.IH [OF prem(1) one(4) prem(2) ls(1) prem(3,4) ls(2), of "v @ told ?m [l]"]
  obtain d2 fs2 where rest: "process_leaves S L cb ls (d1, v @ told ?m [l], st\<lparr>sl_state := fs1\<rparr>) = (None :: 'e sync_exn option,
      d2, (v @ told ?m [l]) @ told ?m1 ls, st\<lparr>sl_state := fs2\<rparr>)"
      "full_wf S fs2" "seqs_valid fs2" "diff_wf d2" "ds_next d2 = ds_next d1"
      "\<And>m0. grows m0 (diff_content d1) ?m1 \<Longrightarrow> grows m0 (diff_content d2) (leaves_content (fs_leaves fs2))"
      "\<And>n. leaves_content (fs_leaves fs2) n = changed newest None (?m1 n) (leaf_find n ls)"
    using IH unfolding e by blast
  have "leaf_find (lf_info l) ls = None" using l(3) by (simp add: leaf_find_None)
  then have "leaves_content (fs_leaves fs2) n = changed newest None (?m n) (leaf_find n (l # ls))" for n
    using rest(7) [of n] l(1) by (auto simp: one(7) leaf_find_def changed_def)
  moreover have "\<forall>m0. grows m0 (diff_content d) ?m \<longrightarrow> grows m0 (diff_content d2) (leaves_content (fs_leaves fs2))"
    using one(6) rest(6) by blast
  moreover have "process_leaves S L cb (l # ls) (d, v, st) = (None :: 'e sync_exn option, d2, v @ told ?m (l # ls), st\<lparr>sl_state := fs2\<rparr>)"
    using one(1) rest(1) t by (simp add: told_Cons [of _ l ls])
  moreover have "ds_next d2 = ds_next d" using rest(5) one(5) by simp
  ultimately show ?case using rest(2-4) by blast
qed

end

