(* ===== verification/Sync_Runs.thy ===== *)
theory Sync_Runs
  imports Sync_Convergence
begin

text \<open>
  The runs of a \<open>SyncLogic\<close> that publishes growing numbers and receives no removals, and that
  the log of differences is right in all of them.
\<close>

section \<open>Functions that change neither state nor log\<close>

definition quiet :: "sync_lib \<Rightarrow> 'a sync_logic \<Rightarrow> 'a sync_logic \<Rightarrow> bool" where
  "quiet S st st' \<longleftrightarrow> sl_diffs st' = sl_diffs st \<and> sl_log st' = sl_log st \<and>
     fs_leaves (sl_state st') = fs_leaves (sl_state st) \<and> (full_wf S (sl_state st) \<longrightarrow> full_wf S (sl_state st')) \<and>
     sl_perBranch st' = sl_perBranch st \<and> sl_syncPrefix st' = sl_syncPrefix st"

lemma quiet_refl [simp]: "quiet S st st"
  by (simp add: quiet_def)

lemma quiet_trans: "quiet S a b \<Longrightarrow> quiet S b c \<Longrightarrow> quiet S a c"
  by (simp add: quiet_def)

text \<open>Changes of the other fields.\<close>

lemma quiet_fields [simp]:
  "quiet S st (st'\<lparr>sl_io := io\<rparr>) = quiet S st st'" "quiet S st (st'\<lparr>sl_table := t\<rparr>) = quiet S st st'"
  "quiet S st (st'\<lparr>sl_outstanding := n\<rparr>) = quiet S st st'" "quiet S st (st'\<lparr>sl_rng := g\<rparr>) = quiet S st st'"
  "quiet S st (st'\<lparr>sl_stats := p\<rparr>) = quiet S st st'" "quiet S st (st'\<lparr>sl_interval := w\<rparr>) = quiet S st st'"
  "quiet S st (st'\<lparr>sl_delayedId := i\<rparr>) = quiet S st st'" "quiet S st (st'\<lparr>sl_reexpressingId := i\<rparr>) = quiet S st st'"
  "quiet S st (st'\<lparr>sl_recoveryId := i\<rparr>) = quiet S st st'" "quiet S st (st'\<lparr>sl_app := a\<rparr>) = quiet S st st'"
  by (simp_all add: quiet_def)

lemma quiet_io [simp]: "quiet S st (on_sync_io f st') = quiet S st st'" "quiet S st (sync_stat p st') = quiet S st st'"
  by (simp_all add: on_sync_io_def sync_stat_def)

lemma quiet_draw [simp]: "quiet S st (snd (draw T lo hi st')) = quiet S st st'"
  by (simp add: draw_def case_prod_beta)

lemma quiet_random [simp]:
  "quiet S st (snd (reexpressionJitter T st')) = quiet S st st'" "quiet S st (snd (rangeUniformRandom T st')) = quiet S st st'"
  by (simp_all add: reexpressionJitter_def rangeUniformRandom_def)

lemma quiet_root [simp]: "quiet S st (snd (rootDigest S st')) = quiet S st st'"
proof -
  have "quiet S st' (snd (rootDigest S st'))"
    by (auto simp: quiet_def rootDigest_def full_getDigest_def full_wf_def Let_def split: option.split)
  moreover have "quiet S (snd (rootDigest S st')) st'"
    by (auto simp: quiet_def rootDigest_def full_getDigest_def full_wf_def Let_def split: option.split)
  ultimately show ?thesis using quiet_trans by blast
qed

lemma quiet_reexpress [simp]: "quiet S st (reexpressAfter T b st') = quiet S st st'"
  by (simp add: reexpressAfter_def Let_def case_prod_beta)

lemma quiet_send [simp]: "quiet S st (sendSyncData T n d m st') = quiet S st st'"
  by (simp add: sendSyncData_def Let_def)

lemma quiet_with_value:
  "quiet S st s \<Longrightarrow> (\<And>v. r = Inr v \<Longrightarrow> quiet S st (snd (f v))) \<Longrightarrow> quiet S st (snd (with_value r s f))"
  by (cases r) simp_all

lemma quiet_next:
  "quiet S st (snd r) \<Longrightarrow> (\<And>s. quiet S st s \<Longrightarrow> quiet S st (snd (f s))) \<Longrightarrow> quiet S st (snd (and_next r f))"
  by (cases r; cases "fst r") auto

lemma quiet_interests [simp]:
  "quiet S st st' \<Longrightarrow> quiet S st (snd (sendSyncInterest S st'))"
  "quiet S st st' \<Longrightarrow> quiet S st (snd (sendSyncRecoveryInterests S d st'))"
  unfolding sendSyncInterest_def sendSyncRecoveryInterests_def Let_def case_prod_beta
  by (auto intro!: quiet_with_value)

lemma quiet_option:
  "quiet S st (snd a) \<Longrightarrow> (\<And>v. quiet S st (snd (f v))) \<Longrightarrow> quiet S st (snd (case r of None \<Rightarrow> a | Some v \<Rightarrow> f v))"
  by (cases r) simp_all

lemma quiet_if: "quiet S st (snd a) \<Longrightarrow> quiet S st (snd b) \<Longrightarrow> quiet S st (snd (if c then a else b))"
  by simp

lemma quiet_sum:
  "(\<And>e. quiet S st (snd (f e))) \<Longrightarrow> (\<And>v. quiet S st (snd (g v))) \<Longrightarrow>
   quiet S st (snd (case x of Inl e \<Rightarrow> f e | Inr v \<Rightarrow> g v))"
  by (cases x) simp_all

lemma quiet_processInterest:
  assumes "quiet S st st'"
  shows "quiet S st (snd (processSyncInterest S L n d b st'))"
    and "quiet S st (snd (processSyncRecoveryInterest S n d st'))"
proof -
  show "quiet S st (snd (processSyncInterest S L n d b st'))"
    unfolding processSyncInterest_def Let_def case_prod_beta
    by (intro quiet_with_value quiet_if quiet_option quiet_sum quiet_interests) (simp_all add: assms)
  show "quiet S st (snd (processSyncRecoveryInterest S n d st'))"
    unfolding processSyncRecoveryInterest_def
    by (intro quiet_with_value quiet_option) (simp_all add: assms)
qed

lemma quiet_satisfy_loop:
  "quiet S st st' \<Longrightarrow> quiet S st (snd (satisfy_loop k T L d e st'))"
proof (induction k arbitrary: st')
  case (Suc k)
  then show ?case
    unfolding satisfy_loop.simps Let_def case_prod_beta
    by (intro quiet_if quiet_with_value quiet_option) simp_all
qed simp

lemma quiet_handler:
  "quiet S st (snd r) \<Longrightarrow> quiet S st (snd (case r of (Some InterestTableIsEmpty, s) \<Rightarrow> (None, s) | r \<Rightarrow> r))"
  "quiet S st (snd (catch_digest_error r)) = quiet S st (snd r)"
  unfolding catch_digest_error_def by (cases r; cases "fst r"; cases "the (fst r)"; auto)+

lemma quiet_satisfy: "quiet S st st' \<Longrightarrow> quiet S st (snd (satisfyPendingSyncInterests T L d st'))"
  unfolding satisfyPendingSyncInterests_def by (intro quiet_handler(1) quiet_satisfy_loop)

lemma quiet_onSyncInterest: "quiet S st (snd (onSyncInterest S L n st))"
  unfolding onSyncInterest_def quiet_handler(2)
  by (auto intro!: quiet_with_value quiet_next quiet_processInterest)

lemma quiet_event: "quiet S st (snd (run_sync_event S L ev st))"
  by (cases ev) (simp_all add: quiet_processInterest expireInterests_def Let_def)

section \<open>The log stays right\<close>

definition sync_ok :: "sync_lib \<Rightarrow> full_leaf list list \<Rightarrow> 'a sync_logic \<Rightarrow> bool" where
  "sync_ok S Ms st \<longleftrightarrow> log_ok S Ms st \<and> seqs_valid (sl_state st) \<and> \<not> sl_perBranch st"

abbreviation content_of :: "'a sync_logic \<Rightarrow> sync_map" where
  "content_of st \<equiv> leaves_content (fs_leaves (sl_state st))"

lemma sync_ok_quiet: "quiet S st st' \<Longrightarrow> sync_ok S Ms st \<Longrightarrow> sync_ok S Ms st'"
  by (auto simp: quiet_def sync_ok_def log_ok_def seqs_valid_def)

lemma sync_ok_new: "sync_ok S [] (sync_logic_new False pfx stats seed io app)"
  by (simp add: sync_ok_def log_ok_def sync_logic_new_def Let_def case_prod_beta seqs_valid_def full_state_new_def full_wf_def)

lemma insert_log_ok:
  assumes S: "hash_ok S" and ok: "sync_ok S Ms st0" and same: "sl_diffs st = sl_diffs st0" "sl_log st = sl_log st0"
    and wf: "full_wf S (sl_state st)" "seqs_valid (sl_state st)" "diff_wf d" "ds_next d = None" "\<not> sl_perBranch st"
    and grow: "grows (content_of st0) (diff_content d) (content_of st)"
  shows "\<exists>st'. insertToDiffLog S d st = (None :: 'e sync_exn option, st') \<and> sync_ok S (Ms @ [fs_leaves (sl_state st)]) st' \<and>
    fs_leaves (sl_state st') = fs_leaves (sl_state st) \<and> sl_app st' = sl_app st \<and> sl_io st' = sl_io st \<and>
    sl_syncPrefix st' = sl_syncPrefix st \<and>
    (\<forall>b\<in>set (sl_log st0). ds_digest (sl_diffs st' ! b) = ds_digest (sl_diffs st0 ! b) \<and>
       (same_digest (compute_digest S (fs_leaves (sl_state st))) (sl_diffs st' ! b) \<or> b \<in> set (sl_log st')))"
proof -
  have "log_ok S Ms st0" using ok by (simp add: sync_ok_def)
  from log_ok_insert [OF S this same wf(1,3,4) grow] obtain fs ds lg
    where r: "insertToDiffLog S d st = (None :: 'e sync_exn option, st\<lparr>sl_state := fs, sl_diffs := ds, sl_log := lg\<rparr>)"
      "fs_leaves fs = fs_leaves (sl_state st)"
      "log_ok S (Ms @ [fs_leaves (sl_state st)]) (st\<lparr>sl_state := fs, sl_diffs := ds, sl_log := lg\<rparr>)"
      "\<forall>b\<in>set (sl_log st0). ds_digest (ds ! b) = ds_digest (sl_diffs st0 ! b) \<and>
       (same_digest (compute_digest S (fs_leaves (sl_state st))) (ds ! b) \<or> b \<in> set lg)"
    by blast
  then have "sync_ok S (Ms @ [fs_leaves (sl_state st)]) (st\<lparr>sl_state := fs, sl_diffs := ds, sl_log := lg\<rparr>)"
    using wf(2,5) by (simp add: sync_ok_def seqs_valid_def)
  with r show ?thesis by simp
qed

text \<open>A number of its own.\<close>

lemma published_ok:
  assumes S: "hash_ok S" and ok: "sync_ok S Ms st" and new: "ahead (content_of st) (toUri L p) (x, q)"
  defines "r \<equiv> addLocalNames S L p x q st :: ('e sync_exn, 'a sync_logic) outcome"
  shows "sync_ok S (Ms @ [fs_leaves (sl_state (snd r))]) (snd r)"
    and "content_of (snd r) = (content_of st)(toUri L p \<mapsto> (x, q))" and "sl_syncPrefix (snd r) = sl_syncPrefix st"
    and "b \<in> set (sl_log st) \<Longrightarrow> ds_digest (sl_diffs (snd r) ! b) = ds_digest (sl_diffs st ! b) \<and>
      (same_digest (compute_digest S (fs_leaves (sl_state (snd r)))) (sl_diffs (snd r) ! b) \<or> b \<in> set (sl_log (snd r)))"
proof -
  let ?n = "toUri L p" and ?d = "diff_update (toUri L p) (seqno x q) diff_state_new"
  define fs where "fs = snd (full_update S (io_system_now (sl_io st)) ?n (seqno x q) (sl_state st))"
  let ?st = "st\<lparr>sl_state := fs\<rparr>"
  have st: "full_wf S (sl_state st)" "seqs_valid (sl_state st)" "\<not> sl_perBranch st"
    using ok by (simp_all add: sync_ok_def log_ok_def)
  have fs: "full_wf S fs" "seqs_valid fs" "leaves_content (fs_leaves fs) = (content_of st)(?n \<mapsto> (x, q))"
    using st(1) seqs_valid_update [OF st(2), of "seqno x q"] new
    by (auto simp: fs_def content_full_update newest_def ahead_def seqno_def max_def fun_eq_iff pair_of_def split: option.splits)
  have d: "diff_content ?d = [?n \<mapsto> Some (x, q)]" "diff_wf ?d" "ds_next ?d = None"
    by (simp_all add: diff_content_ops fun_eq_iff) (simp add: diff_update_def diff_state_new_def)
  have "grows (content_of st) (diff_content ?d) (content_of ?st)"
    unfolding d(1) using grows_single [OF new] fs(3) by simp
  then obtain st' where i: "insertToDiffLog S ?d ?st = (None :: 'e sync_exn option, st')"
      "sync_ok S (Ms @ [fs_leaves fs]) st'" "fs_leaves (sl_state st') = fs_leaves fs" "sl_syncPrefix st' = sl_syncPrefix st"
      "\<forall>b\<in>set (sl_log st). ds_digest (sl_diffs st' ! b) = ds_digest (sl_diffs st ! b) \<and>
         (same_digest (compute_digest S (fs_leaves fs)) (sl_diffs st' ! b) \<or> b \<in> set (sl_log st'))"
    using insert_log_ok [OF S ok, of ?st ?d] fs(1,2) st(3) d(2,3) by auto
  have r: "r = satisfyPendingSyncInterests S L ?d st'"
    by (simp add: r_def addLocalNames_def Let_def fs_def [symmetric] i(1))
  have q: "quiet S st' (snd r)" unfolding r by (rule quiet_satisfy) simp
  then have l: "fs_leaves (sl_state (snd r)) = fs_leaves fs" using i(3) by (simp add: quiet_def)
  show "sl_syncPrefix (snd r) = sl_syncPrefix st" using q i(4) by (simp add: quiet_def)
  show "b \<in> set (sl_log st) \<Longrightarrow> ds_digest (sl_diffs (snd r) ! b) = ds_digest (sl_diffs st ! b) \<and>
      (same_digest (compute_digest S (fs_leaves (sl_state (snd r)))) (sl_diffs (snd r) ! b) \<or> b \<in> set (sl_log (snd r)))"
    using q i(5) l by (simp add: quiet_def)
  from l sync_ok_quiet [OF q i(2)] fs(3) show "sync_ok S (Ms @ [fs_leaves (sl_state (snd r))]) (snd r)"
    "content_of (snd r) = (content_of st)(?n \<mapsto> (x, q))" by simp_all
qed

text \<open>A difference of others.\<close>

definition leaves_valid :: "diff_state \<Rightarrow> bool" where
  "leaves_valid d \<longleftrightarrow> (\<forall>l\<in>set (ds_leaves d). sn_valid (lf_seq l))"

lemma leaves_valid_ops:
  assumes "leaves_valid d"
  shows "leaves_valid (diff_update n (seqno x q) d)" and "leaves_valid (diff_remove n d)"
proof -
  have h: "\<forall>l\<in>set (leaf_insert x (leaf_erase n (ds_leaves d))). sn_valid (lf_seq l)" if "sn_valid (lf_seq x)" for x :: diff_leaf
    using that assms set_leaf_insert [of x "leaf_erase n (ds_leaves d)"]
    unfolding leaves_valid_def leaf_erase_def by fastforce
  have "sn_valid (lf_seq (diff_leaf_update n (seqno x q)))" "sn_valid (lf_seq (diff_leaf_remove n))"
    by (simp_all add: diff_leaf_update_def diff_leaf_remove_def seqno_def)
  from this [THEN h] show "leaves_valid (diff_update n (seqno x q) d)" "leaves_valid (diff_remove n d)"
    by (simp_all add: leaves_valid_def diff_update_def diff_remove_def)
qed

lemma read_valid: "leaves_valid d \<Longrightarrow> leaves_valid (read_message m d)"
proof (induction m arbitrary: d)
  case (Cons i m)
  have "leaves_valid (read_message [i] d)"
    using leaves_valid_ops [OF Cons.prems] by (auto simp: read_message_def split: option.split)
  from Cons.IH [OF this] show ?case by (simp add: read_message_def)
qed (simp add: read_message_def)

lemma read_new:
  "diff_wf (read_message m diff_state_new)" "\<forall>l\<in>set (ds_leaves (read_message m diff_state_new)). sn_valid (lf_seq l)"
proof -
  have "leaves_valid diff_state_new" by (simp add: leaves_valid_def diff_state_new_def)
  from read_valid [OF this, of m] show "\<forall>l\<in>set (ds_leaves (read_message m diff_state_new)). sn_valid (lf_seq l)"
    by (simp add: leaves_valid_def)
qed simp

definition update_only :: "sync_state_msg \<Rightarrow> bool" where
  "update_only m \<longleftrightarrow> only_updates (ds_leaves (read_message m diff_state_new))"

lemma received_ok:
  fixes st :: "'a sync_logic" and cb :: "('a, 'e) callbacks" and L n
  assumes S: "hash_ok S" and ok: "sync_ok S Ms st" and m: "sy_parse S w = Some m" "update_only m"
  defines "r \<equiv> processSyncData S L cb n w st" and "v \<equiv> told (content_of st) (ds_leaves (read_message m diff_state_new))"
  defines "app \<equiv> if v = [] then Inr (sl_app st) else cb_update cb v (sl_app st)"
  shows "fst r = (case app of Inl e \<Rightarrow> Some (Callback e) | Inr _ \<Rightarrow> None)"
    and "content_of (snd r) = change_of (diff_content (read_message m diff_state_new)) (content_of st)"
    and "app = Inr a \<Longrightarrow> sync_ok S (Ms @ [fs_leaves (sl_state (snd r))]) (snd r)"
    and "app = Inr a \<Longrightarrow> sl_app (snd r) = a"
    and "sl_syncPrefix (snd r) = sl_syncPrefix st" and "full_wf S (sl_state (snd r))"
proof -
  let ?D = "read_message m diff_state_new"
  define st1 where "st1 = st\<lparr>sl_table := snd (table_removeName (toUri L n) (sl_table st))\<rparr>"
  have st: "full_wf S (sl_state st)" "seqs_valid (sl_state st)" "\<not> sl_perBranch st"
    using ok by (simp_all add: sync_ok_def log_ok_def)
  have st1: "sl_state st1 = sl_state st" "sl_perBranch st1 = sl_perBranch st" "sl_diffs st1 = sl_diffs st"
    "sl_log st1 = sl_log st" "sl_app st1 = sl_app st" "sl_syncPrefix st1 = sl_syncPrefix st"
    by (simp_all add: st1_def)
  have d0: "diff_wf diff_state_new" "ds_next diff_state_new = None" "diff_content diff_state_new = (\<lambda>_. None)"
    by (simp_all add: diff_state_new_def diff_wf_def fun_eq_iff diff_content_def leaf_find_def)
  have "distinct (map lf_info (ds_leaves ?D))" using read_new(1) by (simp add: diff_wf_def leaves_wf_def)
  with process_update_leaves [of S st1 diff_state_new "ds_leaves ?D" L cb "[]"] st m(2) read_new(2) d0(1)
  obtain d fs where p: "process_leaves S L cb (ds_leaves ?D) (diff_state_new, [], st1) = (None :: 'e sync_exn option, d, v, st1\<lparr>sl_state := fs\<rparr>)"
      "full_wf S fs" "seqs_valid fs" "diff_wf d" "ds_next d = None"
      "\<And>m0. grows m0 (\<lambda>_. None) (content_of st) \<Longrightarrow> grows m0 (diff_content d) (leaves_content (fs_leaves fs))"
      "\<And>n. leaves_content (fs_leaves fs) n = changed newest None (content_of st n) (leaf_find n (ds_leaves ?D))"
    unfolding st1 d0 update_only_def v_def by auto
  have content: "leaves_content (fs_leaves fs) = change_of (diff_content ?D) (content_of st)"
    by (auto simp: fun_eq_iff p(7) changed_def change_of_def diff_content_def newest_def split: option.split operation.split)
  have grow: "grows (content_of st) (diff_content d) (leaves_content (fs_leaves fs))" by (rule p(6)) simp
  let ?st = "st1\<lparr>sl_state := fs\<rparr>"
  have r: "r = and_next (if v \<noteq> [] then call_back (cb_update cb v) ?st else (None, ?st)) (\<lambda>s.
      and_next (insertToDiffLog S d s) (\<lambda>s. (None, stateChanged S (length (ds_leaves d) > 0 \<or> n = sl_outstanding st) s)))"
    using st(3) p(1) m(1) by (simp add: r_def processSyncData_def Let_def st1_def [symmetric] st1(2))
      (simp add: st1_def)
  have ins: "\<exists>st'. insertToDiffLog S d (?st\<lparr>sl_app := a\<rparr>) = (None :: 'e sync_exn option, st') \<and>
      sync_ok S (Ms @ [fs_leaves fs]) st' \<and> fs_leaves (sl_state st') = fs_leaves fs \<and> sl_app st' = a \<and> sl_syncPrefix st' = sl_syncPrefix st" for a
    using insert_log_ok [OF S ok, of "?st\<lparr>sl_app := a\<rparr>" d] p(2-5) grow st(3) st1 by auto
  have same: "?st\<lparr>sl_app := sl_app st\<rparr> = ?st" using st1(5) by simp
  have first: "(if v \<noteq> [] then call_back (cb_update cb v) ?st else (None, ?st)) =
      (case app of Inl e \<Rightarrow> (Some (Callback e), ?st) | Inr a \<Rightarrow> (None, ?st\<lparr>sl_app := a\<rparr>))"
    using st1(5) same by (auto simp: app_def call_back_def split: sum.split)
  have out: "fst r = (case app of Inl e \<Rightarrow> Some (Callback e) | Inr _ \<Rightarrow> None) \<and>
    content_of (snd r) = change_of (diff_content ?D) (content_of st) \<and>
    (app = Inr a \<longrightarrow> sync_ok S (Ms @ [fs_leaves (sl_state (snd r))]) (snd r) \<and> sl_app (snd r) = a) \<and>
    sl_syncPrefix (snd r) = sl_syncPrefix st \<and> full_wf S (sl_state (snd r))"
  proof (cases app)
    case (Inl e)
    then have "r = (Some (Callback e), ?st)" unfolding r first by simp
    with Inl content p(2) st1(6) show ?thesis by simp
  next
    case (Inr b)
    obtain st' where i: "insertToDiffLog S d (?st\<lparr>sl_app := b\<rparr>) = (None :: 'e sync_exn option, st')"
      "sync_ok S (Ms @ [fs_leaves fs]) st'" "fs_leaves (sl_state st') = fs_leaves fs" "sl_app st' = b" "sl_syncPrefix st' = sl_syncPrefix st"
      using ins by blast
    let ?c = "stateChanged S (length (ds_leaves d) > 0 \<or> n = sl_outstanding st) st'"
    have "r = (None, ?c)" unfolding r first using Inr i(1) by simp
    moreover have q: "quiet S st' ?c" and "sl_app ?c = sl_app st'"
      by (simp_all add: stateChanged_def reexpressAfter_def reexpressionJitter_def draw_def Let_def case_prod_beta)
    moreover have "fs_leaves (sl_state ?c) = fs_leaves fs" "sl_syncPrefix ?c = sl_syncPrefix st"
      using q i(3,5) by (simp_all add: quiet_def)
    moreover have "full_wf S (sl_state ?c)"
      using sync_ok_quiet [OF q i(2)] by (simp add: sync_ok_def log_ok_def)
    ultimately show ?thesis
      using Inr content sync_ok_quiet [OF q i(2)] i(4) by simp
  qed
  show "fst r = (case app of Inl e \<Rightarrow> Some (Callback e) | Inr _ \<Rightarrow> None)"
    "content_of (snd r) = change_of (diff_content ?D) (content_of st)"
    "app = Inr a \<Longrightarrow> sync_ok S (Ms @ [fs_leaves (sl_state (snd r))]) (snd r)"
    "app = Inr a \<Longrightarrow> sl_app (snd r) = a" "sl_syncPrefix (snd r) = sl_syncPrefix st" "full_wf S (sl_state (snd r))"
    using out by blast+
qed

section \<open>Runs\<close>

text \<open>
  What happens to a \<open>SyncLogic\<close> that can change: an own number that is newer than the one it has,
  Interests, Data without removals, timers; and time passes, and the application and the
  statistics are its own. No exception leaves the functions. The list collects the leaves
  after each entry of the log.
\<close>

inductive sync_run :: "sync_lib \<Rightarrow> ndn_lib \<Rightarrow> ('a, 'e) callbacks \<Rightarrow> full_leaf list list \<Rightarrow> 'a sync_logic \<Rightarrow> bool"
  for S :: sync_lib and L :: ndn_lib and cb :: "('a, 'e) callbacks" where
  created: "sync_run S L cb [] (sync_logic_new False pfx stats seed io app)"
| published: "sync_run S L cb Ms st \<Longrightarrow> ahead (content_of st) (toUri L p) (x, q) \<Longrightarrow>
    addLocalNames S L p x q st = (None :: 'e sync_exn option, st') \<Longrightarrow> sync_run S L cb (Ms @ [fs_leaves (sl_state st')]) st'"
| asked: "sync_run S L cb Ms st \<Longrightarrow> onSyncInterest S L n st = (None :: 'e sync_exn option, st') \<Longrightarrow> sync_run S L cb Ms st'"
| told_unreadable: "sync_run S L cb Ms st \<Longrightarrow> sy_parse S (data_content d) = None \<Longrightarrow>
    onSyncDataValidated S L cb d st = (None, st') \<Longrightarrow> sync_run S L cb Ms st'"
| told_nothing: "sync_run S L cb Ms st \<Longrightarrow>
    convertNameToDigestAndType L (sl_syncPrefix st) (data_name d) = (Inl e :: 'e sync_exn + digest \<times> string) \<Longrightarrow>
    onSyncDataValidated S L cb d st = (None, st') \<Longrightarrow> sync_run S L cb Ms st'"
| told_difference: "sync_run S L cb Ms st \<Longrightarrow>
    convertNameToDigestAndType L (sl_syncPrefix st) (data_name d) = (Inr y :: 'e sync_exn + digest \<times> string) \<Longrightarrow>
    sy_parse S (data_content d) = Some m \<Longrightarrow> update_only m \<Longrightarrow>
    onSyncDataValidated S L cb d st = (None, st') \<Longrightarrow> sync_run S L cb (Ms @ [fs_leaves (sl_state st')]) st'"
| timer: "sync_run S L cb Ms st \<Longrightarrow> run_sync_event S L ev st = (None :: 'e sync_exn option, st') \<Longrightarrow> sync_run S L cb Ms st'"
| outside: "sync_run S L cb Ms st \<Longrightarrow> sync_run S L cb Ms (st\<lparr>sl_io := io, sl_app := app, sl_stats := stats\<rparr>)"

lemma catch_None:
  "catch_digest_error r = (None, s) \<longleftrightarrow> r = (None, s) \<or> r = (Some DigestCalculationError, s)"
  unfolding catch_digest_error_def by (cases r; cases "fst r"; cases "the (fst r)"; auto)

lemma next_stat:
  "and_next r (\<lambda>st. (None, sync_stat p st)) = (e, s) \<longleftrightarrow>
     (\<exists>s'. r = (e, s') \<and> s = (if e = None then sync_stat p s' else s'))"
  by (cases r; cases "fst r") auto

text \<open>Data are handled by \<open>processSyncData\<close>, up to the statistics and a timer.\<close>

lemma validated_processed:
  fixes st :: "'a sync_logic" and cb :: "('a, 'e) callbacks"
  assumes "convertNameToDigestAndType L (sl_syncPrefix st) (data_name d) = (Inr y :: 'e sync_exn + digest \<times> string)"
  shows "\<exists>st1 p. quiet S st st1 \<and> sl_app st1 = sl_app st \<and> onSyncDataValidated S L cb d st =
    catch_digest_error (and_next (processSyncData S L cb (data_name d) (data_content d) st1) (\<lambda>st. (None, sync_stat p st)))"
  using assms quiet_refl [of S st] by (cases y) (auto simp: onSyncDataValidated_def on_sync_io_def
      intro: exI [of _ st] exI [of _ "st\<lparr>sl_io := cancelEvent (sl_recoveryId st) (sl_io st)\<rparr>"])

lemma sync_stat_ok: "sync_ok S Ms (sync_stat p st) = sync_ok S Ms st"
  by (simp add: sync_ok_def log_ok_def sync_stat_def)

lemma stat_state: "sl_state (sync_stat p st) = sl_state st" "sl_app (sync_stat p st) = sl_app st"
  by (simp_all add: sync_stat_def)

theorem sync_run_ok:
  fixes st :: "'a sync_logic" and cb :: "('a, 'e) callbacks"
  assumes "hash_ok S" and "sync_run S L cb Ms st"
  shows "sync_ok S Ms st"
  using assms(2)
proof (induction rule: sync_run.induct)
  case (created pfx stats seed io app)
  show ?case by (rule sync_ok_new)
next
  case (published Ms st p x q st')
  have "sync_ok S (Ms @ [fs_leaves (sl_state (snd (addLocalNames S L p x q st :: ('e sync_exn, 'a sync_logic) outcome)))])
      (snd (addLocalNames S L p x q st :: ('e sync_exn, 'a sync_logic) outcome))"
    by (rule published_ok(1) [OF assms(1) published.IH published.hyps(2)])
  then show ?case using published.hyps(3) by simp
next
  case (asked Ms st n st')
  have "quiet S st (snd (onSyncInterest S L n st :: ('e sync_exn, 'a sync_logic) outcome))" by (rule quiet_onSyncInterest)
  from sync_ok_quiet [OF this asked.IH] show ?case using asked.hyps(2) by simp
next
  case (told_unreadable Ms st d st')
  have q: "quiet S st s \<Longrightarrow> quiet S st (snd (processSyncData S L cb (data_name d) (data_content d) s))" for s
    using told_unreadable.hyps(2) by (simp add: processSyncData_def stateChanged_def Let_def)
  have "quiet S st (snd (onSyncDataValidated S L cb d st))"
    unfolding onSyncDataValidated_def quiet_handler(2) by (auto intro!: quiet_with_value quiet_next q)
  from sync_ok_quiet [OF this told_unreadable.IH] show ?case using told_unreadable.hyps(3) by simp
next
  case (told_nothing Ms st d e st')
  then have "st' = st" by (cases e) (auto simp: onSyncDataValidated_def catch_None)
  then show ?case using told_nothing.IH by simp
next
  case (told_difference Ms st d y m st')
  obtain st1 p where st1: "quiet S st st1" "onSyncDataValidated S L cb d st =
      catch_digest_error (and_next (processSyncData S L cb (data_name d) (data_content d) st1) (\<lambda>st. (None, sync_stat p st)))"
    using validated_processed [OF told_difference.hyps(2), of S cb] by blast
  let ?r = "processSyncData S L cb (data_name d) (data_content d) st1"
  note r = received_ok [OF assms(1) sync_ok_quiet [OF st1(1) told_difference.IH] told_difference.hyps(3,4), where L = L and cb = cb and n = "data_name d"]
  have "fst ?r = None \<and> st' = sync_stat p (snd ?r)"
    using told_difference.hyps(5) r(1) unfolding st1(2) catch_None next_stat
    by (cases ?r) (auto split: sum.splits if_splits)
  then show ?case
    using r(1,3) by (auto simp: sync_stat_ok stat_state split: sum.splits if_splits)
next
  case (timer Ms st ev st')
  have "quiet S st (snd (run_sync_event S L ev st :: ('e sync_exn, 'a sync_logic) outcome))" by (rule quiet_event)
  from sync_ok_quiet [OF this timer.IH] show ?case using timer.hyps(2) by simp
next
  case (outside Ms st io app stats)
  show ?case by (rule sync_ok_quiet [OF _ outside.IH]) simp
qed

end
