(* ===== verification/Demo_Sync.thy ===== *)
theory Demo_Sync
  imports Sync_Runs Demo_Library
begin

text \<open>
  One implementation of the sync protocol's library functions, for examples: a checksum in
  place of the hash function, the smallest number in place of a random one, and messages in
  text.
\<close>

definition demo_type :: "action_type \<Rightarrow> string" where
  "demo_type t = (case t of ACTION_UPDATE \<Rightarrow> ''u'' | ACTION_DELETE \<Rightarrow> ''d'' | ACTION_OTHER \<Rightarrow> ''o'')"

definition demo_untype :: "string \<Rightarrow> action_type" where
  "demo_untype s = (if s = ''u'' then ACTION_UPDATE else if s = ''d'' then ACTION_DELETE else ACTION_OTHER)"

definition demo_item :: "sync_state_msg_item \<Rightarrow> string" where
  "demo_item i = escape (ss_name i) @ ''/'' @ demo_type (ss_type i) @
     (case ss_seqno i of None \<Rightarrow> '''' | Some (x, q) \<Rightarrow> ''/'' @ demoDigits (unat x) @ ''/'' @ demoDigits (unat q))"

definition demo_parse_item :: "string list \<Rightarrow> sync_state_msg_item option" where
  "demo_parse_item fs = (case fs of
       [n, t] \<Rightarrow> Some \<lparr>ss_name = unescape n, ss_type = demo_untype t, ss_seqno = None\<rparr>
     | [n, t, x, q] \<Rightarrow> Some \<lparr>ss_name = unescape n, ss_type = demo_untype t,
         ss_seqno = Some (of_nat (demoValue x), of_nat (demoValue q))\<rparr>
     | _ \<Rightarrow> None)"

definition demo_raw64 :: "64 word \<Rightarrow> bytes" where
  "demo_raw64 w = map (\<lambda>i. ucast (drop_bit (8 * i) w)) [0..<8]"

definition demo_hash :: "bytes \<Rightarrow> bytes" where
  "demo_hash bs = replicate 31 1 @ [fold (\<lambda>b h. h * 31 + b) bs 1]"

definition demo_sync :: sync_lib where
  "demo_sync = \<lparr>sy_hash = demo_hash, sy_raw64 = demo_raw64, sy_unraw64 = (\<lambda>_. 0),
     sy_uniform = (\<lambda>lo hi g. (lo, g)), sy_serialize = (\<lambda>m. concat (map (\<lambda>t. t @ ''|'') (map demo_item m))),
     sy_parse = (\<lambda>s. those (map (\<lambda>w. demo_parse_item (splitOn CHR ''/'' w)) (filter (\<lambda>w. w \<noteq> []) (splitOn CHR ''|'' s)))),
     sy_begin = (\<lambda>_. 0)\<rparr>"

lemma demo_hash_ok: "hash_ok demo_sync"
  by (simp add: hash_ok_def demo_sync_def demo_hash_def)

lemma demo_random_ok: "random_ok demo_sync"
  by (simp add: random_ok_def demo_sync_def)

lemma demo_messages_ok: "messages_ok demo_sync"
proof -
  have digits: "CHR ''/'' \<notin> set (demoDigits k)" "CHR ''|'' \<notin> set (demoDigits k)" for k
    using isDigits_digits [of k] by (auto simp: isDigits_def list_all_iff)
  have item: "field_ok (demo_item i)" "demo_parse_item (splitOn CHR ''/'' (demo_item i)) = Some i" for i
  proof -
    have t: "CHR ''/'' \<notin> set (demo_type t)" "CHR ''|'' \<notin> set (demo_type t)" "demo_untype (demo_type t) = t" for t
      by (simp_all add: demo_type_def demo_untype_def split: action_type.split)
    show "field_ok (demo_item i)"
      using escape_chars [of "ss_name i"] t(2) digits(2)
      by (auto simp: demo_item_def field_ok_def split: option.splits)
    show "demo_parse_item (splitOn CHR ''/'' (demo_item i)) = Some i"
      by (cases i, cases "ss_seqno i")
        (auto simp: demo_item_def demo_parse_item_def splitOn_append splitOn_none escape_chars t digits demoValue_digits)
  qed
  have "those (map Some ys) = Some ys" for ys :: sync_state_msg by (induction ys) simp_all
  moreover have "(\<lambda>w. demo_parse_item (splitOn CHR ''/'' w)) \<circ> demo_item = Some" by (simp add: fun_eq_iff item(2))
  ultimately show ?thesis
    using item(1) demo_tokens [of "map demo_item m" for m]
    by (simp add: messages_ok_def demo_sync_def list_all_iff)
qed

lemma demo_hex: "hex_uri_ok demo_lib"
proof -
  have "hex_lookup ! n \<notin> {CHR ''/'', CHR ''%'', CHR ''|''}" if "n < 16" for n
  proof -
    have "\<forall>n\<in>set [0..<16]. hex_lookup ! n \<notin> {CHR ''/'', CHR ''%'', CHR ''|''}"
      by (simp add: upt_rec hex_lookup_def numeral_nat)
    then show ?thesis using that by simp
  qed
  then have "escapeChar (hex_from_4_bit w) = [hex_from_4_bit w]" if "unat w < 16" for w
    using that by (auto simp: hex_from_4_bit_def)
  then have "concat (map escapeChar (string_from_binary bs)) = string_from_binary bs" for bs
    by (induction bs) (simp_all add: string_from_binary_def nibbles)
  then have "escape (string_from_binary bs) = string_from_binary bs" if "bs \<noteq> []" for bs
    using that by (auto simp: escape_def string_from_binary_def neq_Nil_conv)
  then show ?thesis by (simp add: hex_uri_ok_def demo_lib_def)
qed

end
