(* ===== verification/Sync_Properties.thy ===== *)
theory Sync_Properties
  imports Demo_Sync
begin

text \<open>
  What the sync protocol is for: digests and differences survive their way through names and
  messages, a router that is asked answers with what the other one lacks, and after the answer
  both have the same state.
\<close>

section \<open>Messages\<close>

definition item_leaf :: "sync_state_msg_item \<Rightarrow> diff_leaf" where
  "item_leaf i = (if ss_type i = ACTION_UPDATE
     then diff_leaf_update (ss_name i) (case ss_seqno i of Some (x, q) \<Rightarrow> seqno x q | None \<Rightarrow> seqno 0 0)
     else diff_leaf_remove (ss_name i))"

lemma item_leaf_simps [simp]:
  "lf_info (item_leaf i) = ss_name i" "item_leaf (item_of_update n s) = diff_leaf_update n (seqno (sn_session s) (sn_seq s))"
  by (simp_all add: item_leaf_def item_of_update_def diff_leaf_update_def diff_leaf_remove_def)

lemma read_items: "read_message m d = fold (apply_leaf diff_update diff_remove) (map item_leaf m) d"
  unfolding read_fold item_leaf_def by simp

text \<open>A message with the leaves of a sorted container is read into the same leaves.\<close>

lemma read_sorted:
  assumes "leaves_wf (map item_leaf m)"
  shows "ds_leaves (read_message m diff_state_new) = map item_leaf m"
proof -
  have "item_leaf i = (case dl_op (item_leaf i) of
      UPDATE \<Rightarrow> diff_leaf_update (lf_info (item_leaf i)) (lf_seq (item_leaf i)) | REMOVE \<Rightarrow> diff_leaf_remove (lf_info (item_leaf i)))" for i
    by (auto simp: item_leaf_def diff_leaf_update_def diff_leaf_remove_def)
  then show ?thesis
    unfolding read_items using read_leaves [of "[]" "map item_leaf m" diff_state_new] assms
    by (simp add: diff_state_new_def)
qed

lemma leaves_wf_names: "map lf_info a = map lf_info b \<Longrightarrow> leaves_wf a = leaves_wf b"
  by (simp add: leaves_wf_def)

text \<open>What remains of a leaf: valid numbers, and no number for a removal.\<close>

definition plain_leaf :: "diff_leaf \<Rightarrow> diff_leaf" where
  "plain_leaf l = (case dl_op l of
       UPDATE \<Rightarrow> diff_leaf_update (lf_info l) (seqno (sn_session (lf_seq l)) (sn_seq (lf_seq l)))
     | REMOVE \<Rightarrow> diff_leaf_remove (lf_info l))"

lemma plain_leaf_simps [simp]: "lf_info (plain_leaf l) = lf_info l" "dl_op (plain_leaf l) = dl_op l"
  "dl_op l = UPDATE \<Longrightarrow> pair_of (lf_seq (plain_leaf l)) = pair_of (lf_seq l)"
  by (simp_all add: plain_leaf_def diff_leaf_update_def diff_leaf_remove_def pair_of_def seqno_def split: operation.split)

lemma find_map_leaf: "(\<And>l. lf_info (f l) = lf_info l) \<Longrightarrow> leaf_find n (map f ls) = map_option f (leaf_find n ls)"
  by (induction ls) (simp_all add: leaf_find_def)

lemma read_diff_message:
  assumes "diff_wf d"
  shows "ds_leaves (read_message (diff_message d) diff_state_new) = map plain_leaf (ds_leaves d)"
    and "diff_content (read_message (diff_message d) diff_state_new) = diff_content d"
proof -
  have "item_leaf (case dl_op l of UPDATE \<Rightarrow> item_of_update (lf_info l) (lf_seq l)
      | REMOVE \<Rightarrow> \<lparr>ss_name = lf_info l, ss_type = ACTION_DELETE, ss_seqno = None\<rparr>) = plain_leaf l" for l
    by (simp add: plain_leaf_def split: operation.split) (simp add: item_leaf_def)
  then have m: "map item_leaf (diff_message d) = map plain_leaf (ds_leaves d)" by (simp add: diff_message_def)
  have "leaves_wf (map item_leaf (diff_message d))"
    unfolding m using assms leaves_wf_names [of "map plain_leaf (ds_leaves d)" "ds_leaves d"] by (simp add: diff_wf_def comp_def)
  from read_sorted [OF this] show l: "ds_leaves (read_message (diff_message d) diff_state_new) = map plain_leaf (ds_leaves d)"
    by (simp add: m)
  show "diff_content (read_message (diff_message d) diff_state_new) = diff_content d"
    by (auto simp: fun_eq_iff diff_content_def l find_map_leaf option.map_comp split: operation.split intro!: map_option_cong)
qed

lemma read_full_message:
  assumes "full_wf S fs"
  shows "diff_content (read_message (full_message fs) diff_state_new) n = map_option Some (leaves_content (fs_leaves fs) n)"
proof -
  let ?f = "\<lambda>l :: full_leaf. diff_leaf_update (lf_info l) (seqno (sn_session (lf_seq l)) (sn_seq (lf_seq l)))"
  have f: "lf_info (?f l) = lf_info l" for l by (simp add: diff_leaf_update_def)
  have m: "map item_leaf (full_message fs) = map ?f (fs_leaves fs)" by (simp add: full_message_def)
  have find: "leaf_find n (map ?f ls) = map_option ?f (leaf_find n ls)" for ls
    by (induction ls) (simp_all add: leaf_find_def f)
  have "leaves_wf (map item_leaf (full_message fs))"
    using assms leaves_wf_names [of "map item_leaf (full_message fs)" "fs_leaves fs"]
    unfolding m by (simp add: full_wf_def f comp_def)
  from read_sorted [OF this] show ?thesis
    by (simp add: diff_content_def m find leaves_content_def option.map_comp comp_def) (simp add: diff_leaf_update_def pair_of_def seqno_def)
qed

text \<open>C34: A difference that is sent as a message and read by the receiver is the same one, leaf
  for leaf; the message of a full state is read as updates to all its numbers.\<close>

theorem message_roundtrip:
  assumes "messages_ok S" and "diff_canonical d" and "full_wf S fs"
  shows "(\<exists>m. sy_parse S (sy_serialize S (diff_message d)) = Some m \<and>
      ds_leaves (read_message m diff_state_new) = ds_leaves d) \<and>
    (\<exists>m. sy_parse S (sy_serialize S (full_message fs)) = Some m \<and>
      (\<forall>n. diff_content (read_message m diff_state_new) n = map_option Some (leaves_content (fs_leaves fs) n)))"
proof -
  have "plain_leaf l = l" if "l \<in> set (ds_leaves d)" for l
    using assms(2) that unfolding diff_canonical_def plain_leaf_def by metis
  then have "ds_leaves (read_message (diff_message d) diff_state_new) = ds_leaves d"
    using read_diff_message(1) [of d] assms(2) by (simp add: diff_canonical_def map_idI)
  then show ?thesis
    using assms(1) read_full_message [OF assms(3)] by (simp add: messages_ok_def)
qed

definition demo_diff :: diff_state where
  "demo_diff = diff_remove ''/y'' (diff_update ''/x'' (seqno 0 4) diff_state_new)"

lemma message_roundtrip_witness:
  "\<exists>m. sy_parse demo_sync (sy_serialize demo_sync (diff_message demo_diff)) = Some m \<and>
     ds_leaves (read_message m diff_state_new) = ds_leaves demo_diff"
proof -
  have "diff_canonical demo_diff"
    by (simp add: diff_canonical_def demo_diff_def diff_wf_def leaves_wf_def diff_remove_def diff_update_def diff_state_new_def
        leaf_erase_def leaf_insert_def leaf_find_def diff_leaf_update_def diff_leaf_remove_def seqno_def)
  from message_roundtrip [OF demo_messages_ok this full_wf_new] show ?thesis by blast
qed

section \<open>An Interest and its answer\<close>

lemma digest_buffer_nonempty: "hash_ok S \<Longrightarrow> dg_buffer (compute_digest S ls) \<noteq> []"
  by (auto simp: compute_digest_def hash_ok_def) (metis list.size(3) zero_neq_numeral)

lemma digest_zero:
  assumes "hash_ok S"
  shows "(digest_isZero (compute_digest S ls) :: 'e sync_exn + bool) = Inr (ls = [])"
proof (cases "ls = []")
  case False
  have "length (sy_hash S bs) = 32" for bs using assms by (simp add: hash_ok_def)
  then show ?thesis using False digest_buffer_nonempty [OF assms, of ls] by (simp add: digest_isZero_def compute_digest_def)
qed (simp add: digest_isZero_def compute_digest_def)

lemma digest_ops_buffer:
  assumes "dg_buffer a = dg_buffer b"
  shows "digest_isZero a = digest_isZero b" and "digest_getHash S a = digest_getHash S b"
    and "digest_eq c a = digest_eq c b" and "digest_print a = digest_print b" and "log_find S a st = log_find S b st"
proof -
  show "digest_isZero a = digest_isZero b" "digest_eq c a = digest_eq c b" "digest_print a = digest_print b"
    using assms by (simp_all add: digest_isZero_def digest_eq_def digest_print_def)
  have "same_digest a = same_digest b" using assms by (auto simp: fun_eq_iff same_digest_def split: option.split)
  moreover show "digest_getHash S a = digest_getHash S b" using assms by (simp add: digest_getHash_def digest_isZero_def)
  ultimately show "log_find S a st = log_find S b st"
    using assms by (simp add: log_find_def digest_getHash_def digest_isZero_def)
qed

lemma convert_normal:
  assumes "name_slices_ok L" and "hex_uri_ok L" and "bs \<noteq> []"
  shows "convertNameToDigestAndType L pfx (pfx @ [string_from_binary bs]) =
    (Inr (digest_new\<lparr>dg_buffer := bs\<rparr>, ''normal'') :: 'e sync_exn + digest \<times> string)"
proof -
  have "compAt L (pfx @ [string_from_binary bs]) (-1) = string_from_binary bs"
    using assms(1) [unfolded name_slices_ok_def]
    by (elim conjE) (drule spec [of _ "pfx @ [string_from_binary bs]"], drule spec [of _ 1], simp)+
  moreover have "(digest_read (string_from_binary bs) digest_new :: 'e sync_exn + digest) = Inr (digest_new\<lparr>dg_buffer := bs\<rparr>)"
    using digest_round [of "\<lparr>dg_context = [], dg_buffer = bs\<rparr>" "string_from_binary bs" digest_new] assms(3)
    by (simp add: digest_print_def digest_new_def)
  ultimately show ?thesis
    using assms(2,3) by (simp add: convertNameToDigestAndType_def hex_uri_ok_def Let_def)
qed

text \<open>What the other side must not be: a state of the log with the digest of another one.\<close>

definition no_collision :: "sync_lib \<Rightarrow> full_leaf list list \<Rightarrow> full_leaf list \<Rightarrow> bool" where
  "no_collision S Ms ls \<longleftrightarrow> (\<forall>M\<in>set Ms. dg_buffer (compute_digest S M) = dg_buffer (compute_digest S ls) \<longrightarrow>
     leaves_content M = leaves_content ls)"

lemma updates_of_grows:
  assumes "diff_wf d" and "grows m (diff_content d) m'"
  shows "update_only (diff_message d)"
proof -
  have "dl_op l = UPDATE" if "l \<in> set (ds_leaves d)" for l
  proof -
    have "leaf_find (lf_info l) (ds_leaves d) = Some l"
      using that assms(1) leaf_find_iff by (auto simp: diff_wf_def)
    then show ?thesis
      using assms(2) [unfolded grows_def, rule_format, of "lf_info l"] by (cases "dl_op l") (auto simp: diff_content_def)
  qed
  then show ?thesis using read_diff_message(1) [OF assms(1)] by (auto simp: update_only_def only_updates_def)
qed

lemma full_update_only: "full_wf S fs \<Longrightarrow> update_only (full_message fs)"
proof -
  assume wf: "full_wf S fs"
  have "leaves_wf (map item_leaf (full_message fs))"
    using wf leaves_wf_names [of "map item_leaf (full_message fs)" "fs_leaves fs"]
    by (simp add: full_wf_def full_message_def comp_def item_of_update_def)
  from read_sorted [OF this] show ?thesis
    by (auto simp: update_only_def only_updates_def full_message_def diff_leaf_update_def)
qed

lemma sync_answer:
  fixes A :: "'a sync_logic"
  assumes S: "hash_ok S" and ok: "sync_ok S Ms A" and d: "dg_buffer d = dg_buffer (compute_digest S ls)"
    and differ: "dg_buffer (compute_digest S (fs_leaves (sl_state A))) \<noteq> dg_buffer (compute_digest S ls)"
    and known: "ls = [] \<or> (\<exists>a\<in>set (sl_log A). same_digest d (sl_diffs A ! a))" and coll: "no_collision S Ms ls"
  shows "\<exists>m. processSyncInterest S L n d b A = (None :: 'e sync_exn option, sendSyncData S n d m (snd (rootDigest S A))) \<and>
    update_only m \<and> change_of (diff_content (read_message m diff_state_new)) (leaves_content ls) = content_of A"
proof -
  have wf: "full_wf S (sl_state A)" using ok by (simp add: sync_ok_def log_ok_def)
  let ?root = "compute_digest S (fs_leaves (sl_state A))" and ?A = "snd (rootDigest S A)"
  obtain fs where A: "?A = A\<lparr>sl_state := fs\<rparr>" "fs_leaves fs = fs_leaves (sl_state A)" "full_wf S fs"
    using rootDigest_wf(2,3) [OF wf] by auto
  have r: "rootDigest S A = (?root, A\<lparr>sl_state := fs\<rparr>)"
    using rootDigest_wf(1) [OF wf] A(1) by (simp add: prod_eq_iff)
  have zero: "(digest_isZero d :: 'e sync_exn + bool) = Inr (ls = [])"
    unfolding digest_ops_buffer(1) [OF d] by (rule digest_zero [OF S])
  show ?thesis
  proof (cases "ls = []")
    case True
    then have "fs_leaves (sl_state A) \<noteq> []" using differ by auto
    then have "(digest_isZero ?root :: 'e sync_exn + bool) = Inr False" by (simp add: digest_zero [OF S])
    then have "processSyncInterest S L n d b A = (None :: 'e sync_exn option, sendSyncData S n d (full_message fs) ?A)"
      using zero True by (simp add: processSyncInterest_def r)
    moreover have "change_of (diff_content (read_message (full_message fs) diff_state_new)) (leaves_content ls) = content_of A"
      using read_full_message [OF A(3)] True
      by (auto simp: fun_eq_iff change_of_def A(2) leaves_content_def leaf_find_def split: option.split)
    ultimately show ?thesis using full_update_only [OF A(3)] by blast
  next
    case False
    have eq: "(digest_eq ?root d :: 'e sync_exn + bool) = Inr False"
      using differ digest_buffer_nonempty [OF S] by (simp add: digest_eq_def d)
    obtain h where h: "(digest_getHash S d :: 'e sync_exn + 64 word) = Inr h"
      using digest_root_hash [OF S] digest_ops_buffer(2) [OF d] by metis
    obtain a where a: "find (\<lambda>a. same_digest d (sl_diffs A ! a)) (sl_log A) = Some a"
      using known False by (metis find_None_iff not_None_eq)
    then have a': "a \<in> set (sl_log A)" "same_digest d (sl_diffs A ! a)" by (auto simp: find_Some_iff)
    have log: "log_ok S Ms A" using ok by (simp add: sync_ok_def)
    then have "a < length Ms" "ds_digest (sl_diffs A ! a) = Some (compute_digest S (Ms ! a))"
      using a'(1) by (auto simp: log_ok_def node_ok_def)
    then have M: "leaves_content (Ms ! a) = leaves_content ls"
      using a'(2) coll d by (simp add: same_digest_def no_collision_def)
    obtain D where D: "diff_diff (sl_diffs A) (sl_diffs A ! a) = Some D" "diff_wf D"
        "grows (leaves_content ls) (diff_content D) (content_of A)"
      using log_entry [OF log a'(1)] M by auto
    have "processSyncInterest S L n d b A = (None :: 'e sync_exn option, sendSyncData S n d (diff_message D) ?A)"
      using zero False eq h a D(1) by (simp add: processSyncInterest_def r log_find_def)
    then show ?thesis
      using updates_of_grows [OF D(2,3)] read_diff_message(2) [OF D(2)] grows_change [OF D(3)] by auto
  qed
qed

text \<open>What goes out with an answer.\<close>

lemma send_out: "io_out (sl_io (sendSyncData S n d m st)) =
    io_out (sl_io st) @ [PutSync n (sy_serialize S m) (syncResponseFreshness * second)]"
  by (simp add: sendSyncData_def reexpressAfter_def reexpressionJitter_def draw_def on_sync_io_def sync_stat_def Let_def case_prod_beta)

lemma stat_io [simp]: "sl_io (sync_stat p st) = sl_io st" "sl_outstanding (sync_stat p st) = sl_outstanding st"
  by (simp_all add: sync_stat_def)

lemma root_io [simp]: "sl_io (snd (rootDigest S st)) = sl_io st" "sl_syncPrefix (snd (rootDigest S st)) = sl_syncPrefix st"
  by (simp_all add: rootDigest_def case_prod_beta)

lemma interest_sent:
  assumes "hash_ok S" and "full_wf S (sl_state B)"
  shows "\<exists>B1. sendSyncInterest S B = (None :: 'e sync_exn option, B1) \<and> quiet S B B1 \<and> sl_app B1 = sl_app B \<and>
    sl_outstanding B1 = sl_syncPrefix B @ [string_from_binary (dg_buffer (compute_digest S (fs_leaves (sl_state B))))]"
proof -
  let ?B = "B\<lparr>sl_outstanding := sl_syncPrefix B\<rparr>"
  have "fst (rootDigest S ?B) = compute_digest S (fs_leaves (sl_state B))"
    using rootDigest_wf(1) [of S ?B] assms(2) by simp
  moreover have "sl_outstanding (snd (rootDigest S ?B)) = sl_syncPrefix B" "sl_app (snd (rootDigest S ?B)) = sl_app B"
    by (simp_all add: rootDigest_def case_prod_beta)
  moreover have "quiet S B (snd (sendSyncInterest S B :: ('e sync_exn, _) outcome))" by simp
  ultimately show ?thesis
    using digest_buffer_nonempty [OF assms(1)]
    by (simp add: sendSyncInterest_def digest_print_def reexpressAfter_def reexpressionJitter_def draw_def on_sync_io_def
        sync_stat_def Let_def case_prod_beta)
qed

lemma same_content_same_digest:
  assumes "full_wf S a" and "full_wf S b" and "leaves_content (fs_leaves a) = leaves_content (fs_leaves b)"
  shows "compute_digest S (fs_leaves a) = compute_digest S (fs_leaves b)"
proof -
  let ?f = "\<lambda>l :: full_leaf. pair_of (lf_seq l)"
  have names: "map lf_info (fs_leaves a) = map lf_info (fs_leaves b)" and pairs: "map ?f (fs_leaves a) = map ?f (fs_leaves b)"
    using leaves_determined [of "fs_leaves a" "fs_leaves b" ?f] assms
    by (simp_all add: full_wf_def fun_eq_iff leaves_content_def)
  have "fl_digest (leaf_updateDigest S l) = digest_of S (sy_hash S (bytes_of (lf_info l)) @
      sy_hash S (sy_raw64 S (fst (?f l)) @ sy_raw64 S (snd (?f l))))" for l
    by (simp add: leaf_updateDigest_def info_getDigest_def seqno_getDigest_def pair_of_def)
  then have "fl_digest l = digest_of S (sy_hash S (bytes_of (lf_info l)) @
      sy_hash S (sy_raw64 S (fst (?f l)) @ sy_raw64 S (snd (?f l))))" if "l = leaf_updateDigest S l" for l
    using that by metis
  then have leaf: "full_wf S x \<Longrightarrow> l \<in> set (fs_leaves x) \<Longrightarrow> dg_buffer (fl_digest l) =
      sy_hash S (sy_hash S (bytes_of (lf_info l)) @ sy_hash S (sy_raw64 S (fst (?f l)) @ sy_raw64 S (snd (?f l))))" for x l
    unfolding full_wf_def by (metis digest_of_simps)
  have d: "map (\<lambda>l. dg_buffer (fl_digest l)) (fs_leaves x) =
      map (\<lambda>(n, p). sy_hash S (sy_hash S (bytes_of n) @ sy_hash S (sy_raw64 S (fst p) @ sy_raw64 S (snd p))))
        (zip (map lf_info (fs_leaves x)) (map ?f (fs_leaves x)))" if "full_wf S x" for x
    by (simp add: zip_map_map zip_same_conv_map leaf [OF that])
  have "map (\<lambda>l. dg_buffer (fl_digest l)) (fs_leaves a) = map (\<lambda>l. dg_buffer (fl_digest l)) (fs_leaves b)"
    unfolding d [OF assms(1)] d [OF assms(2)] names pairs ..
  moreover have "length (fs_leaves a) = length (fs_leaves b)" using names by (metis length_map)
  ultimately show ?thesis by (simp add: compute_digest_def)
qed

text \<open>The application is told what differs, and nothing else.\<close>

lemma told_exactly:
  assumes "leaves_wf ls" and "only_updates ls"
    and "change_of (\<lambda>n. map_option (\<lambda>l. Some (pair_of (lf_seq l))) (leaf_find n ls)) m = m'"
  shows "set (map (\<lambda>x. (md_prefix x, pair_of (md_high x))) (told m ls)) =
    {(n, v). m' n = Some v \<and> m n \<noteq> Some v \<and> n \<noteq> forwarderPrefix}"
proof (intro set_eqI, clarify)
  fix n v w
  have m': "m' n = (case leaf_find n ls of None \<Rightarrow> m n
      | Some l \<Rightarrow> Some (case m n of None \<Rightarrow> pair_of (lf_seq l) | Some w \<Rightarrow> max w (pair_of (lf_seq l))))"
    unfolding assms(3) [symmetric] by (simp add: change_of_def split: option.split)
  have "(n, v, w) \<in> set (map (\<lambda>x. (md_prefix x, pair_of (md_high x))) (told m ls)) \<longleftrightarrow>
      (\<exists>l\<in>set ls. lf_info l = n \<and> pair_of (lf_seq l) = (v, w) \<and> ahead m n (v, w) \<and> n \<noteq> forwarderPrefix)"
    by (auto simp: told_def missing_of_def)
  also have "\<dots> \<longleftrightarrow> (\<exists>l. leaf_find n ls = Some l \<and> pair_of (lf_seq l) = (v, w) \<and> ahead m n (v, w) \<and> n \<noteq> forwarderPrefix)"
    using leaf_find_iff [OF assms(1), of n] by blast
  also have "\<dots> \<longleftrightarrow> m' n = Some (v, w) \<and> m n \<noteq> Some (v, w) \<and> n \<noteq> forwarderPrefix"
  proof (cases "leaf_find n ls")
    case (Some l)
    then show ?thesis by (cases "m n") (auto simp: m' ahead_def max_def)
  qed (simp add: m')
  finally show "((n, v, w) \<in> set (map (\<lambda>x. (md_prefix x, pair_of (md_high x))) (told m ls))) =
      ((n, v, w) \<in> {(n, v). m' n = Some v \<and> m n \<noteq> Some v \<and> n \<noteq> forwarderPrefix})" by simp
qed

lemma told_distinct: "distinct (map lf_info ls) \<Longrightarrow> distinct (map md_prefix (told m ls))"
  by (simp add: told_def missing_of_def distinct_map_filter comp_def)

lemma exchange:
  fixes A :: "'a sync_logic" and B :: "'b sync_logic" and cb :: "('b, 'e) callbacks"
  assumes S: "hash_ok S" "messages_ok S" and L: "name_slices_ok L" "hex_uri_ok L"
    and A: "sync_ok S Ms A" and B: "sync_ok S Ns B" and pfx: "sl_syncPrefix A = sl_syncPrefix B"
    and differ: "dg_buffer (compute_digest S (fs_leaves (sl_state A))) \<noteq> dg_buffer (compute_digest S (fs_leaves (sl_state B)))"
    and known: "fs_leaves (sl_state B) = [] \<or>
      (\<exists>a\<in>set (sl_log A). same_digest (compute_digest S (fs_leaves (sl_state B))) (sl_diffs A ! a))"
    and coll: "no_collision S Ms (fs_leaves (sl_state B))"
  shows "\<exists>B1 A1 w v r. sendSyncInterest S B = (None :: 'e sync_exn option, B1) \<and>
    onSyncInterest S L (sl_outstanding B1) A = (None :: 'f sync_exn option, A1) \<and>
    io_out (sl_io A1) = io_out (sl_io A) @ [PutSync (sl_outstanding B1) w (syncResponseFreshness * second)] \<and>
    r = onSyncDataValidated S L cb \<lparr>data_name = sl_outstanding B1, data_content = w\<rparr> B1 \<and>
    content_of (snd r) = content_of A \<and> fst (rootDigest S (snd r)) = fst (rootDigest S A) \<and>
    set (map (\<lambda>x. (md_prefix x, pair_of (md_high x))) v) =
      {(n, q). content_of A n = Some q \<and> content_of B n \<noteq> Some q \<and> n \<noteq> forwarderPrefix} \<and> distinct (map md_prefix v) \<and>
    (case if v = [] then Inr (sl_app B) else cb_update cb v (sl_app B) of
       Inl e \<Rightarrow> fst r = Some (Callback e) | Inr app \<Rightarrow> fst r = None \<and> sl_app (snd r) = app)"
proof -
  let ?ls = "fs_leaves (sl_state B)" and ?bs = "dg_buffer (compute_digest S (fs_leaves (sl_state B)))"
  have wf: "full_wf S (sl_state A)" "full_wf S (sl_state B)" using A B by (simp_all add: sync_ok_def log_ok_def)
  obtain B1 where B1: "sendSyncInterest S B = (None :: 'e sync_exn option, B1)" "quiet S B B1" "sl_app B1 = sl_app B"
      "sl_outstanding B1 = sl_syncPrefix A @ [string_from_binary ?bs]"
    using interest_sent [OF S(1) wf(2)] pfx by auto
  let ?n = "sl_outstanding B1" and ?d = "digest_new\<lparr>dg_buffer := ?bs\<rparr>"
  have conv: "convertNameToDigestAndType L (sl_syncPrefix A) ?n = (Inr (?d, ''normal'') :: 'g sync_exn + digest \<times> string)"
    unfolding B1(4) by (rule convert_normal [OF L digest_buffer_nonempty [OF S(1)]])
  have known': "?ls = [] \<or> (\<exists>a\<in>set (sl_log A). same_digest ?d (sl_diffs A ! a))"
  proof -
    have "same_digest ?d = same_digest (compute_digest S ?ls)"
      by (auto simp: fun_eq_iff same_digest_def split: option.split)
    with known show ?thesis by simp
  qed
  obtain m where m: "processSyncInterest S L ?n ?d False A = (None :: 'f sync_exn option, sendSyncData S ?n ?d m (snd (rootDigest S A)))"
      "update_only m" "change_of (diff_content (read_message m diff_state_new)) (content_of B) = content_of A"
    using sync_answer [where 'e = 'f, OF S(1) A _ differ known' coll, of L ?n False] by auto
  let ?A1 = "sync_stat RCV_SYNC_INTEREST (sendSyncData S ?n ?d m (snd (rootDigest S A)))" and ?w = "sy_serialize S m"
  have a: "onSyncInterest S L ?n A = (None :: 'f sync_exn option, ?A1)"
    by (simp add: onSyncInterest_def conv m(1) catch_digest_error_def)
  have out: "io_out (sl_io ?A1) = io_out (sl_io A) @ [PutSync ?n ?w (syncResponseFreshness * second)]"
    by (simp add: send_out)
  define r where "r = onSyncDataValidated S L cb \<lparr>data_name = ?n, data_content = ?w\<rparr> B1"
  have parse: "sy_parse S ?w = Some m" using S(2) by (simp add: messages_ok_def)
  have pB: "sl_syncPrefix B1 = sl_syncPrefix A" using B1(2) pfx by (simp add: quiet_def)
  have cB: "content_of B1 = content_of B" using B1(2) by (simp add: quiet_def)
  have "convertNameToDigestAndType L (sl_syncPrefix B1) (data_name \<lparr>data_name = ?n, data_content = ?w\<rparr>) =
      (Inr (?d, ''normal'') :: 'e sync_exn + digest \<times> string)"
    by (simp add: pB conv)
  from validated_processed [OF this, of S cb] obtain st1 p where st1: "quiet S B1 st1" "sl_app st1 = sl_app B1"
      "r = catch_digest_error (and_next (processSyncData S L cb ?n ?w st1) (\<lambda>st. (None, sync_stat p st)))"
    by (auto simp: r_def)
  let ?r = "processSyncData S L cb ?n ?w st1" and ?v = "told (content_of B) (ds_leaves (read_message m diff_state_new))"
  have q: "quiet S B st1" by (rule quiet_trans [OF B1(2) st1(1)])
  have c1: "content_of st1 = content_of B" using q by (simp add: quiet_def)
  note rec = received_ok [OF S(1) sync_ok_quiet [OF q B] parse m(2), where L = L and cb = cb and n = ?n, unfolded c1 st1(2) B1(3)]
  have st: "sl_state (snd r) = sl_state (snd ?r)" "sl_app (snd r) = sl_app (snd ?r)" "fst r = fst ?r"
    using rec(1) unfolding st1(3) catch_digest_error_def
    by (cases ?r; auto simp: stat_state split: sum.splits if_splits)+
  have cont: "content_of (snd r) = content_of A" using rec(2) m(3) by (simp add: st(1))
  have wf': "full_wf S (sl_state (snd r))" using rec(6) st(1) by simp
  have root_eq: "fst (rootDigest S (snd r)) = fst (rootDigest S A)"
    using rootDigest_wf(1) [OF wf'] rootDigest_wf(1) [OF wf(1)] same_content_same_digest [OF wf' wf(1) cont] by simp
  have leaves: "diff_content (read_message m diff_state_new) =
      (\<lambda>n. map_option (\<lambda>l. Some (pair_of (lf_seq l))) (leaf_find n (ds_leaves (read_message m diff_state_new))))"
    using m(2) by (auto simp: fun_eq_iff diff_content_def update_only_def only_updates_def intro!: map_option_cong dest: leaf_found)
  have v: "set (map (\<lambda>x. (md_prefix x, pair_of (md_high x))) ?v) =
      {(n, q). content_of A n = Some q \<and> content_of B n \<noteq> Some q \<and> n \<noteq> forwarderPrefix}"
    by (rule told_exactly) (use read_new(1) [of m] m(2,3) leaves in \<open>simp_all add: diff_wf_def update_only_def\<close>)
  have "distinct (map md_prefix ?v)"
    using read_new(1) [of m] by (simp add: diff_wf_def leaves_wf_def told_distinct)
  moreover have "case if ?v = [] then Inr (sl_app B) else cb_update cb ?v (sl_app B) of
      Inl e \<Rightarrow> fst r = Some (Callback e) | Inr app \<Rightarrow> fst r = None \<and> sl_app (snd r) = app"
    using rec(1,4) st(2,3) by (auto split: sum.split)
  ultimately show ?thesis using B1(1) a out r_def cont root_eq v by blast
qed


definition demo_start_io :: sync_io where
  "demo_start_io = \<lparr>io_system_now = 0, io_steady_now = 0, io_next_id = 0, io_pending = [], io_out = []\<rparr>"

definition demo_fresh :: "unit sync_logic" where
  "demo_fresh = sync_logic_new False [''sync''] [] 0 demo_start_io ()"

definition demo_published :: "unit sync_logic" where
  "demo_published = snd (addLocalNames demo_sync demo_lib [''x''] 0 1 demo_fresh :: (unit sync_exn, _) outcome)"

definition demo_cb :: "(unit, unit) callbacks" where
  "demo_cb = \<lparr>cb_update = (\<lambda>_. Inr), cb_remove = (\<lambda>_. Inr), cb_branch = (\<lambda>_. Inr)\<rparr>"

lemma demo_fresh_run: "sync_run demo_sync demo_lib demo_cb [] demo_fresh"
  unfolding demo_fresh_def by (rule sync_run.created)

lemma demo_fresh_content: "content_of demo_fresh n = None" "sl_table demo_fresh = []"
  by (simp_all add: demo_fresh_def sync_logic_new_def full_state_new_def leaves_content_def leaf_find_def Let_def case_prod_beta)

lemma demo_published_run:
  "sync_run demo_sync demo_lib demo_cb [fs_leaves (sl_state demo_published)] demo_published"
proof -
  have new: "ahead (content_of demo_fresh) (toUri demo_lib [''x'']) (0, 1)" by (simp add: ahead_def demo_fresh_content)
  have "fst (addLocalNames demo_sync demo_lib [''x''] 0 1 demo_fresh :: (unit sync_exn, _) outcome) = None"
    by code_simp
  then have "addLocalNames demo_sync demo_lib [''x''] 0 1 demo_fresh = (None :: unit sync_exn option, demo_published)"
    by (simp add: demo_published_def prod_eq_iff)
  from sync_run.published [OF demo_fresh_run new this] show ?thesis by simp
qed

lemma demo_digests:
  "dg_buffer (fst (rootDigest demo_sync demo_published)) \<noteq> dg_buffer (fst (rootDigest demo_sync demo_fresh)) \<and>
   dg_buffer (compute_digest demo_sync (fs_leaves (sl_state demo_published))) \<noteq> dg_buffer (compute_digest demo_sync []) \<and>
   fs_leaves (sl_state demo_fresh) = [] \<and> sl_syncPrefix demo_published = sl_syncPrefix demo_fresh \<and>
   content_of demo_published ''/x'' = Some (0, 1)"
  by code_simp


end
