(* ===== verification/Sync_Interests.thy ===== *)
theory Sync_Interests
  imports Sync_Properties "HOL-Library.Multiset"
begin

text \<open>
  Single handlers of the sync protocol: pending Interests, Interests with an unknown digest,
  malformed ones, and what removals do to the log.
\<close>

section \<open>Pending Interests\<close>

lemma table_of_send [simp]: "sl_table (sendSyncData S n d m st) = sl_table st" "sl_state (sendSyncData S n d m st) = sl_state st"
  by (simp_all add: sendSyncData_def reexpressAfter_def reexpressionJitter_def draw_def on_sync_io_def sync_stat_def Let_def case_prod_beta)

definition answer_of :: "sync_lib \<Rightarrow> ndn_lib \<Rightarrow> diff_state \<Rightarrow> diff_state \<Rightarrow> pit_entry \<Rightarrow> sync_out" where
  "answer_of S L d e i = PutSync (the (ofUri L (in_name i)))
     (sy_serialize S (diff_message (if in_unknown i then e else d))) (syncResponseFreshness * second)"

lemma satisfy_loop_answers:
  assumes "\<forall>i\<in>set (sl_table st). ofUri L (in_name i) \<noteq> None" and "length (sl_table st) < k"
  shows "\<exists>st'. satisfy_loop k S L d e st = (None :: 'e sync_exn option, st') \<and> sl_table st' = [] \<and>
    mset (io_out (sl_io st')) = mset (io_out (sl_io st)) + image_mset (answer_of S L d e) (mset (sl_table st))"
  using assms
proof (induction k arbitrary: st)
  case (Suc k)
  show ?case
  proof (cases "sl_table st = []")
    case False
    define i where "i = sy_begin S (map in_name (sl_table st)) mod length (sl_table st)"
    define t where "t = take i (sl_table st) @ drop (Suc i) (sl_table st)"
    have i: "i < length (sl_table st)" using False by (simp add: i_def)
    then have tab: "mset (sl_table st) = add_mset (sl_table st ! i) (mset t)"
      unfolding t_def by (metis add_mset_commute id_take_nth_drop mset.simps(2) mset_append union_mset_add_mset_right)
    then have sub: "set t \<subseteq> set (sl_table st)" and len: "length t < length (sl_table st)"
      by (metis set_mset_add_mset_insert set_mset_mset subset_insertI, metis lessI size_add_mset size_mset)
    obtain n where n: "ofUri L (in_name (sl_table st ! i)) = Some n" using Suc.prems(1) i by fastforce
    let ?m = "diff_message (if in_unknown (sl_table st ! i) then e else d)"
    let ?st = "sendSyncData S n (in_digest (sl_table st ! i)) ?m (st\<lparr>sl_table := t\<rparr>)"
    obtain st' where "satisfy_loop k S L d e ?st = (None :: 'e sync_exn option, st')" "sl_table st' = []"
        "mset (io_out (sl_io st')) = mset (io_out (sl_io ?st)) + image_mset (answer_of S L d e) (mset t)"
      using Suc.IH [of ?st] Suc.prems sub len by fastforce
    moreover have "table_pop S (sl_table st) = (Inr (sl_table st ! i, t) :: 'e sync_exn + _)"
      using False by (simp add: table_pop_def i_def t_def Let_def)
    then have "satisfy_loop (Suc k) S L d e st = (satisfy_loop k S L d e ?st :: ('e sync_exn, 'a sync_logic) outcome)"
      using False n by simp
    moreover have "answer_of S L d e (sl_table st ! i) = PutSync n (sy_serialize S ?m) (syncResponseFreshness * second)"
      by (simp add: answer_of_def n)
    ultimately show ?thesis by (simp add: tab send_out)
  qed simp
qed simp

lemma all_leaves_content:
  assumes "leaves_wf (fs_leaves fs)"
  shows "diff_content (all_leaves fs) n = map_option Some (leaves_content (fs_leaves fs) n)"
proof -
  let ?f = "\<lambda>l :: full_leaf. diff_leaf_update (lf_info l) (lf_seq l)"
  have "all_leaves fs = fold (apply_leaf diff_update diff_remove) (map ?f (fs_leaves fs)) diff_state_new"
    by (simp add: all_leaves_def fold_map comp_def apply_leaf_def [abs_def] diff_leaf_update_def)
  moreover have "distinct (map lf_info (map ?f (fs_leaves fs)))"
    using assms by (simp add: leaves_wf_def comp_def diff_leaf_update_def)
  moreover have "leaf_find n (map ?f ls) = map_option ?f (leaf_find n ls)" for ls
    by (induction ls) (simp_all add: leaf_find_def diff_leaf_update_def)
  ultimately show ?thesis
    using diff.content_fold [of diff_state_new "map ?f (fs_leaves fs)" n]
    by (simp add: leaves_content_def changed_def diff_leaf_update_def split: option.split)
qed

lemma published_step:
  assumes S: "hash_ok S" and wf: "full_wf S (sl_state st)"
  shows "\<exists>st'. addLocalNames S L p x q st = (satisfyPendingSyncInterests S L
        (diff_update (toUri L p) (seqno x q) diff_state_new) st' :: ('e sync_exn, 'a sync_logic) outcome) \<and>
    fs_leaves (sl_state st') = fs_leaves (snd (full_update S (io_system_now (sl_io st)) (toUri L p) (seqno x q) (sl_state st))) \<and>
    full_wf S (sl_state st') \<and> sl_table st' = sl_table st \<and> sl_io st' = sl_io st"
proof -
  let ?fs = "snd (full_update S (io_system_now (sl_io st)) (toUri L p) (seqno x q) (sl_state st))"
  from insert_result [where 'e = 'e and st = "st\<lparr>sl_state := ?fs\<rparr>" and d = "diff_update (toUri L p) (seqno x q) diff_state_new", OF S]
  show ?thesis using wf by (fastforce simp: addLocalNames_def Let_def)
qed

text \<open>C17: When a router publishes a number, every pending Interest is answered with one Data packet
  and taken out of the table: one for the old state with the change, one for an unknown state
  with everything the router has.\<close>

theorem pending_answered:
  assumes "hash_ok S" and "sync_run S L cb Ms st" and "\<forall>i\<in>set (sl_table st). ofUri L (in_name i) \<noteq> None"
    and "ahead (content_of st) (toUri L p) (x, q)"
  shows "\<exists>st' e. addLocalNames S L p x q st = (None :: 'e sync_exn option, st') \<and> sl_table st' = [] \<and>
    (\<forall>n. diff_content e n = map_option Some (content_of st' n)) \<and>
    mset (io_out (sl_io st')) = mset (io_out (sl_io st)) +
      image_mset (answer_of S L (diff_update (toUri L p) (seqno x q) diff_state_new) e) (mset (sl_table st))"
proof -
  let ?d = "diff_update (toUri L p) (seqno x q) diff_state_new"
  have wf: "full_wf S (sl_state st)" using sync_run_ok [OF assms(1,2)] by (simp add: sync_ok_def log_ok_def)
  obtain st1 where st1: "addLocalNames S L p x q st = (satisfyPendingSyncInterests S L ?d st1 :: ('e sync_exn, _) outcome)"
      "full_wf S (sl_state st1)" "sl_table st1 = sl_table st" "sl_io st1 = sl_io st"
    using published_step [where 'e = 'e, OF assms(1) wf] by blast
  let ?e = "all_leaves (sl_state st1)"
  obtain st' where st': "satisfy_loop (Suc (length (sl_table st1))) S L ?d ?e st1 = (None :: 'e sync_exn option, st')" "sl_table st' = []"
      "mset (io_out (sl_io st')) = mset (io_out (sl_io st)) + image_mset (answer_of S L ?d ?e) (mset (sl_table st))"
    using satisfy_loop_answers [where 'e = 'e, of st1 L "Suc (length (sl_table st1))" S ?d ?e] assms(3) st1 by auto
  have run: "addLocalNames S L p x q st = (None :: 'e sync_exn option, st')"
    using st1(1) st'(1) by (simp add: satisfyPendingSyncInterests_def)
  have "quiet S st1 (snd (satisfy_loop (Suc (length (sl_table st1))) S L ?d ?e st1 :: ('e sync_exn, _) outcome))"
    by (rule quiet_satisfy_loop) simp
  then have "content_of st' = content_of st1" unfolding st'(1) by (simp add: quiet_def)
  then show ?thesis
    using run st'(2,3) all_leaves_content [of "sl_state st1"] st1(2) by (intro exI [of _ st'] exI [of _ ?e]) (simp add: full_wf_def)
qed


definition demo_waiting :: "unit sync_logic" where
  "demo_waiting = snd (onSyncInterest demo_sync demo_lib [''sync'', ''00''] demo_fresh :: (unit sync_exn, _) outcome)"

lemma demo_waiting_run: "sync_run demo_sync demo_lib demo_cb [] demo_waiting"
proof -
  have "fst (onSyncInterest demo_sync demo_lib [''sync'', ''00''] demo_fresh :: (unit sync_exn, _) outcome) = None"
    by code_simp
  then have "onSyncInterest demo_sync demo_lib [''sync'', ''00''] demo_fresh = (None :: unit sync_exn option, demo_waiting)"
    by (simp add: demo_waiting_def prod_eq_iff)
  from sync_run.asked [OF demo_fresh_run this] show ?thesis .
qed

lemma demo_waiting_table:
  "map in_name (sl_table demo_waiting) = [''/sync/00''] \<and> ofUri demo_lib ''/sync/00'' = Some [''sync'', ''00''] \<and>
   fs_leaves (sl_state demo_waiting) = []"
  by code_simp

lemma pending_answered_witness:
  "length (sl_table demo_waiting) = 1 \<and> (\<exists>st. addLocalNames demo_sync demo_lib [''x''] 0 1 demo_waiting =
     (None :: unit sync_exn option, st) \<and> sl_table st = [])"
proof -
  have t: "map in_name (sl_table demo_waiting) = [''/sync/00'']" "ofUri demo_lib ''/sync/00'' \<noteq> None"
    "fs_leaves (sl_state demo_waiting) = []" using demo_waiting_table by simp_all
  have "in_name i \<in> set (map in_name (sl_table demo_waiting))" if "i \<in> set (sl_table demo_waiting)" for i
    using that by simp
  then have names: "\<forall>i\<in>set (sl_table demo_waiting). ofUri demo_lib (in_name i) \<noteq> None" using t by auto
  have "ahead (content_of demo_waiting) (toUri demo_lib [''x'']) (0, 1)"
    using t(3) by (simp add: ahead_def leaves_content_def leaf_find_def)
  with pending_answered [where 'e = unit, OF demo_hash_ok demo_waiting_run names] t(1)
  show ?thesis by (metis length_map length_Cons list.size(3) One_nat_def)
qed

section \<open>Recovery\<close>

text \<open>
  The recovery of a digest when no answer comes: the Interest, and again at each of its timers,
  with the delays of the timers. The fuel bounds the rounds.
\<close>

fun recovery_rounds :: "nat \<Rightarrow> sync_lib \<Rightarrow> digest \<Rightarrow> 'a sync_logic \<Rightarrow> ('e sync_exn, int list \<times> 'a sync_logic) outcome" where
  "recovery_rounds 0 S d st = (Some Endless, [], st)"
| "recovery_rounds (Suc k) S d st = (case sendSyncRecoveryInterests S d st of
       (Some e, st) \<Rightarrow> (Some e, [], st)
     | (None, st) \<Rightarrow> (case find (\<lambda>(i, _, _). sl_recoveryId st = Some i) (io_pending (sl_io st)) of
          None \<Rightarrow> (None, [], st)
        | Some (i, delay, _) \<Rightarrow>
            (case recovery_rounds k S d (on_sync_io (cancelEvent (Some i)) st) of
               (e, delays, st) \<Rightarrow> (e, delay # delays, st))))"

definition recovery_interest :: "digest \<Rightarrow> 'a sync_logic \<Rightarrow> sync_out" where
  "recovery_interest d st = ExpressSync (sl_syncPrefix st @ [''recovery'', string_from_binary (dg_buffer d)])"

definition delay_of_round :: "nat \<Rightarrow> int \<Rightarrow> bool" where
  "delay_of_round j t \<longleftrightarrow> (200 * 2 ^ j + 100) * millisecond \<le> t \<and> t \<le> (200 * 2 ^ j + 500) * millisecond"

lemma interval_words:
  assumes "j < 9" and "x \<le> 500"
  shows "unat ((200 * 2 ^ j :: 32 word) + of_nat x) = 200 * 2 ^ j + x"
    and "push_bit 1 (200 * 2 ^ j :: 32 word) = 200 * 2 ^ Suc j"
    and "(200 * 2 ^ Suc j :: 32 word) < 100000 \<longleftrightarrow> j < 8"
proof -
  have "j \<in> {0, 1, 2, 3, 4, 5, 6, 7, 8}" using assms(1) by auto
  then have j: "unat (200 * 2 ^ j :: 32 word) = 200 * 2 ^ j \<and> 200 * 2 ^ j \<le> (51200 :: nat) \<and>
      push_bit 1 (200 * 2 ^ j :: 32 word) = 200 * 2 ^ Suc j \<and> ((200 * 2 ^ Suc j :: 32 word) < 100000 \<longleftrightarrow> j < 8)"
    by auto
  show "push_bit 1 (200 * 2 ^ j :: 32 word) = 200 * 2 ^ Suc j" "(200 * 2 ^ Suc j :: 32 word) < 100000 \<longleftrightarrow> j < 8"
    using j by simp_all
  have "unat (of_nat x :: 32 word) = x" using assms(2) by (simp add: unsigned_of_nat take_bit_nat_eq_self)
  then show "unat ((200 * 2 ^ j :: 32 word) + of_nat x) = 200 * 2 ^ j + x"
    using j assms(2) by (simp add: unat_add_lem [THEN iffD1])
qed

lemma recovery_round:
  assumes R: "random_ok S" and d: "dg_buffer d \<noteq> []" and j: "j < 9" and int: "sl_interval st = 200 * 2 ^ j"
    and agenda: "agenda_ok (sl_io st)"
  shows "\<exists>st' t. sendSyncRecoveryInterests S d st = (None :: 'e sync_exn option, st') \<and>
    io_out (sl_io st') = io_out (sl_io st) @ [recovery_interest d st] \<and> sl_syncPrefix st' = sl_syncPrefix st \<and>
    sl_interval st' = 200 * 2 ^ Suc j \<and> delay_of_round j t \<and> agenda_ok (sl_io st') \<and>
    (if j < 8 then \<exists>i ev. find (\<lambda>(i, _, _). sl_recoveryId st' = Some i) (io_pending (sl_io st')) = Some (i, t, ev)
     else find (\<lambda>(i, _, _). sl_recoveryId st' = Some i) (io_pending (sl_io st')) = None)"
proof -
  obtain x g where x: "sy_uniform S 100 500 (sl_rng st) = (x, g)" by fastforce
  have "(100 :: nat) \<le> 500 \<longrightarrow> 100 \<le> fst (sy_uniform S 100 500 (sl_rng st)) \<and> fst (sy_uniform S 100 500 (sl_rng st)) \<le> 500"
    using R unfolding random_ok_def by blast
  then have x': "100 \<le> x" "x \<le> 500" by (simp_all add: x)
  let ?t = "int (unat (sl_interval st + of_nat x)) * millisecond"
  note w = interval_words [OF j x'(2)]
  have t: "delay_of_round j ?t" using x' unfolding int delay_of_round_def w(1) by simp
  have cancelled: "find (\<lambda>(i, _, _). sl_recoveryId st = Some i) (io_pending (cancelEvent (sl_recoveryId st) io)) = None"
    for io :: sync_io
    by (auto simp: find_None_iff cancelEvent_def split: option.splits)
  have p: "(digest_print d :: 'e sync_exn + string) = Inr (string_from_binary (dg_buffer d))"
    using d by (simp add: digest_print_def)
  have unused: "find (\<lambda>(i, _, _). Some (io_next_id io) = Some i) (io_pending io) = None" if "agenda_ok io" for io :: sync_io
    using that by (auto simp: find_None_iff agenda_ok_def)
  let ?io = "cancelEvent (sl_recoveryId st) (sl_io st)"
  let ?ret = "snd (scheduleEvent ?t (EvSendRecovery d) ?io)"
  define fin where "fin = sync_stat SENT_SYNC_RECOVERY_INTEREST (on_sync_io (emit (recovery_interest d st))
     (if j < 8 then st\<lparr>sl_rng := g, sl_interval := 200 * 2 ^ Suc j, sl_io := ?ret, sl_recoveryId := Some (io_next_id ?io)\<rparr>
      else st\<lparr>sl_rng := g, sl_interval := 200 * 2 ^ Suc j, sl_io := ?io\<rparr>))"
  have "sendSyncRecoveryInterests S d st = (None :: 'e sync_exn option, fin)"
    unfolding sendSyncRecoveryInterests_def p fin_def
    using w(2,3) by (simp add: reexpressionJitter_def draw_def x int Let_def on_sync_io_def scheduleEvent_def recovery_interest_def)
  moreover have "agenda_ok ?io" using agenda by (rule agenda_ok_cancel)
  then have "agenda_ok (sl_io fin)"
    by (simp add: fin_def sync_stat_def on_sync_io_def agenda_ok_emit agenda_ok_schedule)
  moreover have "if j < 8 then \<exists>i ev. find (\<lambda>(i, _, _). sl_recoveryId fin = Some i) (io_pending (sl_io fin)) = Some (i, ?t, ev)
     else find (\<lambda>(i, _, _). sl_recoveryId fin = Some i) (io_pending (sl_io fin)) = None"
    using unused [OF \<open>agenda_ok ?io\<close>] cancelled [of "sl_io st"]
    by (simp add: fin_def sync_stat_def on_sync_io_def emit_def scheduleEvent_def find_append)
  moreover have "io_out (sl_io fin) = io_out (sl_io st) @ [recovery_interest d st] \<and> sl_syncPrefix fin = sl_syncPrefix st \<and>
      sl_interval fin = 200 * 2 ^ Suc j"
    by (simp add: fin_def sync_stat_def on_sync_io_def)
  ultimately show ?thesis using t by blast
qed

lemma recovery_rounds_result:
  assumes R: "random_ok S" and d: "dg_buffer d \<noteq> []"
  shows "k < 9 \<Longrightarrow> sl_interval st = 200 * 2 ^ (8 - k) \<Longrightarrow> agenda_ok (sl_io st) \<Longrightarrow>
    \<exists>st' ts. recovery_rounds (Suc k) S d st = (None :: 'e sync_exn option, ts, st') \<and> length ts = k \<and>
      (\<forall>j<k. delay_of_round (8 - k + j) (ts ! j)) \<and>
      io_out (sl_io st') = io_out (sl_io st) @ replicate (Suc k) (recovery_interest d st)"
proof (induction k arbitrary: st)
  case 0
  from recovery_round [where 'e = 'e, OF R d _ 0(2,3)] show ?case by auto
next
  case (Suc k)
  let ?j = "8 - Suc k"
  have j: "?j < 9" "?j < 8" "Suc ?j = 8 - k" using Suc.prems(1) by simp_all
  from recovery_round [where 'e = 'e, OF R d j(1) Suc.prems(2,3), unfolded j(3)] j(2) obtain st1 t i ev where
    st1: "sendSyncRecoveryInterests S d st = (None :: 'e sync_exn option, st1)"
      "io_out (sl_io st1) = io_out (sl_io st) @ [recovery_interest d st]" "sl_syncPrefix st1 = sl_syncPrefix st"
      "sl_interval st1 = 200 * 2 ^ (8 - k)" "delay_of_round ?j t" "agenda_ok (sl_io st1)"
      "find (\<lambda>(i, _, _). sl_recoveryId st1 = Some i) (io_pending (sl_io st1)) = Some (i, t, ev)"
    by auto
  let ?st = "on_sync_io (cancelEvent (Some i)) st1"
  have same: "sl_interval ?st = 200 * 2 ^ (8 - k)" "agenda_ok (sl_io ?st)" "recovery_interest d ?st = recovery_interest d st"
    "io_out (sl_io ?st) = io_out (sl_io st) @ [recovery_interest d st]"
    using st1 by (simp_all add: on_sync_io_def agenda_ok_cancel recovery_interest_def)
  from Suc.IH [OF _ same(1,2)] Suc.prems(1) obtain st' ts where
    rest: "recovery_rounds (Suc k) S d ?st = (None :: 'e sync_exn option, ts, st')" "length ts = k"
      "\<forall>j<k. delay_of_round (8 - k + j) (ts ! j)"
      "io_out (sl_io st') = io_out (sl_io ?st) @ replicate (Suc k) (recovery_interest d ?st)"
    by auto
  have "recovery_rounds (Suc (Suc k)) S d st = (None :: 'e sync_exn option, t # ts, st')"
    using st1(1,7) rest(1) by (subst recovery_rounds.simps(2)) simp
  moreover have "delay_of_round (?j + j) ((t # ts) ! j)" if "j < Suc k" for j
  proof (cases j)
    case (Suc i)
    have "?j + j = 8 - k + i" using Suc j(3) by simp
    moreover have "delay_of_round (8 - k + i) (ts ! i)" using rest(3) that Suc by simp
    ultimately show ?thesis using Suc by (simp only: nth_Cons_Suc)
  qed (use st1(5) in simp)
  ultimately show ?case
    using rest(2,4) same by (intro exI [of _ st'] exI [of _ "t # ts"]) simp
qed




section \<open>Exceptions\<close>

text \<open>What a digest fails with.\<close>

lemma digest_errors:
  "(digest_isZero d :: 'e sync_exn + bool) = Inl e \<Longrightarrow> e = DigestCalculationError"
  "(digest_getHash S d :: 'e sync_exn + 64 word) = Inl e \<Longrightarrow> e = DigestCalculationError"
  "(digest_eq d d' :: 'e sync_exn + bool) = Inl e \<Longrightarrow> e = DigestCalculationError"
  by (auto simp: digest_isZero_def digest_getHash_def digest_eq_def Let_def split: if_splits)

lemma log_find_error: "(log_find S d st :: 'e sync_exn + nat option) = Inl e \<Longrightarrow> e = DigestCalculationError"
  by (cases "digest_getHash S d :: 'e sync_exn + 64 word") (auto simp: log_find_def dest: digest_errors)

lemma table_insert_error: "table_insert S now d n u t = (Inl e :: 'e sync_exn + bool, t') \<Longrightarrow> e = DigestCalculationError"
  by (auto simp: table_insert_def Let_def dest: digest_errors split: sum.splits if_splits)

definition digest_only :: "('e sync_exn, 's) outcome \<Rightarrow> bool" where
  "digest_only r \<longleftrightarrow> fst r = None \<or> fst r = Some DigestCalculationError"

lemma digest_only_simps [simp]: "digest_only (None, st)" "digest_only (Some DigestCalculationError, st)"
  by (simp_all add: digest_only_def)

lemma digest_only_with:
  "(\<And>e. r = Inl e \<Longrightarrow> e = DigestCalculationError) \<Longrightarrow> (\<And>v. r = Inr v \<Longrightarrow> digest_only (f v)) \<Longrightarrow> digest_only (with_value r st f)"
  by (cases r) auto

lemma interest_errors:
  fixes st :: "'a sync_logic"
  assumes "log_ok S Ms st"
  shows "digest_only (processSyncInterest S L n d False st :: ('e sync_exn, 'a sync_logic) outcome)"
    and "digest_only (processSyncRecoveryInterest S n d st :: ('e sync_exn, 'a sync_logic) outcome)"
proof -
  obtain root st1 where root: "rootDigest S st = (root, st1)" by fastforce
  then have same: "sl_diffs st1 = sl_diffs st" "sl_log st1 = sl_log st"
    by (auto simp: rootDigest_def case_prod_beta)
  have walk: False if "(log_find S d st1 :: 'e sync_exn + nat option) = Inr (Some a)"
      and "diff_diff (sl_diffs st) (sl_diffs st ! a) = None" for a
  proof -
    have "a \<in> set (sl_log st)"
      using that(1) by (cases "digest_getHash S d :: 'e sync_exn + 64 word") (auto simp: log_find_def same find_Some_iff)
    then show ?thesis using log_entry [OF assms] that(2) by fastforce
  qed
  show "digest_only (processSyncInterest S L n d False st :: ('e sync_exn, 'a sync_logic) outcome)"
    unfolding processSyncInterest_def root Let_def prod.case
    by (intro digest_only_with)
      (auto intro!: digest_only_with dest!: digest_errors log_find_error table_insert_error walk
        simp: same sendSyncRecoveryInterests_def split: if_splits option.split prod.split sum.split)
  show "digest_only (processSyncRecoveryInterest S n d st :: ('e sync_exn, 'a sync_logic) outcome)"
    unfolding processSyncRecoveryInterest_def
    by (auto intro!: digest_only_with dest: log_find_error split: option.split)
qed

lemma string_to_binary_errors:
  "(string_to_binary cs :: 'e sync_exn + bytes) = Inl e \<Longrightarrow> e = DigestCalculationError"
proof (induction cs rule: string_to_binary.induct)
  case (2 c)
  then show ?case by (auto simp: hex_to_4_bit_def Let_def split: if_splits)
next
  case (3 c d cs)
  show ?case
  proof (cases "hex_to_4_bit c :: 'e sync_exn + 8 word")
    case (Inl x)
    then show ?thesis using 3(2) by (auto simp: hex_to_4_bit_def Let_def split: if_splits)
  next
    case (Inr x)
    note x = this
    show ?thesis
    proof (cases "hex_to_4_bit d :: 'e sync_exn + 8 word")
      case (Inl y)
      then show ?thesis using 3(2) x by (auto simp: hex_to_4_bit_def Let_def split: if_splits)
    next
      case (Inr y)
      then show ?thesis using 3 x by (cases "string_to_binary cs :: 'e sync_exn + bytes") auto
    qed
  qed
qed simp

lemma digest_read_errors:
  assumes "(digest_read s d :: 'e sync_exn + digest) = Inl e"
  shows "e = DigestCalculationError"
proof -
  let ?str = "takeWhile (\<lambda>c. \<not> white_space c) (dropWhile white_space s)"
  show ?thesis
    using assms string_to_binary_errors [of ?str] unfolding digest_read_def
    by (cases "string_to_binary ?str :: 'e sync_exn + bytes") (auto simp: Let_def split: if_splits)
qed

text \<open>C19: What an Interest for the sync prefix can do to the router: one whose name does not have one
  or two components after the prefix ends in a failed assertion, and every other one is handled
  without an exception, whatever its digest and its type are.\<close>

theorem interest_exceptions:
  assumes "hash_ok S" and "sync_run S L cb Ms st"
  shows "fst (onSyncInterest S L n st :: ('e sync_exn, 'a sync_logic) outcome) =
    (if take (length (sl_syncPrefix st)) n \<noteq> sl_syncPrefix st \<or> length n \<le> length (sl_syncPrefix st) \<or>
        length n > length (sl_syncPrefix st) + 2 then Some AssertionFailed else None)"
proof -
  have log: "log_ok S Ms st" using sync_run_ok [OF assms] by (simp add: sync_ok_def)
  let ?hash = "compToUri L (compAt L n (-1))" and ?k = "int (length n) - int (length (sl_syncPrefix st))"
  show ?thesis
  proof (cases "take (length (sl_syncPrefix st)) n = sl_syncPrefix st \<and> ?k > 0 \<and> ?k < 3")
    case True
    show ?thesis
    proof (cases "digest_read ?hash digest_new :: 'e sync_exn + digest")
      case (Inl e)
      then have "e = DigestCalculationError" by (rule digest_read_errors)
      then show ?thesis using Inl True
        by (auto simp: onSyncInterest_def convertNameToDigestAndType_def catch_digest_error_def)
    next
      case (Inr d)
      have "fst (catch_digest_error (and_next r (\<lambda>st. (None, sync_stat p st)))) = None" if "digest_only r"
        for r :: "('e sync_exn, 'a sync_logic) outcome" and p
        using that by (cases r) (auto simp: digest_only_def catch_digest_error_def)
      then show ?thesis using Inr True interest_errors [OF log, where 'e = 'e]
        by (auto simp: onSyncInterest_def convertNameToDigestAndType_def catch_digest_error_def Let_def)
    qed
  next
    case False
    then show ?thesis by (auto simp: onSyncInterest_def convertNameToDigestAndType_def catch_digest_error_def)
  qed
qed

lemma interest_exceptions_witness:
  "fst (onSyncInterest demo_sync demo_lib [''sync''] demo_published :: (unit sync_exn, _) outcome) = Some AssertionFailed \<and>
   fst (onSyncInterest demo_sync demo_lib [''sync'', ''z''] demo_published :: (unit sync_exn, _) outcome) = None \<and>
   fst (onSyncInterest demo_sync demo_lib [''sync'', ''recovery'', ''0a''] demo_published :: (unit sync_exn, _) outcome) = None"
proof -
  have prefix: "sl_syncPrefix demo_published = [''sync'']" by code_simp
  show ?thesis
    using interest_exceptions [where 'e = unit, OF demo_hash_ok demo_published_run, of "[''sync'', ''z'']"]
      interest_exceptions [where 'e = unit, OF demo_hash_ok demo_published_run, of "[''sync'']"]
      interest_exceptions [where 'e = unit, OF demo_hash_ok demo_published_run, of "[''sync'', ''recovery'', ''0a'']"]
    by (simp add: prefix)
qed

section \<open>Removals\<close>

text \<open>
  A removed prefix that is published again with a lower number: a replica that knew an older
  state gets the lower number in place of the removal, ignores it, and stays different.
\<close>

definition publish_x :: "64 word \<Rightarrow> unit sync_logic \<Rightarrow> unit sync_logic" where
  "publish_x q st = snd (addLocalNames demo_sync demo_lib [''x''] 0 q st :: (unit sync_exn, _) outcome)"

definition remove_x :: "unit sync_logic \<Rightarrow> unit sync_logic" where
  "remove_x st = snd (sync_remove demo_sync demo_lib [''x''] st :: (unit sync_exn, _) outcome)"

definition ask_and_process :: "unit sync_logic \<Rightarrow> unit sync_logic \<Rightarrow> unit sync_logic" where
  "ask_and_process A B =
     (let B = snd (sendSyncInterest demo_sync B :: (unit sync_exn, _) outcome);
          A = snd (onSyncInterest demo_sync demo_lib (sl_outstanding B) A :: (unit sync_exn, _) outcome)
      in case last (io_out (sl_io A)) of
           PutSync n w _ \<Rightarrow> snd (onSyncDataValidated demo_sync demo_lib demo_cb \<lparr>data_name = n, data_content = w\<rparr> B)
         | _ \<Rightarrow> B)"

lemma removal_not_followed:
  "content_of (publish_x 3 (remove_x (publish_x 5 (publish_x 4 demo_fresh)))) ''/x'' = Some (0, 3) \<and>
   content_of (ask_and_process (publish_x 3 (remove_x (publish_x 5 (publish_x 4 demo_fresh)))) (publish_x 4 demo_fresh)) ''/x'' =
     Some (0, 4) \<and>
   content_of (ask_and_process (publish_x 6 (remove_x (publish_x 5 (publish_x 4 demo_fresh)))) (publish_x 4 demo_fresh)) ''/x'' =
     Some (0, 6)"
  by code_simp

end
