(* ===== verification/Sync_Daemon.thy ===== *)
theory Sync_Daemon
  imports Sync_Properties Demo_Run
begin

text \<open>
  The daemon on top of the sync protocol (src/src/communication/sync-logic-handler.cpp): its
  callbacks, and the way of a sequence number from the router that publishes it to the daemon
  of another router.
\<close>

text \<open>\<open>onNsyncRemoval\<close> only logs.\<close>

definition nlsr_callbacks :: "ndn_lib \<Rightarrow> (nlsr, exn) callbacks" where
  "nlsr_callbacks L = \<lparr>
     cb_update = (\<lambda>v. onNsyncUpdate L (map (\<lambda>m. (md_prefix m, sn_seq (md_high m))) v)),
     cb_remove = (\<lambda>prefix. Inr), cb_branch = (\<lambda>n. Inr)\<rparr>"

lemma no_leaves: "leaves_content ls = (\<lambda>_. None) \<longleftrightarrow> ls = []"
proof
  assume none: "leaves_content ls = (\<lambda>_. None)"
  show "ls = []"
  proof (cases ls)
    case (Cons l k)
    then have "leaf_find (lf_info l) ls = Some l" by (simp add: leaf_find_def)
    then have "leaves_content ls (lf_info l) = Some (pair_of (lf_seq l))" by (simp add: leaves_content_def)
    with none show ?thesis by simp
  qed
qed (simp add: fun_eq_iff leaves_content_def leaf_find_def)

text \<open>The newest entry of the log has the digest of the present state.\<close>

lemma newest_entry:
  assumes "sync_ok S Ms st" and "sl_log st \<noteq> []"
  shows "hd (sl_log st) \<in> set (sl_log st) \<and>
    ds_digest (sl_diffs st ! hd (sl_log st)) = Some (compute_digest S (fs_leaves (sl_state st)))"
proof -
  have ok: "log_ok S Ms st" using assms(1) by (simp add: sync_ok_def)
  then have "Ms \<noteq> []" using assms(2) by (auto simp: log_ok_def)
  then have h: "hd (sl_log st) = length Ms - 1" "hd (sl_log st) < length Ms" and l: "last Ms = fs_leaves (sl_state st)"
    using ok by (simp_all add: log_ok_def)
  then have "node_ok S Ms (sl_diffs st) (hd (sl_log st))" using ok by (simp add: log_ok_def)
  then have "ds_digest (sl_diffs st ! hd (sl_log st)) = Some (compute_digest S (Ms ! (length Ms - 1)))"
    using h(1) by (simp add: node_ok_def)
  then show ?thesis using l \<open>Ms \<noteq> []\<close> assms(2) by (simp add: last_conv_nth)
qed

text \<open>C6: When a router publishes a new number, a router that had the same state before is given
  it by the next exchange of an Interest and a Data packet, its daemon processes the update for
  exactly this prefix and number, and both routers have the same state again.\<close>

theorem published_number_arrives:
  fixes so :: "'a sync_socket" and B :: "nlsr sync_logic" and cbA :: "('a, 'f) callbacks"
  assumes S: "hash_ok S" "messages_ok S" and L: "codec_ok L" "name_slices_ok L" "hex_uri_ok L"
    and A: "sync_run S L cbA Ms (so_logic so)" and B: "sync_run S L (nlsr_callbacks L) Ns B"
    and pfx: "sl_syncPrefix (so_logic so) = sl_syncPrefix B" and same: "content_of B = content_of (so_logic so)"
    and post: "po_session post = 0" "ahead (content_of B) (toUri L (po_prefix post)) (0, po_seq post)"
    and no_forwarder: "toUri L (po_prefix post) \<noteq> forwarderPrefix"
    and A': "publishDataInternal S L post so = (None :: 'f sync_exn option, so')"
    and differ: "dg_buffer (fst (rootDigest S (so_logic so'))) \<noteq> dg_buffer (fst (rootDigest S B))"
    and coll: "no_collision S (Ms @ [fs_leaves (sl_state (so_logic so'))]) (fs_leaves (sl_state B))"
  shows "\<exists>B1 A1 w B2. sendSyncInterest S B = (None :: exn sync_exn option, B1) \<and>
    onSyncInterest S L (sl_outstanding B1) (so_logic so') = (None :: 'f sync_exn option, A1) \<and>
    io_out (sl_io A1) = io_out (sl_io (so_logic so')) @ [PutSync (sl_outstanding B1) w (syncResponseFreshness * second)] \<and>
    onSyncDataValidated S L (nlsr_callbacks L) \<lparr>data_name = sl_outstanding B1, data_content = w\<rparr> B1 = (None, B2) \<and>
    sl_app B2 = processUpdateFromSync L (sync_update_of (po_prefix post) (po_seq post)) (sl_app B) \<and>
    content_of B2 = content_of (so_logic so')"
proof -
  let ?p = "po_prefix post" and ?q = "po_seq post" and ?A = "so_logic so"
  obtain io where p: "addLocalNames S L ?p 0 ?q (?A\<lparr>sl_io := io\<rparr>) = (None :: 'f sync_exn option, so_logic so')"
    using A' post(1) by (auto simp: publishDataInternal_def Let_def on_sync_io_def split: prod.splits)
  let ?A1 = "?A\<lparr>sl_io := io\<rparr>" and ?A' = "so_logic so'"
  have okA: "sync_ok S Ms ?A1" using sync_ok_quiet [OF _ sync_run_ok [OF S(1) A], of ?A1] by simp
  have okB: "sync_ok S Ns B" by (rule sync_run_ok [OF S(1) B])
  have new: "ahead (content_of ?A1) (toUri L ?p) (0, ?q)" using post(2) same by simp
  note pub = published_ok [where 'e = 'f, OF S(1) okA new, unfolded p snd_conv]
  have wf: "full_wf S (sl_state ?A')" "full_wf S (sl_state B)" "full_wf S (sl_state ?A1)"
    using pub(1) okA okB by (simp_all add: sync_ok_def log_ok_def)
  have same_digest_B: "compute_digest S (fs_leaves (sl_state ?A1)) = compute_digest S (fs_leaves (sl_state B))"
    using same_content_same_digest [OF wf(3,2)] same by simp
  have known: "fs_leaves (sl_state B) = [] \<or>
      (\<exists>a\<in>set (sl_log ?A'). same_digest (compute_digest S (fs_leaves (sl_state B))) (sl_diffs ?A' ! a))"
  proof (cases "sl_log ?A1 = []")
    case True
    then have "fs_leaves (sl_state ?A1) = []" using okA by (auto simp: sync_ok_def log_ok_def split: if_splits)
    then show ?thesis using same no_leaves [of "fs_leaves (sl_state B)"] no_leaves [of "fs_leaves (sl_state ?A1)"] by simp
  next
    case False
    let ?b = "hd (sl_log ?A1)"
    have b: "?b \<in> set (sl_log ?A1)" "ds_digest (sl_diffs ?A1 ! ?b) = Some (compute_digest S (fs_leaves (sl_state B)))"
      using newest_entry [OF okA False] same_digest_B by auto
    then have d: "ds_digest (sl_diffs ?A' ! ?b) = Some (compute_digest S (fs_leaves (sl_state B)))"
      and "same_digest (compute_digest S (fs_leaves (sl_state ?A'))) (sl_diffs ?A' ! ?b) \<or> ?b \<in> set (sl_log ?A')"
      using pub(4) [OF b(1)] by auto
    then have "?b \<in> set (sl_log ?A')" "same_digest (compute_digest S (fs_leaves (sl_state B))) (sl_diffs ?A' ! ?b)"
      using differ rootDigest_wf(1) [OF wf(1)] rootDigest_wf(1) [OF wf(2)] by (auto simp: same_digest_def)
    then show ?thesis by blast
  qed
  have differ': "dg_buffer (compute_digest S (fs_leaves (sl_state ?A'))) \<noteq> dg_buffer (compute_digest S (fs_leaves (sl_state B)))"
    using differ rootDigest_wf(1) [OF wf(1)] rootDigest_wf(1) [OF wf(2)] by simp
  have pfx': "sl_syncPrefix ?A' = sl_syncPrefix B" using pub(3) pfx by simp
  obtain B1 A1 w v r where x: "sendSyncInterest S B = (None :: exn sync_exn option, B1)"
      "onSyncInterest S L (sl_outstanding B1) ?A' = (None :: 'f sync_exn option, A1)"
      "io_out (sl_io A1) = io_out (sl_io ?A') @ [PutSync (sl_outstanding B1) w (syncResponseFreshness * second)]"
      "r = onSyncDataValidated S L (nlsr_callbacks L) \<lparr>data_name = sl_outstanding B1, data_content = w\<rparr> B1"
      "content_of (snd r) = content_of ?A'"
      "set (map (\<lambda>x. (md_prefix x, pair_of (md_high x))) v) =
        {(n, q). content_of ?A' n = Some q \<and> content_of B n \<noteq> Some q \<and> n \<noteq> forwarderPrefix}" "distinct (map md_prefix v)"
      "case if v = [] then Inr (sl_app B) else cb_update (nlsr_callbacks L) v (sl_app B) of
        Inl e \<Rightarrow> fst r = Some (Callback e) | Inr app \<Rightarrow> fst r = None \<and> sl_app (snd r) = app"
    using exchange [OF S L(2,3) pub(1) okB pfx' differ' known coll, where cb = "nlsr_callbacks L" and 'f = 'f] by blast
  have "{(n, q). content_of ?A' n = Some q \<and> content_of B n \<noteq> Some q \<and> n \<noteq> forwarderPrefix} = {(toUri L ?p, (0, ?q))}"
    using new no_forwarder same by (auto simp: pub(2) ahead_def split: if_splits option.splits)
  then have v: "set (map (\<lambda>x. (md_prefix x, pair_of (md_high x))) v) = {(toUri L ?p, (0, ?q))}" using x(6) by simp
  with x(7) have one: "length v = 1"
    by (cases v; cases "tl v") (auto simp: image_iff)
  then obtain y where y: "v = [y]" "md_prefix y = toUri L ?p" "sn_seq (md_high y) = ?q"
    using v by (auto simp: length_Suc_conv pair_of_def)
  have "cb_update (nlsr_callbacks L) v (sl_app B) = Inr (processUpdateFromSync L (sync_update_of ?p ?q) (sl_app B))"
    using codec_laws(1) [OF L(1)] y by (simp add: nlsr_callbacks_def)
  with x(8) y(1) have "fst r = None" "sl_app (snd r) = processUpdateFromSync L (sync_update_of ?p ?q) (sl_app B)" by simp_all
  then have "r = (None, snd r)" by (simp add: prod_eq_iff)
  then show ?thesis
    using x(1-5) \<open>sl_app (snd r) = _\<close> by (intro exI [of _ B1] exI [of _ A1] exI [of _ w] exI [of _ "snd r"] conjI) auto
qed

definition demo_post :: posted_data where
  "demo_post = \<lparr>po_content = '''', po_freshness = 1000, po_prefix = [''x''], po_session = 0, po_seq = 1\<rparr>"

definition demo_socket :: "unit sync_socket" where
  "demo_socket = \<lparr>so_logic = demo_fresh, so_sequenceLog = Map.empty, so_posted = []\<rparr>"

definition demo_posted :: "unit sync_socket" where
  "demo_posted = snd (publishDataInternal demo_sync demo_lib demo_post demo_socket :: (unit sync_exn, _) outcome)"

lemma demo_posted_facts:
  "fst (publishDataInternal demo_sync demo_lib demo_post demo_socket :: (unit sync_exn, _) outcome) = None \<and>
   dg_buffer (fst (rootDigest demo_sync (so_logic demo_posted))) \<noteq> [0] \<and>
   dg_buffer (compute_digest demo_sync (fs_leaves (sl_state (so_logic demo_posted)))) \<noteq> [0] \<and>
   content_of (so_logic demo_posted) ''/x'' = Some (0, 1) \<and>
   toUri demo_lib [''x''] = ''/x'' \<and> sl_syncPrefix demo_fresh = [''sync'']"
  by code_simp

lemma published_number_arrives_witness:
  "\<exists>B2. sl_app B2 = processUpdateFromSync demo_lib (sync_update_of [''x''] 1) demo_start \<and>
     content_of B2 ''/x'' = Some (0, 1)"
proof -
  let ?B = "sync_logic_new False [''sync''] [] 0 demo_start_io demo_start"
  have B: "sync_run demo_sync demo_lib (nlsr_callbacks demo_lib) [] ?B" by (rule sync_run.created)
  have facts: "sl_state ?B = full_state_new" "sl_syncPrefix ?B = [''sync'']" "sl_app ?B = demo_start"
    by (simp_all add: sync_logic_new_def Let_def case_prod_beta)
  have none: "content_of ?B = (\<lambda>_. None)" by (simp add: facts fun_eq_iff leaves_content_def leaf_find_def full_state_new_def)
  have root: "dg_buffer (fst (rootDigest demo_sync ?B)) = [0]"
    by (simp add: rootDigest_def full_getDigest_def facts full_state_new_def compute_digest_def case_prod_beta Let_def)
  have logic: "so_logic demo_socket = demo_fresh" by (simp add: demo_socket_def)
  have run: "sync_run demo_sync demo_lib demo_cb [] (so_logic demo_socket)" unfolding logic by (rule demo_fresh_run)
  have p: "publishDataInternal demo_sync demo_lib demo_post demo_socket = (None :: unit sync_exn option, demo_posted)"
    using demo_posted_facts by (simp add: demo_posted_def prod_eq_iff)
  have "content_of ?B = content_of (so_logic demo_socket)"
    unfolding logic by (simp add: none demo_fresh_content fun_eq_iff)
  moreover have "ahead (content_of ?B) (toUri demo_lib (po_prefix demo_post)) (0, po_seq demo_post)" by (simp add: none ahead_def)
  moreover have "toUri demo_lib (po_prefix demo_post) \<noteq> forwarderPrefix"
    using demo_posted_facts by (simp add: demo_post_def forwarderPrefix_def)
  moreover have "no_collision demo_sync ([] @ [fs_leaves (sl_state (so_logic demo_posted))]) (fs_leaves (sl_state ?B))"
    using demo_posted_facts by (simp add: no_collision_def facts full_state_new_def compute_digest_def [of _ "[]"])
  ultimately obtain B2 where "sl_app B2 = processUpdateFromSync demo_lib (sync_update_of (po_prefix demo_post) (po_seq demo_post)) (sl_app ?B)"
      "content_of B2 = content_of (so_logic demo_posted)"
    using published_number_arrives [OF demo_hash_ok demo_messages_ok demo_codec demo_slices demo_hex run B _ _ _ _ _ p]
      facts(2) logic demo_posted_facts root by (auto simp: demo_post_def)
  then show ?thesis using demo_posted_facts facts(3) by (auto simp: demo_post_def)
qed

end
