(* ===== verification/Conf_File.thy ===== *)
theory Conf_File
  imports System
begin

text \<open>
  \<open>ConfFileProcessor\<close> (src/src/conf-file-processor.cpp): the configuration file, read into a
  property tree, sets the parameters, the neighbors and the advertised prefixes section by
  section, until one is rejected. \<open>NlsrRunner::run\<close> (src/src/nlsr-runner.cpp) then starts the
  daemon.

  The parser of the file, the conversions of values, the file system, the parser of face URIs
  and the loading of validators and certificates are arguments.
\<close>

section \<open>Library functions\<close>

datatype config = Config (config_data: string) (config_children: "(string \<times> config) list")

text \<open>\<open>PathError\<close>: the query throws.\<close>

datatype path_status = PathMissing | PathDirectory | PathOther | PathError

record conf_lib =
  cl_contents :: "string \<Rightarrow> string option"            \<comment> \<open>\<open>None\<close>: the file cannot be opened\<close>
  cl_readInfo :: "string \<Rightarrow> config option"            \<comment> \<open>\<open>None\<close>: \<open>info_parser_error\<close>\<close>
  cl_readU32 :: "string \<Rightarrow> 32 word option"
  cl_readInt :: "string \<Rightarrow> int option"
  cl_readDouble :: "string \<Rightarrow> real option"
  cl_parseFaceUri :: "string \<Rightarrow> bool"
  cl_status :: "string \<Rightarrow> path_status"
  cl_writable :: "string \<Rightarrow> bool"
  cl_loadValidator :: "config \<Rightarrow> string \<Rightarrow> bool"       \<comment> \<open>\<open>False\<close>: it throws\<close>
  cl_absolute :: "string \<Rightarrow> string \<Rightarrow> string"         \<comment> \<open>of a path, against the place of a file\<close>
  cl_loadCert :: "string \<Rightarrow> certificate option"

definition conf_get :: "string \<Rightarrow> config \<Rightarrow> string option" where
  "conf_get key section = map_option (\<lambda>(_, c). config_data c) (by_key fst key (config_children section))"

definition conf_getAs :: "(string \<Rightarrow> 'v option) \<Rightarrow> string \<Rightarrow> config \<Rightarrow> 'v option" where
  "conf_getAs conv key section = Option.bind (conf_get key section) conv"

text \<open>With a default, which also stands for a value that cannot be converted.\<close>

definition conf_getOr :: "(string \<Rightarrow> 'v option) \<Rightarrow> string \<Rightarrow> 'v \<Rightarrow> config \<Rightarrow> 'v" where
  "conf_getOr conv key dflt section = (case conf_getAs conv key section of Some v \<Rightarrow> v | None \<Rightarrow> dflt)"

definition toupper :: "char \<Rightarrow> char" where
  "toupper c = (let n = of_char c :: nat in if 97 \<le> n \<and> n \<le> 122 then char_of (n - 32) else c)"

definition iequals :: "string \<Rightarrow> string \<Rightarrow> bool" where
  "iequals a b \<longleftrightarrow> map toupper a = map toupper b"

definition isValidLogLevel :: "string \<Rightarrow> bool" where
  "isValidLogLevel s \<longleftrightarrow> iequals s ''all'' \<or> iequals s ''trace'' \<or> iequals s ''debug'' \<or> iequals s ''info'' \<or>
     iequals s ''warn'' \<or> iequals s ''error'' \<or> iequals s ''none''"

section \<open>Variables with a range\<close>

text \<open>A section is rejected, or an exception leaves the processor.\<close>

datatype conf_failure = Rejected | Thrown

type_synonym conf_outcome = "(conf_failure, nlsr) outcome"

definition on_conf :: "(conf \<Rightarrow> conf) \<Rightarrow> nlsr \<Rightarrow> nlsr" where
  "on_conf f st = st\<lparr>n_conf := f (n_conf st)\<rparr>"

definition set_checked :: "bool \<Rightarrow> (conf \<Rightarrow> conf) \<Rightarrow> nlsr \<Rightarrow> conf_outcome" where
  "set_checked ok f st = (if ok then (None, on_conf f st) else (Some Rejected, st))"

record configuration_variable =
  cv_key :: string
  cv_setter :: "32 word \<Rightarrow> conf \<Rightarrow> conf"
  cv_default :: "32 word"
  cv_minValue :: "32 word"
  cv_maxValue :: "32 word"
  cv_shouldCheckRange :: bool
  cv_isRequired :: bool

definition configurationVariable :: "string \<Rightarrow> (32 word \<Rightarrow> conf \<Rightarrow> conf) \<Rightarrow> configuration_variable" where
  "configurationVariable key setter = \<lparr>cv_key = key, cv_setter = setter, cv_default = 0,
     cv_minValue = 0, cv_maxValue = 0, cv_shouldCheckRange = False, cv_isRequired = True\<rparr>"

definition setMinAndMaxValue :: "nat \<Rightarrow> nat \<Rightarrow> configuration_variable \<Rightarrow> configuration_variable" where
  "setMinAndMaxValue lo hi v = v\<lparr>cv_minValue := of_nat lo, cv_maxValue := of_nat hi, cv_shouldCheckRange := True\<rparr>"

definition setOptional :: "nat \<Rightarrow> configuration_variable \<Rightarrow> configuration_variable" where
  "setOptional dflt v = v\<lparr>cv_isRequired := False, cv_default := of_nat dflt\<rparr>"

definition isValidValue :: "configuration_variable \<Rightarrow> 32 word \<Rightarrow> bool" where
  "isValidValue v x =
     (if \<not> cv_shouldCheckRange v then True
      else if x < cv_minValue v \<or> x > cv_maxValue v then False
      else True)"

definition parseFromConfigSection :: "conf_lib \<Rightarrow> configuration_variable \<Rightarrow> config \<Rightarrow> nlsr \<Rightarrow> conf_outcome" where
  "parseFromConfigSection C v section st = (case conf_getAs (cl_readU32 C) (cv_key v) section of
       Some x \<Rightarrow> set_checked (isValidValue v x) (cv_setter v x) st
     | None \<Rightarrow> set_checked (\<not> cv_isRequired v) (cv_setter v (cv_default v)) st)"

section \<open>The sections\<close>

text \<open>A name that is not empty; one that cannot be parsed throws, which is caught.\<close>

definition set_name :: "ndn_lib \<Rightarrow> string \<Rightarrow> (name \<Rightarrow> conf \<Rightarrow> conf) \<Rightarrow> nlsr \<Rightarrow> conf_outcome" where
  "set_name L uri setter st = (case ofUri L uri of
       None \<Rightarrow> (Some Rejected, st)
     | Some n \<Rightarrow> set_checked (n \<noteq> []) (setter n) st)"

definition process_names :: "ndn_lib \<Rightarrow> config \<Rightarrow> nlsr \<Rightarrow> conf_outcome" where
  "process_names L section st =
     (case (conf_get ''network'' section, conf_get ''site'' section, conf_get ''router'' section) of
        (Some network, Some site, Some router) \<Rightarrow>
          and_next (set_name L network setNetwork st) (\<lambda>st.
          and_next (set_name L site setSiteName st)
            (set_name L router setRouterName))
      | _ \<Rightarrow> (Some Rejected, st))"

text \<open>A directory in which a test file can be written.\<close>

definition process_directory ::
  "conf_lib \<Rightarrow> string \<Rightarrow> string \<Rightarrow> (string \<Rightarrow> conf \<Rightarrow> conf) \<Rightarrow> config \<Rightarrow> nlsr \<Rightarrow> conf_outcome" where
  "process_directory C key testFile setter section st = (case conf_get key section of
       None \<Rightarrow> (Some Rejected, st)
     | Some dir \<Rightarrow> set_checked (cl_status C dir = PathDirectory \<and> cl_writable C (dir @ testFile)) (setter dir) st)"

definition process_log4cxx :: "conf_lib \<Rightarrow> config \<Rightarrow> nlsr \<Rightarrow> conf_outcome" where
  "process_log4cxx C section st = (case conf_get ''log4cxx-conf'' section of
       None \<Rightarrow> (None, st)
     | Some path \<Rightarrow>
         if path = '''' then (Some Rejected, st)
         else (case cl_status C path of
             PathError \<Rightarrow> (None, st)
           | PathMissing \<Rightarrow> (Some Rejected, st)
           | _ \<Rightarrow> (None, on_conf (setLog4CxxConfPath path) st)))"

definition processConfSectionGeneral :: "conf_lib \<Rightarrow> ndn_lib \<Rightarrow> config \<Rightarrow> nlsr \<Rightarrow> conf_outcome" where
  "processConfSectionGeneral C L section st =
     (let lsaRefreshTime = conf_getOr (cl_readU32 C) ''lsa-refresh-time'' (of_nat LSA_REFRESH_TIME_DEFAULT) section;
          routerDeadInterval = conf_getOr (cl_readU32 C) ''router-dead-interval'' (2 * lsaRefreshTime) section;
          lifetime = conf_getOr (cl_readInt C) ''lsa-interest-lifetime'' LSA_INTEREST_LIFETIME_DEFAULT section;
          logLevel = conf_getOr Some ''log-level'' ''INFO'' section
      in and_next (process_names L section st) (\<lambda>st.
         and_next (set_checked (of_nat LSA_REFRESH_TIME_MIN \<le> lsaRefreshTime \<and> lsaRefreshTime \<le> of_nat LSA_REFRESH_TIME_MAX)
           (setLsaRefreshTime lsaRefreshTime) st) (\<lambda>st.
         and_next (set_checked (routerDeadInterval > cf_lsaRefreshTime (n_conf st))
           (setRouterDeadInterval routerDeadInterval) st) (\<lambda>st.
         and_next (set_checked (LSA_INTEREST_LIFETIME_MIN \<le> lifetime \<and> lifetime \<le> LSA_INTEREST_LIFETIME_MAX)
           (setLsaInterestLifetime lifetime) st) (\<lambda>st.
         and_next (set_checked (isValidLogLevel logLevel) (setLogLevel logLevel) st) (\<lambda>st.
         and_next (process_directory C ''log-dir'' ''/test.log'' setLogDir section st) (\<lambda>st.
         and_next (process_directory C ''seq-dir'' ''/test.seq'' setSeqFileDir section st)
           (process_log4cxx C section))))))))"

text \<open>A neighbor with an empty name is skipped.\<close>

definition process_neighbor :: "conf_lib \<Rightarrow> ndn_lib \<Rightarrow> config \<Rightarrow> nlsr \<Rightarrow> conf_outcome" where
  "process_neighbor C L attrs st = (case (conf_get ''name'' attrs, conf_get ''face-uri'' attrs) of
       (Some nm, Some faceUri) \<Rightarrow>
         if \<not> cl_parseFaceUri C faceUri then (Some Rejected, st)
         else (case ofUri L nm of
             None \<Rightarrow> (Some Rejected, st)
           | Some n \<Rightarrow>
               (None, if n \<noteq> [] then
                   st\<lparr>n_adl := snd (adl_insert \<lparr>ad_name = n, ad_faceUri = faceUri,
                     ad_linkCost = conf_getOr (cl_readDouble C) ''link-cost'' DEFAULT_LINK_COST attrs,
                     ad_status = STATUS_INACTIVE, ad_timedOut = 0, ad_faceId = 0\<rparr> (n_adl st))\<rparr>
                 else st))
     | _ \<Rightarrow> (Some Rejected, st))"

text \<open>The subsections with a given key, in their order, until one fails.\<close>

fun for_each :: "string \<Rightarrow> (config \<Rightarrow> nlsr \<Rightarrow> conf_outcome) \<Rightarrow> (string \<times> config) list \<Rightarrow> nlsr \<Rightarrow> conf_outcome" where
  "for_each key f [] st = (None, st)"
| "for_each key f ((k, c) # cs) st =
     (if k = key then and_next (f c st) (for_each key f cs) else for_each key f cs st)"

definition adjLsaBuildInterval :: configuration_variable where
  "adjLsaBuildInterval = setOptional ADJ_LSA_BUILD_INTERVAL_DEFAULT
     (setMinAndMaxValue ADJ_LSA_BUILD_INTERVAL_MIN ADJ_LSA_BUILD_INTERVAL_MAX
       (configurationVariable ''adj-lsa-build-interval'' setAdjLsaBuildInterval))"

definition firstHelloInterval :: configuration_variable where
  "firstHelloInterval = setOptional FIRST_HELLO_INTERVAL_DEFAULT
     (setMinAndMaxValue FIRST_HELLO_INTERVAL_MIN FIRST_HELLO_INTERVAL_MAX
       (configurationVariable ''first-hello-interval'' setFirstHelloInterval))"

definition routingCalcInterval :: configuration_variable where
  "routingCalcInterval = setOptional ROUTING_CALC_INTERVAL_DEFAULT
     (setMinAndMaxValue ROUTING_CALC_INTERVAL_MIN ROUTING_CALC_INTERVAL_MAX
       (configurationVariable ''routing-calc-interval'' setRoutingCalcInterval))"

definition processConfSectionNeighbors :: "conf_lib \<Rightarrow> ndn_lib \<Rightarrow> config \<Rightarrow> nlsr \<Rightarrow> conf_outcome" where
  "processConfSectionNeighbors C L section st =
     (let retrials = conf_getOr (cl_readInt C) ''hello-retries'' HELLO_RETRIES_DEFAULT section;
          timeOut = conf_getOr (cl_readU32 C) ''hello-timeout'' (of_nat HELLO_TIMEOUT_DEFAULT) section;
          interval = conf_getOr (cl_readU32 C) ''hello-interval'' (of_nat HELLO_INTERVAL_DEFAULT) section
      in and_next (set_checked (HELLO_RETRIES_MIN \<le> retrials \<and> retrials \<le> HELLO_RETRIES_MAX)
           (setInterestRetryNumber (of_int retrials)) st) (\<lambda>st.
         and_next (set_checked (of_nat HELLO_TIMEOUT_MIN \<le> timeOut \<and> timeOut \<le> of_nat HELLO_TIMEOUT_MAX)
           (setInterestResendTime timeOut) st) (\<lambda>st.
         and_next (set_checked (of_nat HELLO_INTERVAL_MIN \<le> interval \<and> interval \<le> of_nat HELLO_INTERVAL_MAX)
           (setInfoInterestInterval interval) st) (\<lambda>st.
         and_next (parseFromConfigSection C adjLsaBuildInterval section st) (\<lambda>st.
         and_next (parseFromConfigSection C firstHelloInterval section st)
           (for_each ''neighbor'' (process_neighbor C L) (config_children section)))))))"

text \<open>The coordinates may be missing when the state is off; the comparison is by letter there.\<close>

definition process_coordinates :: "conf_lib \<Rightarrow> string \<Rightarrow> config \<Rightarrow> nlsr \<Rightarrow> conf_outcome" where
  "process_coordinates C state section st =
     (case (conf_getAs (cl_readDouble C) ''radius'' section, conf_getAs (cl_readDouble C) ''angle'' section) of
        (Some radius, Some angle) \<Rightarrow>
          (case setCorR radius (n_conf st) of
             (False, _) \<Rightarrow> (Some Rejected, st)
           | (True, c) \<Rightarrow> (None, on_conf (setCorTheta angle) (st\<lparr>n_conf := c\<rparr>)))
      | _ \<Rightarrow> if state = ''on'' \<or> state = ''dry-run'' then (Some Rejected, st) else (None, st))"

definition processConfSectionHyperbolic :: "conf_lib \<Rightarrow> config \<Rightarrow> nlsr \<Rightarrow> conf_outcome" where
  "processConfSectionHyperbolic C section st =
     (let state = conf_getOr Some ''state'' ''off'' section
      in and_next
           (if iequals state ''off'' then (None, on_conf (setHyperbolicState HYPERBOLIC_STATE_OFF) st)
            else if iequals state ''on'' then (None, on_conf (setHyperbolicState HYPERBOLIC_STATE_ON) st)
            else if state = ''dry-run'' then (None, on_conf (setHyperbolicState HYPERBOLIC_STATE_DRY_RUN) st)
            else (Some Rejected, st))
           (process_coordinates C state section))"

definition processConfSectionFib :: "conf_lib \<Rightarrow> config \<Rightarrow> nlsr \<Rightarrow> conf_outcome" where
  "processConfSectionFib C section st =
     (let maxFacesPerPrefix = conf_getOr (cl_readInt C) ''max-faces-per-prefix'' MAX_FACES_PER_PREFIX_DEFAULT section
      in and_next (set_checked (MAX_FACES_PER_PREFIX_MIN \<le> maxFacesPerPrefix \<and> maxFacesPerPrefix \<le> MAX_FACES_PER_PREFIX_MAX)
           (setMaxFacesPerPrefix (of_int maxFacesPerPrefix)) st)
           (parseFromConfigSection C routingCalcInterval section))"

definition process_prefix :: "ndn_lib \<Rightarrow> config \<Rightarrow> nlsr \<Rightarrow> conf_outcome" where
  "process_prefix L c st = (case ofUri L (config_data c) of
       None \<Rightarrow> (Some Rejected, st)
     | Some n \<Rightarrow> if n \<noteq> [] then (None, st\<lparr>n_npl := snd (npl_insert n (n_npl st))\<rparr>) else (Some Rejected, st))"

definition processConfSectionAdvertising :: "ndn_lib \<Rightarrow> config \<Rightarrow> nlsr \<Rightarrow> conf_outcome" where
  "processConfSectionAdvertising L section st = for_each ''prefix'' (process_prefix L) (config_children section) st"

fun process_certificates :: "conf_lib \<Rightarrow> ndn_lib \<Rightarrow> string \<Rightarrow> (string \<times> config) list \<Rightarrow> nlsr \<Rightarrow> conf_outcome" where
  "process_certificates C L confFileName [] st = (None, st)"
| "process_certificates C L confFileName ((k, c) # cs) st =
     (if k \<noteq> ''cert-to-publish'' then (Some Rejected, st)
      else (case cl_loadCert C (cl_absolute C (config_data c) confFileName) of
          None \<Rightarrow> (Some Rejected, st)
        | Some cert \<Rightarrow> process_certificates C L confFileName cs (loadCertToPublish L cert st)))"

definition processConfSectionSecurity :: "conf_lib \<Rightarrow> ndn_lib \<Rightarrow> string \<Rightarrow> config \<Rightarrow> nlsr \<Rightarrow> conf_outcome" where
  "processConfSectionSecurity C L confFileName section st = (case config_children section of
       [] \<Rightarrow> (Some Rejected, st)
     | (k, v) # rest \<Rightarrow>
         if k \<noteq> ''validator'' then (Some Rejected, st)
         else if \<not> cl_loadValidator C v confFileName then (Some Thrown, st)
         else (case rest of
             [] \<Rightarrow> (None, st)
           | (k, v) # rest \<Rightarrow>
               if k = ''prefix-update-validator'' then
                 let st = enable st in
                 if \<not> cl_loadValidator C v confFileName then (Some Thrown, st)
                 else process_certificates C L confFileName rest st
               else (None, st)))"

section \<open>The file\<close>

text \<open>An unknown section is only reported.\<close>

definition processSection :: "conf_lib \<Rightarrow> ndn_lib \<Rightarrow> string \<Rightarrow> string \<Rightarrow> config \<Rightarrow> nlsr \<Rightarrow> conf_outcome" where
  "processSection C L confFileName sectionName section st =
     (if sectionName = ''general'' then processConfSectionGeneral C L section st
      else if sectionName = ''neighbors'' then processConfSectionNeighbors C L section st
      else if sectionName = ''hyperbolic'' then processConfSectionHyperbolic C section st
      else if sectionName = ''fib'' then processConfSectionFib C section st
      else if sectionName = ''advertising'' then processConfSectionAdvertising L section st
      else if sectionName = ''security'' then processConfSectionSecurity C L confFileName section st
      else (None, st))"

fun process_sections :: "conf_lib \<Rightarrow> ndn_lib \<Rightarrow> string \<Rightarrow> (string \<times> config) list \<Rightarrow> nlsr \<Rightarrow> conf_outcome" where
  "process_sections C L confFileName [] st = (None, st)"
| "process_sections C L confFileName ((n, c) # cs) st =
     and_next (processSection C L confFileName n c st) (process_sections C L confFileName cs)"

definition load_conf :: "conf_lib \<Rightarrow> ndn_lib \<Rightarrow> string \<Rightarrow> string \<Rightarrow> nlsr \<Rightarrow> conf_outcome" where
  "load_conf C L confFileName input st = (case cl_readInfo C input of
       None \<Rightarrow> (Some Rejected, st)
     | Some pt \<Rightarrow> process_sections C L confFileName (config_children pt) st)"

definition processConfFile :: "conf_lib \<Rightarrow> ndn_lib \<Rightarrow> string \<Rightarrow> nlsr \<Rightarrow> conf_outcome" where
  "processConfFile C L confFileName st = (case cl_contents C confFileName of
       None \<Rightarrow> (Some Rejected, st)
     | Some input \<Rightarrow> load_conf C L confFileName input st)"

text \<open>\<open>None\<close>: the runner throws its own exception, or the processor's goes through.\<close>

definition run_nlsr :: "conf_lib \<Rightarrow> ndn_lib \<Rightarrow> string \<Rightarrow> string \<Rightarrow> 64 word option \<Rightarrow> certificate \<Rightarrow> io \<Rightarrow> nlsr option" where
  "run_nlsr C L confFileName home file cert s = (case processConfFile C L confFileName (nlsr_of s) of
       (None, st) \<Rightarrow> Some (initialize L home file cert st)
     | (Some _, _) \<Rightarrow> None)"


text \<open>When an exception ends the event loop, the FIB is cleared and the faces are destroyed.\<close>

definition run_cleanup :: "nlsr \<Rightarrow> nlsr" where
  "run_cleanup st = (case fib_clean (n_fib st, n_io st) of
     (f, s) \<Rightarrow> destroyFaces (st\<lparr>n_fib := f, n_io := s\<rparr>))"

end
