(* ===== verification/Conf_Properties.thy ===== *)
theory Conf_Properties
  imports Conf_File Demo_Run
begin

text \<open>
  What an accepted configuration guarantees: the parameters are within their limits, and the
  daemon that is started with it is one of those whose executions \<open>System\<close> describes.
\<close>

definition conf_limits :: "conf \<Rightarrow> bool" where
  "conf_limits c \<longleftrightarrow>
     of_nat LSA_REFRESH_TIME_MIN \<le> cf_lsaRefreshTime c \<and> cf_lsaRefreshTime c \<le> of_nat LSA_REFRESH_TIME_MAX \<and>
     cf_lsaRefreshTime c < cf_routerDeadInterval c \<and>
     LSA_INTEREST_LIFETIME_MIN \<le> cf_lsaInterestLifetime c \<and> cf_lsaInterestLifetime c \<le> LSA_INTEREST_LIFETIME_MAX \<and>
     of_int HELLO_RETRIES_MIN \<le> cf_interestRetryNumber c \<and> cf_interestRetryNumber c \<le> of_int HELLO_RETRIES_MAX \<and>
     of_nat HELLO_TIMEOUT_MIN \<le> cf_interestResendTime c \<and> cf_interestResendTime c \<le> of_nat HELLO_TIMEOUT_MAX \<and>
     of_nat HELLO_INTERVAL_MIN \<le> cf_infoInterestInterval c \<and> cf_infoInterestInterval c \<le> of_nat HELLO_INTERVAL_MAX \<and>
     cf_adjLsaBuildInterval c \<le> of_nat ADJ_LSA_BUILD_INTERVAL_MAX \<and>
     cf_firstHelloInterval c \<le> of_nat FIRST_HELLO_INTERVAL_MAX \<and>
     cf_routingCalcInterval c \<le> of_nat ROUTING_CALC_INTERVAL_MAX \<and>
     cf_maxFacesPerPrefix c \<le> of_int MAX_FACES_PER_PREFIX_MAX \<and>
     cf_hyperbolicState c \<in> {HYPERBOLIC_STATE_OFF, HYPERBOLIC_STATE_ON, HYPERBOLIC_STATE_DRY_RUN} \<and>
     0 \<le> cf_corR c \<and> isValidLogLevel (cf_logLevel c)"

definition is_configured :: "io \<Rightarrow> nlsr \<Rightarrow> bool" where
  "is_configured s st \<longleftrightarrow> (\<exists>c adl npl certs enabled. st = configured c adl npl certs enabled s)"

definition conf_ok :: "io \<Rightarrow> nlsr \<Rightarrow> bool" where
  "conf_ok s st \<longleftrightarrow> conf_limits (n_conf st) \<and> adl_wf (n_adl st) \<and> distinct (n_npl st) \<and>
     is_configured s st"

lemma and_next_None: "and_next r f = (None, st') \<longleftrightarrow> (\<exists>st. r = (None, st) \<and> f st = (None, st'))"
  by (cases r; cases "fst r") auto

lemma set_checked_None: "set_checked ok f st = (None, st') \<longleftrightarrow> ok \<and> st' = on_conf f st"
  by (auto simp: set_checked_def)

lemma set_name_None: "set_name L uri f st = (None, st') \<longleftrightarrow> (\<exists>n. ofUri L uri = Some n \<and> n \<noteq> [] \<and> st' = on_conf (f n) st)"
  by (auto simp: set_name_def set_checked_None split: option.split)

lemma process_directory_None:
  "process_directory C key t f section st = (None, st') \<longleftrightarrow>
     (\<exists>dir. conf_get key section = Some dir \<and> cl_status C dir = PathDirectory \<and> cl_writable C (dir @ t) \<and> st' = on_conf (f dir) st)"
  by (auto simp: process_directory_def set_checked_None split: option.split)

lemma on_conf_comp [simp]: "on_conf f (on_conf g st) = on_conf (f \<circ> g) st"
  by (simp add: on_conf_def)

lemma process_names_None:
  assumes "process_names L section st = (None, st')"
  shows "\<exists>n m r. n \<noteq> [] \<and> st' = on_conf (\<lambda>c. setRouterName r (setSiteName m (setNetwork n c))) st"
proof -
  obtain network site router where "and_next (set_name L network setNetwork st) (\<lambda>st.
      and_next (set_name L site setSiteName st) (set_name L router setRouterName)) = (None, st')"
    using assms by (auto simp: process_names_def split: option.splits)
  then show ?thesis by (fastforce simp: and_next_None set_name_None comp_def)
qed

lemmas accepted_simps = and_next_None set_checked_None process_directory_None

lemma on_conf_simps [simp]:
  "n_conf (on_conf f st) = f (n_conf st)" "n_adl (on_conf f st) = n_adl st" "n_npl (on_conf f st) = n_npl st"
  "n_certStore (on_conf f st) = n_certStore st" "n_isPrefixUpdateEnabled (on_conf f st) = n_isPrefixUpdateEnabled st"
  by (simp_all add: on_conf_def)

lemma configured_updates [simp]:
  "configured c adl npl certs en s\<lparr>n_conf := c'\<rparr> = configured c' adl npl certs en s"
  "configured c adl npl certs en s\<lparr>n_adl := adl'\<rparr> = configured c adl' npl certs en s"
  "configured c adl npl certs en s\<lparr>n_npl := npl'\<rparr> = configured c adl npl' certs en s"
  "configured c adl npl certs en s\<lparr>n_certStore := certs'\<rparr> = configured c adl npl certs' en s"
  "configured c adl npl certs en s\<lparr>n_isPrefixUpdateEnabled := en'\<rparr> = configured c adl npl certs en' s"
  by (simp_all add: configured_def)

lemma configured_fields [simp]:
  "n_conf (configured c adl npl certs en s) = c" "n_adl (configured c adl npl certs en s) = adl"
  "n_npl (configured c adl npl certs en s) = npl"
  by (simp_all add: configured_def)

lemma is_configured_updates [intro]:
  "is_configured s st \<Longrightarrow> is_configured s (st\<lparr>n_conf := c\<rparr>)" "is_configured s st \<Longrightarrow> is_configured s (st\<lparr>n_adl := adl\<rparr>)"
  "is_configured s st \<Longrightarrow> is_configured s (st\<lparr>n_npl := npl\<rparr>)" "is_configured s st \<Longrightarrow> is_configured s (st\<lparr>n_certStore := m\<rparr>)"
  "is_configured s st \<Longrightarrow> is_configured s (st\<lparr>n_isPrefixUpdateEnabled := en\<rparr>)"
  unfolding is_configured_def by (elim exE, hypsubst, unfold configured_updates, blast)+

lemma conf_ok_conf: "conf_ok s st \<Longrightarrow> conf_limits (f (n_conf st)) \<Longrightarrow> conf_ok s (on_conf f st)"
  by (simp add: conf_ok_def on_conf_def is_configured_updates)

text \<open>One step of the limits per group of setters.\<close>

lemma conf_limits_setters [simp]:
  "conf_limits (setNetwork n c) = conf_limits c" "conf_limits (setSiteName n c) = conf_limits c"
  "conf_limits (setRouterName n c) = conf_limits c" "conf_limits (setLogDir d c) = conf_limits c"
  "conf_limits (setSeqFileDir d c) = conf_limits c" "conf_limits (setLog4CxxConfPath d c) = conf_limits c"
  "conf_limits (setCorTheta t c) = conf_limits c"
  by (simp_all add: conf_limits_def conf_setters)

definition cf_named :: "nlsr \<Rightarrow> bool" where
  "cf_named st \<longleftrightarrow> cf_network (n_conf st) \<noteq> []"

lemma process_log4cxx_None:
  "process_log4cxx C section st = (None, st') \<Longrightarrow> st' = st \<or> (\<exists>p. st' = on_conf (setLog4CxxConfPath p) st)"
  by (auto simp: process_log4cxx_def split: option.splits path_status.splits if_splits)

text \<open>What every accepted section keeps; \<open>b\<close> says whether the router must have a name.\<close>

definition conf_inv :: "bool \<Rightarrow> io \<Rightarrow> nlsr \<Rightarrow> bool" where
  "conf_inv b s st \<longleftrightarrow> conf_ok s st \<and> (b \<longrightarrow> cf_named st)"

lemma conf_inv_conf:
  "conf_inv b s st \<Longrightarrow> conf_limits (f (n_conf st)) \<Longrightarrow> cf_network (f (n_conf st)) = cf_network (n_conf st) \<Longrightarrow>
   conf_inv b s (on_conf f st)"
  by (simp add: conf_inv_def conf_ok_conf cf_named_def)

lemma conf_inv_log4cxx:
  assumes "process_log4cxx C section st = (None, st')" and "conf_inv b s st"
  shows "conf_inv b s st'"
proof -
  have "conf_limits (n_conf st)" using assms(2) by (simp add: conf_inv_def conf_ok_def)
  then show ?thesis
    using process_log4cxx_None [OF assms(1)] assms(2) by (auto intro!: conf_inv_conf) (simp add: setLog4CxxConfPath_def)
qed

lemma general_accepted:
  assumes "processConfSectionGeneral C L section st = (None, st')" and "conf_inv b s st"
  shows "conf_inv True s st'"
proof -
  let ?t = "conf_getOr (cl_readU32 C) ''lsa-refresh-time'' (of_nat LSA_REFRESH_TIME_DEFAULT) section"
  let ?d = "conf_getOr (cl_readU32 C) ''router-dead-interval'' (2 * ?t) section"
  let ?l = "conf_getOr (cl_readInt C) ''lsa-interest-lifetime'' LSA_INTEREST_LIFETIME_DEFAULT section"
  let ?v = "conf_getOr Some ''log-level'' ''INFO'' section"
  have ok: "conf_ok s st" using assms(2) by (simp add: conf_inv_def)
  obtain st1 a e where names: "process_names L section st = (None, st1)"
    and range: "of_nat LSA_REFRESH_TIME_MIN \<le> ?t" "?t \<le> of_nat LSA_REFRESH_TIME_MAX" "?t < ?d"
      "LSA_INTEREST_LIFETIME_MIN \<le> ?l" "?l \<le> LSA_INTEREST_LIFETIME_MAX" "isValidLogLevel ?v"
    and log: "process_log4cxx C section (on_conf (\<lambda>c. setSeqFileDir e (setLogDir a (setLogLevel ?v
        (setLsaInterestLifetime ?l (setRouterDeadInterval ?d (setLsaRefreshTime ?t c)))))) st1) = (None, st')"
    using assms(1) unfolding processConfSectionGeneral_def Let_def accepted_simps
    by (auto simp: setLsaRefreshTime_def comp_def)
  from process_names_None [OF names] obtain n m r where n: "n \<noteq> []"
    "st1 = on_conf (\<lambda>c. setRouterName r (setSiteName m (setNetwork n c))) st" by blast
  let ?st = "on_conf (\<lambda>c. setSeqFileDir e (setLogDir a (setLogLevel ?v
        (setLsaInterestLifetime ?l (setRouterDeadInterval ?d (setLsaRefreshTime ?t c)))))) st1"
  have "conf_limits (n_conf st)" using ok by (simp add: conf_ok_def)
  then have "conf_limits (n_conf ?st)"
    using range by (simp add: n(2) conf_limits_def conf_setters)
  moreover have "conf_ok s ?st \<longleftrightarrow> conf_limits (n_conf ?st)"
    using ok by (auto simp: conf_ok_def n(2) on_conf_def is_configured_updates)
  moreover have "cf_named ?st" using n by (simp add: cf_named_def conf_setters)
  ultimately have "conf_inv True s ?st" unfolding conf_inv_def by blast
  with log show ?thesis by (rule conf_inv_log4cxx)
qed

lemma for_each_accepted:
  assumes "for_each key f cs st = (None, st')" and "\<And>c st st'. f c st = (None, st') \<Longrightarrow> Q st \<Longrightarrow> Q st'" and "Q st"
  shows "Q st'"
  using assms(1,3)
proof (induction cs arbitrary: st)
  case (Cons x cs)
  then show ?case using assms(2) by (cases x) (auto simp: and_next_None split: if_splits)
qed simp

lemma variable_accepted:
  assumes "parseFromConfigSection C (setOptional dflt (setMinAndMaxValue lo hi (configurationVariable key setter))) section st = (None, st')"
    and "of_nat dflt \<le> (of_nat hi :: 32 word)"
  shows "\<exists>x. x \<le> of_nat hi \<and> st' = on_conf (setter x) st"
  using assms
  by (auto simp: parseFromConfigSection_def set_checked_None isValidValue_def setOptional_def setMinAndMaxValue_def
      configurationVariable_def not_less split: option.splits if_splits)

lemma neighbor_accepted:
  assumes "process_neighbor C L section st = (None, st')" and "conf_inv b s st"
  shows "conf_inv b s st'"
  using assms
  by (auto simp: process_neighbor_def conf_inv_def conf_ok_def cf_named_def adl_wf_insert is_configured_updates
      split: option.splits if_splits)

lemma prefix_accepted:
  assumes "process_prefix L section st = (None, st')" and "conf_inv b s st"
  shows "conf_inv b s st'"
  using assms
  by (auto simp: process_prefix_def conf_inv_def conf_ok_def cf_named_def is_configured_updates npl_insert_def find_None_iff
      split: option.splits if_splits)

lemma neighbors_accepted:
  assumes "processConfSectionNeighbors C L section st = (None, st')" and inv: "conf_inv b s st"
  shows "conf_inv b s st'"
proof -
  obtain i t v st1 st2 where
    range: "HELLO_RETRIES_MIN \<le> i" "i \<le> HELLO_RETRIES_MAX" "of_nat HELLO_TIMEOUT_MIN \<le> t" "t \<le> of_nat HELLO_TIMEOUT_MAX"
      "of_nat HELLO_INTERVAL_MIN \<le> v" "v \<le> of_nat HELLO_INTERVAL_MAX"
    and vars: "parseFromConfigSection C adjLsaBuildInterval section
        (on_conf (\<lambda>c. setInfoInterestInterval v (setInterestResendTime t (setInterestRetryNumber (of_int i) c))) st) = (None, st1)"
      "parseFromConfigSection C firstHelloInterval section st1 = (None, st2)"
    and rest: "for_each ''neighbor'' (process_neighbor C L) (config_children section) st2 = (None, st')"
    using assms(1) unfolding processConfSectionNeighbors_def Let_def accepted_simps by (auto simp: comp_def)
  have "i \<in> {1..15}" using range by (simp add: conf_constants)
  then have "i \<in> set [1..15]" by simp
  then have i: "of_int HELLO_RETRIES_MIN \<le> (of_int i :: 32 word)" "(of_int i :: 32 word) \<le> of_int HELLO_RETRIES_MAX"
    by (auto simp: conf_constants upto_rec1)
  have lim: "conf_limits (n_conf st)" using inv by (simp add: conf_inv_def conf_ok_def)
  obtain x y where xy: "x \<le> of_nat ADJ_LSA_BUILD_INTERVAL_MAX" "y \<le> of_nat FIRST_HELLO_INTERVAL_MAX"
    and st2: "st2 = on_conf (\<lambda>c. setFirstHelloInterval y (setAdjLsaBuildInterval x (setInfoInterestInterval v (setInterestResendTime t
      (setInterestRetryNumber (of_int i) c))))) st"
    using variable_accepted [OF vars(1) [unfolded adjLsaBuildInterval_def]]
      variable_accepted [OF vars(2) [unfolded firstHelloInterval_def]]
    by (auto simp: conf_constants comp_def)
  have "conf_inv b s st2"
    unfolding st2 by (rule conf_inv_conf [OF inv]) (use lim range i xy in \<open>simp_all add: conf_limits_def conf_setters\<close>)
  with neighbor_accepted show ?thesis by (rule for_each_accepted [where Q = "conf_inv b s", OF rest])
qed

lemma hyperbolic_accepted:
  assumes "processConfSectionHyperbolic C section st = (None, st')" and inv: "conf_inv b s st"
  shows "conf_inv b s st'"
proof -
  let ?state = "conf_getOr Some ''state'' ''off'' section"
  obtain h where h: "h \<in> {HYPERBOLIC_STATE_OFF, HYPERBOLIC_STATE_ON, HYPERBOLIC_STATE_DRY_RUN}"
    and coord: "process_coordinates C ?state section (on_conf (setHyperbolicState h) st) = (None, st')"
    using assms(1) unfolding processConfSectionHyperbolic_def Let_def accepted_simps by (auto split: if_splits)
  have lim: "conf_limits (n_conf st)" using inv by (simp add: conf_inv_def conf_ok_def)
  have one: "conf_inv b s (on_conf (setHyperbolicState h) st)"
    by (rule conf_inv_conf [OF inv]) (use lim h in \<open>simp_all add: conf_limits_def conf_setters\<close>)
  from coord consider "st' = on_conf (setHyperbolicState h) st"
    | r t where "0 \<le> r" "st' = on_conf (\<lambda>c. setCorTheta t (c\<lparr>cf_corR := r\<rparr>)) (on_conf (setHyperbolicState h) st)"
    by (auto simp: process_coordinates_def setCorR_def on_conf_def split: option.splits if_splits prod.splits bool.splits)
  then show ?thesis
  proof cases
    case 2
    have "conf_limits (n_conf (on_conf (setHyperbolicState h) st))" using one by (simp add: conf_inv_def conf_ok_def)
    then show ?thesis
      unfolding 2(2) using 2(1) by (intro conf_inv_conf [OF one]) (simp_all add: conf_limits_def setCorTheta_def)
  qed (simp add: one)
qed

lemma fib_accepted:
  assumes "processConfSectionFib C section st = (None, st')" and inv: "conf_inv b s st"
  shows "conf_inv b s st'"
proof -
  obtain i x where i: "MAX_FACES_PER_PREFIX_MIN \<le> i" "i \<le> MAX_FACES_PER_PREFIX_MAX" and x: "x \<le> of_nat ROUTING_CALC_INTERVAL_MAX"
    and st': "st' = on_conf (\<lambda>c. setRoutingCalcInterval x (setMaxFacesPerPrefix (of_int i) c)) st"
    using assms(1) unfolding processConfSectionFib_def Let_def accepted_simps routingCalcInterval_def
    by (auto simp: comp_def conf_constants dest!: variable_accepted)
  have "uint (of_int i :: 32 word) = i" using i by (simp add: conf_constants uint_word_of_int)
  then have "(of_int i :: 32 word) \<le> of_int MAX_FACES_PER_PREFIX_MAX"
    using i(2) by (simp add: word_le_def conf_constants)
  then show ?thesis
    unfolding st' using inv x by (intro conf_inv_conf [OF inv]) (simp_all add: conf_limits_def conf_setters conf_inv_def conf_ok_def)
qed

lemma conf_inv_cert:
  "conf_inv b s st \<Longrightarrow> conf_inv b s (loadCertToPublish L cert st)" "conf_inv b s st \<Longrightarrow> conf_inv b s (enable st)"
  by (simp_all add: conf_inv_def conf_ok_def cf_named_def loadCertToPublish_def enable_def is_configured_updates)

lemma certificates_accepted:
  "process_certificates C L f cs st = (None, st') \<Longrightarrow> conf_inv b s st \<Longrightarrow> conf_inv b s st'"
proof (induction cs arbitrary: st)
  case (Cons x cs)
  then show ?case by (cases x) (auto split: if_splits option.splits simp: conf_inv_cert)
qed simp

lemma security_accepted:
  "processConfSectionSecurity C L f section st = (None, st') \<Longrightarrow> conf_inv b s st \<Longrightarrow> conf_inv b s st'"
  by (auto simp: processConfSectionSecurity_def Let_def split: list.splits if_splits
      dest!: certificates_accepted intro: conf_inv_cert)

lemma section_accepted:
  assumes "processSection C L f n c st = (None, st')" and "conf_inv b s st"
  shows "conf_inv (b \<or> n = ''general'') s st'"
proof -
  have adv: "conf_inv b s st'" if "processConfSectionAdvertising L c st = (None, st')"
    using prefix_accepted assms(2)
    by (rule for_each_accepted [where Q = "conf_inv b s", OF that [unfolded processConfSectionAdvertising_def]])
  have "n = ''general'' \<Longrightarrow> conf_inv True s st'"
    using assms general_accepted by (simp add: processSection_def)
  moreover have "n \<noteq> ''general'' \<Longrightarrow> conf_inv b s st'"
    using assms adv neighbors_accepted hyperbolic_accepted fib_accepted security_accepted
    by (auto simp: processSection_def split: if_splits)
  ultimately show ?thesis by (cases "n = ''general''") simp_all
qed

lemma sections_accepted:
  "process_sections C L f cs st = (None, st') \<Longrightarrow> conf_inv b s st \<Longrightarrow> conf_inv (b \<or> ''general'' \<in> fst ` set cs) s st'"
proof (induction cs arbitrary: st b)
  case (Cons x cs)
  obtain n c where x: "x = (n, c)" by (cases x)
  with Cons.prems(1) obtain st1 where st1: "processSection C L f n c st = (None, st1)" "process_sections C L f cs st1 = (None, st')"
    by (auto simp: and_next_None)
  from Cons.IH [OF st1(2) section_accepted [OF st1(1) Cons.prems(2)]] show ?case
    by (simp add: x disj_assoc eq_commute [of "''general''"])
qed simp

lemma start_inv: "conf_inv False s (nlsr_of s)"
proof -
  have "nlsr_of s = configured conf_default [] [] (\<lambda>_. None) False s"
    by (simp add: configured_def nlsr_of_def after_def on_io_def logSeqNo_def)
  then have "is_configured s (nlsr_of s)" unfolding is_configured_def by blast
  moreover have "n_conf (nlsr_of s) = conf_default" "n_adl (nlsr_of s) = []" "n_npl (nlsr_of s) = []"
    by (simp_all add: nlsr_of_def after_def on_io_def logSeqNo_def)
  moreover have "isValidLogLevel ''INFO''" by code_simp
  then have "conf_limits conf_default" by (simp add: conf_limits_def conf_default_def conf_constants)
  ultimately show ?thesis by (simp add: conf_inv_def conf_ok_def adl_wf_def)
qed

lemma file_accepted:
  assumes "processConfFile C L f (nlsr_of s) = (None, st)" and "cl_contents C f = Some input" and "cl_readInfo C input = Some pt"
  shows "conf_inv (''general'' \<in> fst ` set (config_children pt)) s st"
  using assms sections_accepted [OF _ start_inv, of C L f "config_children pt" s st] by (simp add: processConfFile_def load_conf_def)


text \<open>C38: A daemon that the runner starts from an accepted file with a general section is one of
  the started daemons of the transition system, so that everything proved of their reachable
  states holds for it: its neighbors have different names, its prefixes are different, and its
  router prefix is not empty.\<close>

theorem accepted_file_starts:
  assumes "fresh s" and "cl_contents C f = Some input" and "cl_readInfo C input = Some pt"
    and "''general'' \<in> fst ` set (config_children pt)" and "run_nlsr C L f home file cert s = Some st"
  shows "started L st"
proof -
  obtain st0 where st0: "processConfFile C L f (nlsr_of s) = (None, st0)" "st = initialize L home file cert st0"
    using assms(5) by (auto simp: run_nlsr_def split: prod.splits option.splits)
  then have inv: "conf_ok s st0" "cf_named st0"
    using file_accepted [OF st0(1) assms(2,3)] assms(4) by (simp_all add: conf_inv_def)
  then obtain c adl npl certs enabled where st0': "st0 = configured c adl npl certs enabled s"
    by (auto simp: conf_ok_def is_configured_def)
  then have "adl_wf adl" "distinct npl" "cf_routerPrefix (buildRouterPrefix c) \<noteq> []"
    using inv by (simp_all add: conf_ok_def cf_named_def buildRouterPrefix_def)
  then show ?thesis using assms(1) unfolding started_def st0(2) st0' by blast
qed

definition demo_tree :: config where
  "demo_tree = Config '''' [
     (''general'', Config '''' [(''network'', Config ''/n'' []), (''site'', Config ''/s'' []), (''router'', Config ''/r'' []),
        (''lsa-refresh-time'', Config ''600'' []), (''log-dir'', Config ''/tmp'' []), (''seq-dir'', Config ''/tmp'' [])]),
     (''neighbors'', Config '''' [(''neighbor'', Config '''' [(''name'', Config ''/b'' []), (''face-uri'', Config ''udp4://b'' [])])]),
     (''fib'', Config '''' [(''max-faces-per-prefix'', Config ''3'' [])]),
     (''advertising'', Config '''' [(''prefix'', Config ''/p'' [])])]"

definition demo_conf_lib :: conf_lib where
  "demo_conf_lib = \<lparr>cl_contents = (\<lambda>f. Some ''''), cl_readInfo = (\<lambda>s. Some demo_tree),
     cl_readU32 = (\<lambda>s. Some (of_nat (demoValue s))), cl_readInt = (\<lambda>s. Some (int (demoValue s))), cl_readDouble = (\<lambda>s. None),
     cl_parseFaceUri = (\<lambda>s. True), cl_status = (\<lambda>s. PathDirectory), cl_writable = (\<lambda>s. True),
     cl_loadValidator = (\<lambda>c f. True), cl_absolute = (\<lambda>p f. p), cl_loadCert = (\<lambda>p. None)\<rparr>"

definition demo_env :: io where
  "demo_env = \<lparr>io_system_now = 0, io_steady_now = 0, io_next_id = 0, io_pending = [], io_out = []\<rparr>"

lemma demo_conf_run:
  "case processConfFile demo_conf_lib demo_lib ''f'' (nlsr_of demo_env) of (e, st) \<Rightarrow> e = None \<and>
     cf_lsaRefreshTime (n_conf st) = 600 \<and> cf_routerDeadInterval (n_conf st) = 1200 \<and> cf_maxFacesPerPrefix (n_conf st) = 3 \<and>
     map ad_name (n_adl st) = [[''b'']] \<and> n_npl st = [[''p'']]"
  by code_simp

lemma demo_accepted:
  "processConfFile demo_conf_lib demo_lib ''f'' (nlsr_of demo_env) =
     (None, snd (processConfFile demo_conf_lib demo_lib ''f'' (nlsr_of demo_env)))"
  using demo_conf_run by (simp add: case_prod_beta prod_eq_iff)


lemma accepted_file_starts_witness:
  "\<exists>st. run_nlsr demo_conf_lib demo_lib ''f'' ''/home'' None \<lparr>cert_name = [''k''], cert_wire = ''c''\<rparr> demo_env = Some st \<and> started demo_lib st"
proof -
  let ?cert = "\<lparr>cert_name = [''k''], cert_wire = ''c''\<rparr>"
  obtain st0 where "processConfFile demo_conf_lib demo_lib ''f'' (nlsr_of demo_env) = (None, st0)"
    using demo_accepted by blast
  then have run: "run_nlsr demo_conf_lib demo_lib ''f'' ''/home'' None ?cert demo_env = Some (initialize demo_lib ''/home'' None ?cert st0)"
    by (simp add: run_nlsr_def)
  have "fresh demo_env" "cl_contents demo_conf_lib ''f'' = Some ''''" "cl_readInfo demo_conf_lib '''' = Some demo_tree"
    "''general'' \<in> fst ` set (config_children demo_tree)"
    by (simp_all add: fresh_def demo_env_def demo_conf_lib_def demo_tree_def)
  with accepted_file_starts [OF this run] run show ?thesis by blast
qed

end
