(* ===== verification/Tlv.thy ===== *)
theory Tlv
  imports Names
begin

text \<open>
  The blocks in which a router publishes its link-state database (src/src/tlv): their data,
  their encoders, which prepend to a buffer and return the number of octets, and their
  decoders, with every exception as a value. Numbers, names and the bytes of a floating point
  number are written and read by ndn-cxx and the host, the record \<open>tlv_lib\<close>.
\<close>

section \<open>Library functions\<close>

type_synonym block = "nat \<times> bytes"  \<comment> \<open>type and value\<close>

record tlv_lib =
  tl_varNumber :: "nat \<Rightarrow> bytes"                \<comment> \<open>\<open>prependVarNumber\<close>\<close>
  tl_parse :: "bytes \<Rightarrow> block list option"      \<comment> \<open>\<open>Block::parse\<close>; \<open>None\<close>: it throws\<close>
  tl_fromBuffer :: "bytes \<Rightarrow> (block \<times> nat) option" \<comment> \<open>the first block and its size\<close>
  tl_number :: "64 word \<Rightarrow> bytes"               \<comment> \<open>a non-negative integer\<close>
  tl_readNumber :: "bytes \<Rightarrow> 64 word option"
  tl_name :: "name \<Rightarrow> bytes"                    \<comment> \<open>the value of a name block\<close>
  tl_readName :: "bytes \<Rightarrow> name option"
  tl_isDouble :: "real \<Rightarrow> bool"                 \<comment> \<open>the numbers that \<open>double\<close> represents\<close>
  tl_double :: "real \<Rightarrow> bytes"                  \<comment> \<open>in the memory of the host\<close>
  tl_readDouble :: "bytes \<Rightarrow> real"
  tl_showMilliseconds :: "int \<Rightarrow> string"        \<comment> \<open>\<open>operator<<\<close>\<close>
  tl_showDouble :: "real \<Rightarrow> string"
  tl_segment :: "64 word \<Rightarrow> component"          \<comment> \<open>\<open>appendSegment\<close>\<close>
  tl_parameters :: "name \<Rightarrow> component"          \<comment> \<open>the block of control parameters with this name\<close>

definition tlv_block :: "tlv_lib \<Rightarrow> nat \<Rightarrow> bytes \<Rightarrow> bytes" where
  "tlv_block T t v = tl_varNumber T t @ tl_varNumber T (length v) @ v"

text \<open>
  A small number takes one octet; a sequence of blocks is read as these blocks, the first of
  a buffer with its size; what is written is read back.
\<close>

definition tlv_ok :: "tlv_lib \<Rightarrow> bool" where
  "tlv_ok T \<longleftrightarrow>
     (\<forall>n < 253. tl_varNumber T n = [of_nat n]) \<and>
     tl_parse T [] = Some [] \<and>
     (\<forall>t v bs. t < 2 ^ 32 \<and> length v < 2 ^ 64 \<longrightarrow>
        tl_parse T (tlv_block T t v @ bs) = map_option ((#) (t, v)) (tl_parse T bs) \<and>
        tl_fromBuffer T (tlv_block T t v @ bs) = Some ((t, v), length (tlv_block T t v))) \<and>
     (\<forall>w. tl_readNumber T (tl_number T w) = Some w) \<and>
     (\<forall>n. tl_readName T (tl_name T n) = Some n) \<and>
     (\<forall>x. tl_isDouble T x \<longrightarrow> length (tl_double T x) = 8 \<and> tl_readDouble T (tl_double T x) = x)"

lemma tlv_laws:
  assumes "tlv_ok T"
  shows "n < 253 \<Longrightarrow> tl_varNumber T n = [of_nat n]"
    and "tl_parse T [] = Some []"
    and "t < 2 ^ 32 \<Longrightarrow> length v < 2 ^ 64 \<Longrightarrow>
      tl_parse T (tlv_block T t v @ bs) = map_option ((#) (t, v)) (tl_parse T bs)"
    and "t < 2 ^ 32 \<Longrightarrow> length v < 2 ^ 64 \<Longrightarrow>
      tl_fromBuffer T (tlv_block T t v @ bs) = Some ((t, v), length (tlv_block T t v))"
    and "tl_readNumber T (tl_number T w) = Some w"
    and "tl_readName T (tl_name T m) = Some m"
    and "tl_isDouble T x \<Longrightarrow> length (tl_double T x) = 8"
    and "tl_isDouble T x \<Longrightarrow> tl_readDouble T (tl_double T x) = x"
  using assms by (simp_all add: tlv_ok_def)

section \<open>The encoder\<close>

text \<open>The octets written for the block that is being built, and the buffer.\<close>

type_synonym encoding = "nat \<times> bytes"

definition prepend :: "bytes \<Rightarrow> encoding \<Rightarrow> encoding" where
  "prepend bs e = (fst e + length bs, bs @ snd e)"

definition prependVarNumber :: "tlv_lib \<Rightarrow> nat \<Rightarrow> encoding \<Rightarrow> encoding" where
  "prependVarNumber T k = prepend (tl_varNumber T k)"

definition prependByteArrayBlock :: "tlv_lib \<Rightarrow> nat \<Rightarrow> bytes \<Rightarrow> encoding \<Rightarrow> encoding" where
  "prependByteArrayBlock T t bs e = prependVarNumber T t (prependVarNumber T (length bs) (prepend bs e))"

definition prependNonNegativeIntegerBlock :: "tlv_lib \<Rightarrow> nat \<Rightarrow> 64 word \<Rightarrow> encoding \<Rightarrow> encoding" where
  "prependNonNegativeIntegerBlock T t w = prependByteArrayBlock T t (tl_number T w)"

text \<open>An encoder that is called in another one, alone or for the value of a nested block.\<close>

definition add_part :: "(bytes \<Rightarrow> encoding) \<Rightarrow> encoding \<Rightarrow> encoding" where
  "add_part f e = (case f (snd e) of (k, b) \<Rightarrow> (fst e + k, b))"

definition end_block :: "tlv_lib \<Rightarrow> nat \<Rightarrow> encoding \<Rightarrow> encoding" where
  "end_block T t e = prependVarNumber T t (prependVarNumber T (fst e) e)"

definition prependNestedBlock :: "tlv_lib \<Rightarrow> nat \<Rightarrow> (bytes \<Rightarrow> encoding) \<Rightarrow> encoding \<Rightarrow> encoding" where
  "prependNestedBlock T t f = add_part (\<lambda>b. end_block T t (add_part f (0, b)))"

lemmas encoder_defs = prepend_def prependVarNumber_def prependByteArrayBlock_def
  prependNonNegativeIntegerBlock_def add_part_def end_block_def prependNestedBlock_def

text \<open>The types (tlv-nlsr.hpp) and that of a name.\<close>

definition TLV_NAME :: nat where "TLV_NAME = 7"
definition TLV_LSA_INFO :: nat where "TLV_LSA_INFO = 128"
definition TLV_ORIGIN_ROUTER :: nat where "TLV_ORIGIN_ROUTER = 129"
definition TLV_SEQUENCE_NUMBER :: nat where "TLV_SEQUENCE_NUMBER = 130"
definition TLV_ADJACENCY_LSA :: nat where "TLV_ADJACENCY_LSA = 131"
definition TLV_ADJACENCY :: nat where "TLV_ADJACENCY = 132"
definition TLV_COORDINATE_LSA :: nat where "TLV_COORDINATE_LSA = 133"
definition TLV_DOUBLE :: nat where "TLV_DOUBLE = 134"
definition TLV_HYPERBOLIC_RADIUS :: nat where "TLV_HYPERBOLIC_RADIUS = 135"
definition TLV_HYPERBOLIC_ANGLE :: nat where "TLV_HYPERBOLIC_ANGLE = 136"
definition TLV_NAME_LSA :: nat where "TLV_NAME_LSA = 137"
definition TLV_LSDB_STATUS :: nat where "TLV_LSDB_STATUS = 138"
definition TLV_EXPIRATION_PERIOD :: nat where "TLV_EXPIRATION_PERIOD = 139"
definition TLV_COST :: nat where "TLV_COST = 140"
definition TLV_URI :: nat where "TLV_URI = 141"

lemmas tlv_types = TLV_NAME_def TLV_LSA_INFO_def TLV_ORIGIN_ROUTER_def TLV_SEQUENCE_NUMBER_def
  TLV_ADJACENCY_LSA_def TLV_ADJACENCY_def TLV_COORDINATE_LSA_def TLV_DOUBLE_def
  TLV_HYPERBOLIC_RADIUS_def TLV_HYPERBOLIC_ANGLE_def TLV_NAME_LSA_def TLV_LSDB_STATUS_def
  TLV_EXPIRATION_PERIOD_def TLV_COST_def TLV_URI_def

section \<open>The decoder\<close>

text \<open>
  \<open>PastBlock\<close>: the eight octets of a floating point number are read from a shorter block,
  which the code does not check.
\<close>

datatype tlv_error = Expected string nat | Missing string | LibraryError | PastBlock

definition check_type :: "nat \<Rightarrow> string \<Rightarrow> tlv_lib \<Rightarrow> block \<Rightarrow> tlv_error + block list" where
  "check_type t what T b =
     (if fst b \<noteq> t then Inl (Expected what (fst b)) else require LibraryError (tl_parse T (snd b)))"

text \<open>The next element, which has a given type, and those that follow.\<close>

definition take_element :: "nat \<Rightarrow> string \<Rightarrow> block list \<Rightarrow> tlv_error + bytes \<times> block list" where
  "take_element t what bs = (case bs of
       [] \<Rightarrow> Inl (Missing what)
     | b # bs \<Rightarrow> if fst b = t then Inr (snd b, bs) else Inl (Missing what))"

lemma take_element_simps [simp]:
  "take_element t what ((t, v) # bs) = Inr (v, bs)"
  "take_element t what [] = Inl (Missing what)"
  by (simp_all add: take_element_def)

text \<open>A name, encoded by the library.\<close>

definition name_wireEncode :: "tlv_lib \<Rightarrow> name \<Rightarrow> bytes \<Rightarrow> encoding" where
  "name_wireEncode T n b = prependByteArrayBlock T TLV_NAME (tl_name T n) (0, b)"

definition name_wireDecode :: "tlv_lib \<Rightarrow> block \<Rightarrow> tlv_error + name" where
  "name_wireDecode T b = require LibraryError (if fst b = TLV_NAME then tl_readName T (snd b) else None)"

section \<open>LSA information\<close>

record tlv_info =
  ti_originRouter :: name
  ti_sequenceNumber :: "64 word"
  ti_expirationPeriod :: int  \<comment> \<open>milliseconds\<close>
  ti_hasInfiniteExpirationPeriod :: bool

definition INFINITE_EXPIRATION_PERIOD :: int where
  "INFINITE_EXPIRATION_PERIOD = 2 ^ 63 - 1"

definition tlv_info_default :: tlv_info where
  "tlv_info_default = \<lparr>ti_originRouter = [], ti_sequenceNumber = 0,
     ti_expirationPeriod = INFINITE_EXPIRATION_PERIOD, ti_hasInfiniteExpirationPeriod = True\<rparr>"

definition setOriginRouter :: "name \<Rightarrow> tlv_info \<Rightarrow> tlv_info" where
  "setOriginRouter n i = i\<lparr>ti_originRouter := n\<rparr>"

definition setSequenceNumber :: "64 word \<Rightarrow> tlv_info \<Rightarrow> tlv_info" where
  "setSequenceNumber w i = i\<lparr>ti_sequenceNumber := w\<rparr>"

definition setExpirationPeriod :: "int \<Rightarrow> tlv_info \<Rightarrow> tlv_info" where
  "setExpirationPeriod p i =
     i\<lparr>ti_expirationPeriod := p, ti_hasInfiniteExpirationPeriod := p = INFINITE_EXPIRATION_PERIOD\<rparr>"

definition info_wireEncode :: "tlv_lib \<Rightarrow> tlv_info \<Rightarrow> bytes \<Rightarrow> encoding" where
  "info_wireEncode T i b =
     (let e = (0, b);
          e = (if \<not> ti_hasInfiniteExpirationPeriod i
               then prependNonNegativeIntegerBlock T TLV_EXPIRATION_PERIOD (of_int (ti_expirationPeriod i)) e
               else e);
          e = prependNonNegativeIntegerBlock T TLV_SEQUENCE_NUMBER (ti_sequenceNumber i) e;
          e = prependNestedBlock T TLV_ORIGIN_ROUTER (name_wireEncode T (ti_originRouter i)) e
      in end_block T TLV_LSA_INFO e)"

definition read_origin :: "tlv_lib \<Rightarrow> bytes \<Rightarrow> tlv_error + name" where
  "read_origin T v =
     and_then (require LibraryError (tl_parse T v)) (\<lambda>bs.
     and_then (take_element TLV_NAME ''OriginRouter: Name'' bs) (\<lambda>(n, _).
     name_wireDecode T (TLV_NAME, n)))"

text \<open>A period read as unsigned becomes the signed count of milliseconds.\<close>

definition read_expiration :: "tlv_lib \<Rightarrow> block list \<Rightarrow> tlv_error + int \<times> bool" where
  "read_expiration T bs = (case take_element TLV_EXPIRATION_PERIOD ''ExpirationPeriod'' bs of
       Inl _ \<Rightarrow> Inr (INFINITE_EXPIRATION_PERIOD, True)
     | Inr (v, _) \<Rightarrow> and_then (require LibraryError (tl_readNumber T v)) (\<lambda>w. Inr (sint w, False)))"

definition info_wireDecode :: "tlv_lib \<Rightarrow> block \<Rightarrow> tlv_error + tlv_info" where
  "info_wireDecode T b =
     and_then (check_type TLV_LSA_INFO ''LsaInfo'' T b) (\<lambda>bs.
     and_then (take_element TLV_ORIGIN_ROUTER ''OriginRouter'' bs) (\<lambda>(v, bs).
     and_then (read_origin T v) (\<lambda>origin.
     and_then (take_element TLV_SEQUENCE_NUMBER ''SequenceNumber'' bs) (\<lambda>(v, bs).
     and_then (require LibraryError (tl_readNumber T v)) (\<lambda>seq.
     and_then (read_expiration T bs) (\<lambda>(period, infinite).
       Inr \<lparr>ti_originRouter = origin, ti_sequenceNumber = seq, ti_expirationPeriod = period,
         ti_hasInfiniteExpirationPeriod = infinite\<rparr>))))))"

definition show_info :: "ndn_lib \<Rightarrow> tlv_lib \<Rightarrow> tlv_info \<Rightarrow> string" where
  "show_info L T i = ''LsaInfo(OriginRouter: '' @ toUri L (ti_originRouter i)
     @ '', SequenceNumber: '' @ showNat L (unat (ti_sequenceNumber i)) @ '', ''
     @ (if \<not> ti_hasInfiniteExpirationPeriod i
        then ''ExpirationPeriod: '' @ tl_showMilliseconds T (ti_expirationPeriod i)
        else ''ExpirationPeriod: Infinity'') @ '')''"

section \<open>Adjacencies\<close>

record tlv_adjacency =
  ta_name :: name
  ta_uri :: string
  ta_cost :: "64 word"

definition adjacency_wireEncode :: "tlv_lib \<Rightarrow> tlv_adjacency \<Rightarrow> bytes \<Rightarrow> encoding" where
  "adjacency_wireEncode T a b =
     (let e = (0, b);
          e = prependNonNegativeIntegerBlock T TLV_COST (ta_cost a) e;
          e = prependByteArrayBlock T TLV_URI (bytes_of (ta_uri a)) e;
          e = add_part (name_wireEncode T (ta_name a)) e
      in end_block T TLV_ADJACENCY e)"

definition adjacency_wireDecode :: "tlv_lib \<Rightarrow> block \<Rightarrow> tlv_error + tlv_adjacency" where
  "adjacency_wireDecode T b =
     and_then (check_type TLV_ADJACENCY ''Adjacency'' T b) (\<lambda>bs.
     and_then (take_element TLV_NAME ''Name'' bs) (\<lambda>(v, bs).
     and_then (name_wireDecode T (TLV_NAME, v)) (\<lambda>n.
     and_then (take_element TLV_URI ''Uri'' bs) (\<lambda>(uri, bs).
     and_then (take_element TLV_COST ''Cost'' bs) (\<lambda>(v, _).
     and_then (require LibraryError (tl_readNumber T v)) (\<lambda>cost.
       Inr \<lparr>ta_name = n, ta_uri = string_of uri, ta_cost = cost\<rparr>))))))"

definition show_adjacency :: "ndn_lib \<Rightarrow> tlv_adjacency \<Rightarrow> string" where
  "show_adjacency L a = ''Adjacency(Name: '' @ toUri L (ta_name a) @ '', Uri: '' @ ta_uri a
     @ '', Cost: '' @ showNat L (unat (ta_cost a)) @ '')''"

end
