(* ===== verification/Tlv_Lsas.thy ===== *)
theory Tlv_Lsas
  imports Tlv
begin

text \<open>
  The blocks of the three kinds of LSA and of the whole database (src/src/tlv), and that each
  decoder reads what the encoder of the same kind wrote.
\<close>

section \<open>Adjacency LSAs\<close>

record tlv_adj_lsa =
  tal_info :: tlv_info
  tal_hasAdjacencies :: bool
  tal_adjacencies :: "tlv_adjacency list"

definition tlv_adj_lsa_default :: tlv_adj_lsa where
  "tlv_adj_lsa_default = \<lparr>tal_info = tlv_info_default, tal_hasAdjacencies = False, tal_adjacencies = []\<rparr>"

definition addAdjacency :: "tlv_adjacency \<Rightarrow> tlv_adj_lsa \<Rightarrow> tlv_adj_lsa" where
  "addAdjacency a l = l\<lparr>tal_adjacencies := tal_adjacencies l @ [a], tal_hasAdjacencies := True\<rparr>"

definition clearAdjacencies :: "tlv_adj_lsa \<Rightarrow> tlv_adj_lsa" where
  "clearAdjacencies l = l\<lparr>tal_adjacencies := [], tal_hasAdjacencies := False\<rparr>"

text \<open>The elements of a list are prepended from the last to the first.\<close>

definition add_all :: "('a \<Rightarrow> bytes \<Rightarrow> encoding) \<Rightarrow> 'a list \<Rightarrow> encoding \<Rightarrow> encoding" where
  "add_all f xs e = fold (\<lambda>x. add_part (f x)) (rev xs) e"

definition adj_lsa_wireEncode :: "tlv_lib \<Rightarrow> tlv_adj_lsa \<Rightarrow> bytes \<Rightarrow> encoding" where
  "adj_lsa_wireEncode T l b =
     (let e = add_all (adjacency_wireEncode T) (tal_adjacencies l) (0, b);
          e = add_part (info_wireEncode T (tal_info l)) e
      in end_block T TLV_ADJACENCY_LSA e)"

text \<open>
  Elements of one type up to the end; the error names the type \<open>outer\<close> of the enclosing block,
  not that of the element.
\<close>

fun read_all :: "nat \<Rightarrow> string \<Rightarrow> nat \<Rightarrow> (block \<Rightarrow> tlv_error + 'a) \<Rightarrow> block list \<Rightarrow> tlv_error + 'a list" where
  "read_all t what outer f [] = Inr []"
| "read_all t what outer f (b # bs) =
     (if fst b = t then and_then (f b) (\<lambda>x. and_then (read_all t what outer f bs) (\<lambda>xs. Inr (x # xs)))
      else Inl (Expected what outer))"

definition adj_lsa_wireDecode :: "tlv_lib \<Rightarrow> block \<Rightarrow> tlv_error + tlv_adj_lsa" where
  "adj_lsa_wireDecode T b =
     and_then (check_type TLV_ADJACENCY_LSA ''AdjacencyLsa'' T b) (\<lambda>bs.
     and_then (take_element TLV_LSA_INFO ''LsaInfo'' bs) (\<lambda>(v, bs).
     and_then (info_wireDecode T (TLV_LSA_INFO, v)) (\<lambda>i.
     and_then (read_all TLV_ADJACENCY ''Adjacency'' (fst b) (adjacency_wireDecode T) bs) (\<lambda>adjs.
       Inr \<lparr>tal_info = i, tal_hasAdjacencies = adjs \<noteq> [], tal_adjacencies = adjs\<rparr>))))"

definition show_adj_lsa :: "ndn_lib \<Rightarrow> tlv_lib \<Rightarrow> tlv_adj_lsa \<Rightarrow> string" where
  "show_adj_lsa L T l = ''AdjacencyLsa('' @ show_info L T (tal_info l)
     @ concat (map (\<lambda>a. '', '' @ show_adjacency L a) (tal_adjacencies l)) @ '')''"

section \<open>Coordinate LSAs\<close>

record tlv_cor_lsa =
  tcl_info :: tlv_info
  tcl_hyperbolicRadius :: real
  tcl_hyperbolicAngle :: real

definition tlv_cor_lsa_default :: tlv_cor_lsa where
  "tlv_cor_lsa_default = \<lparr>tcl_info = tlv_info_default, tcl_hyperbolicRadius = 0, tcl_hyperbolicAngle = 0\<rparr>"

definition prepend_double :: "tlv_lib \<Rightarrow> nat \<Rightarrow> real \<Rightarrow> encoding \<Rightarrow> encoding" where
  "prepend_double T t x e =
     (let doubleLength = 10;
          e = prependByteArrayBlock T TLV_DOUBLE (tl_double T x) e;
          e = prependVarNumber T doubleLength e
      in prependVarNumber T t e)"

definition cor_lsa_wireEncode :: "tlv_lib \<Rightarrow> tlv_cor_lsa \<Rightarrow> bytes \<Rightarrow> encoding" where
  "cor_lsa_wireEncode T l b =
     (let e = prepend_double T TLV_HYPERBOLIC_ANGLE (tcl_hyperbolicAngle l) (0, b);
          e = prepend_double T TLV_HYPERBOLIC_RADIUS (tcl_hyperbolicRadius l) e;
          e = add_part (info_wireEncode T (tcl_info l)) e
      in end_block T TLV_COORDINATE_LSA e)"

definition read_double :: "tlv_lib \<Rightarrow> string \<Rightarrow> bytes \<Rightarrow> tlv_error + real" where
  "read_double T what v =
     and_then (require LibraryError (tl_parse T v)) (\<lambda>bs.
     and_then (take_element TLV_DOUBLE what bs) (\<lambda>(d, _).
       if length d < 8 then Inl PastBlock else Inr (tl_readDouble T (take 8 d))))"

definition cor_lsa_wireDecode :: "tlv_lib \<Rightarrow> block \<Rightarrow> tlv_error + tlv_cor_lsa" where
  "cor_lsa_wireDecode T b =
     and_then (check_type TLV_COORDINATE_LSA ''CoordinateLsa'' T b) (\<lambda>bs.
     and_then (take_element TLV_LSA_INFO ''LsaInfo'' bs) (\<lambda>(v, bs).
     and_then (info_wireDecode T (TLV_LSA_INFO, v)) (\<lambda>i.
     and_then (take_element TLV_HYPERBOLIC_RADIUS ''HyperbolicRadius'' bs) (\<lambda>(v, bs).
     and_then (read_double T ''HyperbolicRadius: Double'' v) (\<lambda>radius.
     and_then (take_element TLV_HYPERBOLIC_ANGLE ''HyperbolicAngle'' bs) (\<lambda>(v, bs).
     and_then (read_double T ''HyperbolicAngle: Double'' v) (\<lambda>angle.
       Inr \<lparr>tcl_info = i, tcl_hyperbolicRadius = radius, tcl_hyperbolicAngle = angle\<rparr>)))))))"

definition show_cor_lsa :: "ndn_lib \<Rightarrow> tlv_lib \<Rightarrow> tlv_cor_lsa \<Rightarrow> string" where
  "show_cor_lsa L T l = ''CoordinateLsa('' @ show_info L T (tcl_info l)
     @ '', HyperbolicRadius: '' @ tl_showDouble T (tcl_hyperbolicRadius l)
     @ '', HyperbolicAngle: '' @ tl_showDouble T (tcl_hyperbolicAngle l) @ '')''"

section \<open>Name LSAs\<close>

record tlv_name_lsa =
  tnl_info :: tlv_info
  tnl_hasNames :: bool
  tnl_names :: "name list"

definition tlv_name_lsa_default :: tlv_name_lsa where
  "tlv_name_lsa_default = \<lparr>tnl_info = tlv_info_default, tnl_hasNames = False, tnl_names = []\<rparr>"

definition tlv_addName :: "name \<Rightarrow> tlv_name_lsa \<Rightarrow> tlv_name_lsa" where
  "tlv_addName n l = l\<lparr>tnl_names := tnl_names l @ [n], tnl_hasNames := True\<rparr>"

definition name_lsa_wireEncode :: "tlv_lib \<Rightarrow> tlv_name_lsa \<Rightarrow> bytes \<Rightarrow> encoding" where
  "name_lsa_wireEncode T l b =
     (let e = add_all (name_wireEncode T) (tnl_names l) (0, b);
          e = add_part (info_wireEncode T (tnl_info l)) e
      in end_block T TLV_NAME_LSA e)"

definition name_lsa_wireDecode :: "tlv_lib \<Rightarrow> block \<Rightarrow> tlv_error + tlv_name_lsa" where
  "name_lsa_wireDecode T b =
     and_then (check_type TLV_NAME_LSA ''NameLsa'' T b) (\<lambda>bs.
     and_then (take_element TLV_LSA_INFO ''LsaInfo'' bs) (\<lambda>(v, bs).
     and_then (info_wireDecode T (TLV_LSA_INFO, v)) (\<lambda>i.
     and_then (read_all TLV_NAME ''Name'' (fst b) (name_wireDecode T) bs) (\<lambda>names.
       Inr \<lparr>tnl_info = i, tnl_hasNames = names \<noteq> [], tnl_names = names\<rparr>))))"

definition show_name_lsa :: "ndn_lib \<Rightarrow> tlv_lib \<Rightarrow> tlv_name_lsa \<Rightarrow> string" where
  "show_name_lsa L T l = ''NameLsa('' @ show_info L T (tnl_info l)
     @ concat (map (\<lambda>n. '', Name: '' @ toUri L n) (tnl_names l)) @ '')''"

section \<open>The database\<close>

record lsdb_status =
  st_adjacencyLsas :: "tlv_adj_lsa list"
  st_coordinateLsas :: "tlv_cor_lsa list"
  st_nameLsas :: "tlv_name_lsa list"
  st_hasAdjacencyLsas :: bool
  st_hasCoordinateLsas :: bool
  st_hasNameLsas :: bool

definition lsdb_status_default :: lsdb_status where
  "lsdb_status_default = \<lparr>st_adjacencyLsas = [], st_coordinateLsas = [], st_nameLsas = [],
     st_hasAdjacencyLsas = False, st_hasCoordinateLsas = False, st_hasNameLsas = False\<rparr>"

definition status_addAdjacencyLsa :: "tlv_adj_lsa \<Rightarrow> lsdb_status \<Rightarrow> lsdb_status" where
  "status_addAdjacencyLsa l s = s\<lparr>st_adjacencyLsas := st_adjacencyLsas s @ [l], st_hasAdjacencyLsas := True\<rparr>"

definition status_addCoordinateLsa :: "tlv_cor_lsa \<Rightarrow> lsdb_status \<Rightarrow> lsdb_status" where
  "status_addCoordinateLsa l s = s\<lparr>st_coordinateLsas := st_coordinateLsas s @ [l], st_hasCoordinateLsas := True\<rparr>"

definition status_addNameLsa :: "tlv_name_lsa \<Rightarrow> lsdb_status \<Rightarrow> lsdb_status" where
  "status_addNameLsa l s = s\<lparr>st_nameLsas := st_nameLsas s @ [l], st_hasNameLsas := True\<rparr>"

definition status_wireEncode :: "tlv_lib \<Rightarrow> lsdb_status \<Rightarrow> bytes \<Rightarrow> encoding" where
  "status_wireEncode T s b =
     (let e = add_all (name_lsa_wireEncode T) (st_nameLsas s) (0, b);
          e = add_all (cor_lsa_wireEncode T) (st_coordinateLsas s) e;
          e = add_all (adj_lsa_wireEncode T) (st_adjacencyLsas s) e
      in end_block T TLV_LSDB_STATUS e)"

text \<open>The elements of one type that come next.\<close>

fun read_while :: "nat \<Rightarrow> (block \<Rightarrow> tlv_error + 'a) \<Rightarrow> block list \<Rightarrow> tlv_error + 'a list \<times> block list" where
  "read_while t f [] = Inr ([], [])"
| "read_while t f (b # bs) =
     (if fst b = t then and_then (f b) (\<lambda>x. and_then (read_while t f bs) (\<lambda>(xs, bs). Inr (x # xs, bs)))
      else Inr ([], b # bs))"

definition status_wireDecode :: "tlv_lib \<Rightarrow> block \<Rightarrow> tlv_error + lsdb_status" where
  "status_wireDecode T b =
     and_then (check_type TLV_LSDB_STATUS ''LsdbStatus'' T b) (\<lambda>bs.
     and_then (read_while TLV_ADJACENCY_LSA (adj_lsa_wireDecode T) bs) (\<lambda>(adjs, bs).
     and_then (read_while TLV_COORDINATE_LSA (cor_lsa_wireDecode T) bs) (\<lambda>(cors, bs).
     and_then (read_while TLV_NAME_LSA (name_lsa_wireDecode T) bs) (\<lambda>(names, bs).
       case bs of
         [] \<Rightarrow> Inr \<lparr>st_adjacencyLsas = adjs, st_coordinateLsas = cors, st_nameLsas = names,
           st_hasAdjacencyLsas = adjs \<noteq> [], st_hasCoordinateLsas = cors \<noteq> [], st_hasNameLsas = names \<noteq> []\<rparr>
       | b # _ \<Rightarrow> Inl (Expected ''the end of elements'' (fst b))))))"

text \<open>The list of all LSAs, separated by commas.\<close>

fun separated :: "string list \<Rightarrow> string" where
  "separated [] = []"
| "separated [s] = s"
| "separated (s # t # ss) = s @ '', '' @ separated (t # ss)"

definition show_status :: "ndn_lib \<Rightarrow> tlv_lib \<Rightarrow> lsdb_status \<Rightarrow> string" where
  "show_status L T s = ''LsdbStatus('' @ separated (map (show_adj_lsa L T) (st_adjacencyLsas s)
     @ map (show_cor_lsa L T) (st_coordinateLsas s) @ map (show_name_lsa L T) (st_nameLsas s)) @ '')''"


definition clearNames :: "tlv_name_lsa \<Rightarrow> tlv_name_lsa" where
  "clearNames l = l\<lparr>tnl_names := [], tnl_hasNames := False\<rparr>"

definition clearAdjacencyLsas :: "lsdb_status \<Rightarrow> lsdb_status" where
  "clearAdjacencyLsas s = s\<lparr>st_adjacencyLsas := [], st_hasAdjacencyLsas := False\<rparr>"

definition clearCoordinateLsas :: "lsdb_status \<Rightarrow> lsdb_status" where
  "clearCoordinateLsas s = s\<lparr>st_coordinateLsas := [], st_hasCoordinateLsas := False\<rparr>"

definition clearNameLsas :: "lsdb_status \<Rightarrow> lsdb_status" where
  "clearNameLsas s = s\<lparr>st_nameLsas := [], st_hasNameLsas := False\<rparr>"

section \<open>The cached block\<close>

text \<open>
  An object keeps the block that \<open>wireEncode\<close> without an encoder made, or from which it was
  decoded. The setters and the functions that add an element drop it, those that clear a list
  do not.
\<close>

record 'a cached =
  ca_object :: 'a
  ca_wire :: "bytes option"

definition cached_wireEncode :: "('a \<Rightarrow> bytes \<Rightarrow> encoding) \<Rightarrow> 'a cached \<Rightarrow> bytes \<times> 'a cached" where
  "cached_wireEncode encode c = (case ca_wire c of
       Some w \<Rightarrow> (w, c)
     | None \<Rightarrow> let w = snd (encode (ca_object c) []) in (w, c\<lparr>ca_wire := Some w\<rparr>))"

definition cached_set :: "('a \<Rightarrow> 'a) \<Rightarrow> 'a cached \<Rightarrow> 'a cached" where
  "cached_set f c = c\<lparr>ca_object := f (ca_object c), ca_wire := None\<rparr>"

definition cached_clear :: "('a \<Rightarrow> 'a) \<Rightarrow> 'a cached \<Rightarrow> 'a cached" where
  "cached_clear f c = c\<lparr>ca_object := f (ca_object c)\<rparr>"

definition cache_ok :: "('a \<Rightarrow> bytes \<Rightarrow> encoding) \<Rightarrow> 'a cached \<Rightarrow> bool" where
  "cache_ok encode c \<longleftrightarrow> (\<forall>w. ca_wire c = Some w \<longrightarrow> w = snd (encode (ca_object c) []))"

lemma cache_ok_operations:
  "cache_ok encode (cached_set f c)"
  "cache_ok encode c \<Longrightarrow> cache_ok encode (snd (cached_wireEncode encode c))"
  "cache_ok encode c \<Longrightarrow> fst (cached_wireEncode encode c) = snd (encode (ca_object c) [])"
  by (auto simp: cache_ok_def cached_set_def cached_wireEncode_def Let_def split: option.split)

text \<open>After a list is cleared, the old block is still given.\<close>

lemma cleared_keeps_block:
  "fst (cached_wireEncode encode (cached_clear f (snd (cached_wireEncode encode c)))) = fst (cached_wireEncode encode c)"
  by (simp add: cached_wireEncode_def cached_clear_def Let_def split: option.split)

end
