(* ===== verification/Tlv_Codec.thy ===== *)
theory Tlv_Codec
  imports Tlv_Lsas
begin

text \<open>
  Each decoder of src/src/tlv reads what the encoder of the same kind wrote. The contract of
  such a pair is the locale \<open>tlv_codec\<close>; lists of elements are read back inside it, and every
  kind of block is an interpretation.
\<close>

section \<open>Sequences of blocks\<close>

definition tlv_wires :: "tlv_lib \<Rightarrow> nat \<Rightarrow> bytes list \<Rightarrow> bytes" where
  "tlv_wires T t cs = concat (map (tlv_block T t) cs)"

lemma tlv_wires_simps [simp]:
  "tlv_wires T t [] = []"
  "tlv_wires T t (c # cs) = tlv_block T t c @ tlv_wires T t cs"
  "tlv_wires T t (cs @ ds) = tlv_wires T t cs @ tlv_wires T t ds"
  by (simp_all add: tlv_wires_def)

lemma length_tlv_block:
  "length (tlv_block T t v) = length (tl_varNumber T t) + length (tl_varNumber T (length v)) + length v"
  by (simp add: tlv_block_def)

lemma block_bound: "length (tlv_block T t v) < n \<Longrightarrow> length v < n"
  by (simp add: length_tlv_block)

lemma wires_bound: "length (tlv_wires T t cs) < n \<Longrightarrow> c \<in> set cs \<Longrightarrow> length c < n"
  by (induction cs) (auto simp: length_tlv_block)

lemma parse_last:
  assumes "tlv_ok T" and "t < 2 ^ 32" and "length v < 2 ^ 64"
  shows "tl_parse T (tlv_block T t v) = Some [(t, v)]"
  using tlv_laws(3) [OF assms, of "[]"] tlv_laws(2) [OF assms(1)] by simp

lemma parse_wires:
  assumes "tlv_ok T" and "t < 2 ^ 32" and "length (tlv_wires T t cs) < 2 ^ 64"
  shows "tl_parse T (tlv_wires T t cs @ bs) = map_option ((@) (map (Pair t) cs)) (tl_parse T bs)"
  using assms(3)
proof (induction cs)
  case Nil
  then show ?case by (cases "tl_parse T bs") simp_all
next
  case (Cons c cs)
  have "length c < 2 ^ 64" using wires_bound [OF Cons.prems] by simp
  from tlv_laws(3) [OF assms(1,2) this] Cons show ?case
    by (simp add: option.map_comp comp_def)
qed

lemma end_block_wire [simp]: "end_block T t (length v, v @ b) = (length (tlv_block T t v), tlv_block T t v @ b)"
  by (simp add: end_block_def prependVarNumber_def prepend_def tlv_block_def)

lemma byte_block [simp]:
  "prependByteArrayBlock T t v e = (fst e + length (tlv_block T t v), tlv_block T t v @ snd e)"
  by (simp add: prependByteArrayBlock_def prependVarNumber_def prepend_def tlv_block_def)

lemma number_block [simp]:
  "prependNonNegativeIntegerBlock T t w e =
    (fst e + length (tlv_block T t (tl_number T w)), tlv_block T t (tl_number T w) @ snd e)"
  by (simp add: prependNonNegativeIntegerBlock_def)

lemma check_type_ok: "tl_parse T v = Some bs \<Longrightarrow> check_type t what T (t, v) = Inr bs"
  by (simp add: check_type_def)

section \<open>The contract\<close>

locale tlv_codec =
  fixes kind :: nat
    and encode :: "tlv_lib \<Rightarrow> 'a \<Rightarrow> bytes \<Rightarrow> encoding"
    and decode :: "tlv_lib \<Rightarrow> block \<Rightarrow> tlv_error + 'a"
    and content :: "tlv_lib \<Rightarrow> 'a \<Rightarrow> bytes"
    and ok :: "tlv_lib \<Rightarrow> 'a \<Rightarrow> bool"
  assumes kind_small: "kind < 2 ^ 32"
    and encode_wire: "tlv_ok T \<Longrightarrow> ok T x \<Longrightarrow>
      encode T x b = (length (tlv_block T kind (content T x)), tlv_block T kind (content T x) @ b)"
    and decode_wire: "tlv_ok T \<Longrightarrow> ok T x \<Longrightarrow> length (content T x) < 2 ^ 64 \<Longrightarrow>
      decode T (kind, content T x) = Inr x"
begin

definition wires :: "tlv_lib \<Rightarrow> 'a list \<Rightarrow> bytes" where
  "wires T xs = tlv_wires T kind (map (content T) xs)"

lemma wires_simps [simp]:
  "wires T [] = []"
  "wires T (x # xs) = tlv_block T kind (content T x) @ wires T xs"
  by (simp_all add: wires_def)

lemma wires_member: "length (wires T xs) < n \<Longrightarrow> x \<in> set xs \<Longrightarrow> length (content T x) < n"
  using wires_bound [of T kind "map (content T) xs" n "content T x"] by (simp add: wires_def)

lemma add_all_wires:
  assumes "tlv_ok T" and "list_all (ok T) xs"
  shows "add_all (encode T) xs e = (fst e + length (wires T xs), wires T xs @ snd e)"
  using assms(2)
proof (induction xs arbitrary: e)
  case (Cons x xs)
  then show ?case
    using encode_wire [OF assms(1), of x] by (simp add: add_all_def add_part_def)
qed (simp add: add_all_def)

lemma parse_all:
  assumes "tlv_ok T" and "length (wires T xs) < 2 ^ 64"
  shows "tl_parse T (wires T xs @ bs) = map_option ((@) (map (\<lambda>x. (kind, content T x)) xs)) (tl_parse T bs)"
  using parse_wires [OF assms(1) kind_small, of "map (content T) xs"] assms(2)
  by (simp add: wires_def comp_def)

lemma parse_only:
  "tlv_ok T \<Longrightarrow> length (wires T xs) < 2 ^ 64 \<Longrightarrow> tl_parse T (wires T xs) = Some (map (\<lambda>x. (kind, content T x)) xs)"
  using parse_all [of T xs "[]"] by (simp add: tlv_laws(2))

lemma read_all_wires:
  assumes "tlv_ok T" and "list_all (ok T) xs" and "length (wires T xs) < 2 ^ 64"
  shows "read_all kind what outer (decode T) (map (\<lambda>x. (kind, content T x)) xs) = Inr xs"
  using assms(2,3)
proof (induction xs)
  case (Cons x xs)
  have "length (content T x) < 2 ^ 64" using wires_member [OF Cons.prems(2)] by simp
  with Cons show ?case
    using decode_wire [OF assms(1)] by simp
qed simp

lemma read_while_wires:
  assumes "tlv_ok T" and "list_all (ok T) xs" and "length (wires T xs) < 2 ^ 64"
    and "list_all (\<lambda>b. fst b \<noteq> kind) bs"
  shows "read_while kind (decode T) (map (\<lambda>x. (kind, content T x)) xs @ bs) = Inr (xs, bs)"
  using assms(2,3)
proof (induction xs)
  case Nil
  from assms(4) show ?case by (cases bs) simp_all
next
  case (Cons x xs)
  have "length (content T x) < 2 ^ 64" using wires_member [OF Cons.prems(2)] by simp
  with Cons show ?case
    using decode_wire [OF assms(1)] by simp
qed

end

section \<open>Names and information\<close>

definition any_ok :: "tlv_lib \<Rightarrow> 'a \<Rightarrow> bool" where "any_ok T x \<longleftrightarrow> True"

interpretation name_codec: tlv_codec TLV_NAME name_wireEncode name_wireDecode tl_name any_ok
  by unfold_locales (simp_all add: name_wireEncode_def name_wireDecode_def tlv_laws tlv_types)

definition info_content :: "tlv_lib \<Rightarrow> tlv_info \<Rightarrow> bytes" where
  "info_content T i = tlv_block T TLV_ORIGIN_ROUTER (tlv_block T TLV_NAME (tl_name T (ti_originRouter i)))
     @ tlv_block T TLV_SEQUENCE_NUMBER (tl_number T (ti_sequenceNumber i))
     @ (if ti_hasInfiniteExpirationPeriod i then []
        else tlv_block T TLV_EXPIRATION_PERIOD (tl_number T (of_int (ti_expirationPeriod i))))"

text \<open>What the constructor and the setters establish, for a period the type can hold.\<close>

definition info_ok :: "tlv_lib \<Rightarrow> tlv_info \<Rightarrow> bool" where
  "info_ok T i \<longleftrightarrow> - (2 ^ 63) \<le> ti_expirationPeriod i \<and> ti_expirationPeriod i < 2 ^ 63 \<and>
     (ti_hasInfiniteExpirationPeriod i \<longrightarrow> ti_expirationPeriod i = INFINITE_EXPIRATION_PERIOD)"

lemma sint_period: "- (2 ^ 63) \<le> p \<Longrightarrow> p < 2 ^ 63 \<Longrightarrow> sint (of_int p :: 64 word) = p"
  by (simp add: signed_of_int signed_take_bit_int_eq_self)

lemma take_info_elements:
  "length (info_content T i) < 2 ^ 64 \<Longrightarrow> length (tl_name T (ti_originRouter i)) < 2 ^ 64 \<and>
    length (tlv_block T TLV_NAME (tl_name T (ti_originRouter i))) < 2 ^ 64 \<and>
    length (tl_number T (ti_sequenceNumber i)) < 2 ^ 64 \<and>
    (\<not> ti_hasInfiniteExpirationPeriod i \<longrightarrow> length (tl_number T (of_int (ti_expirationPeriod i))) < 2 ^ 64)"
  by (auto simp: info_content_def length_tlv_block)

lemma info_decodes:
  assumes T: "tlv_ok T" and ok: "info_ok T i" and len: "length (info_content T i) < 2 ^ 64"
  shows "info_wireDecode T (TLV_LSA_INFO, info_content T i) = Inr i"
proof -
  note laws = tlv_laws [OF T]
  note sizes = take_info_elements [OF len]
  have parsed: "tl_parse T (info_content T i) = Some ([(TLV_ORIGIN_ROUTER, tlv_block T TLV_NAME (tl_name T (ti_originRouter i))),
      (TLV_SEQUENCE_NUMBER, tl_number T (ti_sequenceNumber i))]
      @ (if ti_hasInfiniteExpirationPeriod i then []
         else [(TLV_EXPIRATION_PERIOD, tl_number T (of_int (ti_expirationPeriod i)))]))"
    using sizes by (simp add: info_content_def laws(2,3) parse_last [OF T] TLV_ORIGIN_ROUTER_def
        TLV_SEQUENCE_NUMBER_def TLV_EXPIRATION_PERIOD_def)
  have origin: "read_origin T (tlv_block T TLV_NAME (tl_name T (ti_originRouter i))) = Inr (ti_originRouter i)"
    using sizes by (simp add: read_origin_def parse_last [OF T] name_wireDecode_def laws(6) TLV_NAME_def)
  from ok show ?thesis
    by (auto simp: info_wireDecode_def check_type_ok [OF parsed] origin laws(5) read_expiration_def
        info_ok_def sint_period intro!: tlv_info.equality)
qed

interpretation info_codec: tlv_codec TLV_LSA_INFO info_wireEncode info_wireDecode info_content info_ok
proof unfold_locales
  show "info_wireEncode T x b = (length (tlv_block T TLV_LSA_INFO (info_content T x)),
    tlv_block T TLV_LSA_INFO (info_content T x) @ b)" for T x b
  proof -
    let ?e = "prependNestedBlock T TLV_ORIGIN_ROUTER (name_wireEncode T (ti_originRouter x))
      (prependNonNegativeIntegerBlock T TLV_SEQUENCE_NUMBER (ti_sequenceNumber x)
        (if \<not> ti_hasInfiniteExpirationPeriod x
         then prependNonNegativeIntegerBlock T TLV_EXPIRATION_PERIOD (of_int (ti_expirationPeriod x)) (0, b)
         else (0, b)))"
    have "?e = (length (info_content T x), info_content T x @ b)"
      by (simp add: prependNestedBlock_def add_part_def name_wireEncode_def info_content_def)
    then show ?thesis by (simp add: info_wireEncode_def Let_def)
  qed
qed (use info_decodes in \<open>simp_all add: TLV_LSA_INFO_def\<close>)


section \<open>Adjacencies\<close>

definition adjacency_content :: "tlv_lib \<Rightarrow> tlv_adjacency \<Rightarrow> bytes" where
  "adjacency_content T a = tlv_block T TLV_NAME (tl_name T (ta_name a))
     @ tlv_block T TLV_URI (bytes_of (ta_uri a)) @ tlv_block T TLV_COST (tl_number T (ta_cost a))"

lemma adjacency_decodes:
  assumes T: "tlv_ok T" and len: "length (adjacency_content T a) < 2 ^ 64"
  shows "adjacency_wireDecode T (TLV_ADJACENCY, adjacency_content T a) = Inr a"
proof -
  note laws = tlv_laws [OF T]
  have sizes: "length (tl_name T (ta_name a)) < 2 ^ 64 \<and> length (ta_uri a) < 2 ^ 64 \<and>
      length (tl_number T (ta_cost a)) < 2 ^ 64"
    using len by (simp add: adjacency_content_def length_tlv_block)
  have parsed: "tl_parse T (adjacency_content T a) = Some [(TLV_NAME, tl_name T (ta_name a)),
      (TLV_URI, bytes_of (ta_uri a)), (TLV_COST, tl_number T (ta_cost a))]"
    using sizes by (simp add: adjacency_content_def laws(3) parse_last [OF T] TLV_NAME_def TLV_URI_def TLV_COST_def)
  show ?thesis
    by (simp add: adjacency_wireDecode_def check_type_ok [OF parsed] name_wireDecode_def laws(5,6))
qed

interpretation adjacency_codec:
  tlv_codec TLV_ADJACENCY adjacency_wireEncode adjacency_wireDecode adjacency_content any_ok
proof unfold_locales
  show "adjacency_wireEncode T x b = (length (tlv_block T TLV_ADJACENCY (adjacency_content T x)),
    tlv_block T TLV_ADJACENCY (adjacency_content T x) @ b)" for T x b
  proof -
    let ?e = "add_part (name_wireEncode T (ta_name x)) (prependByteArrayBlock T TLV_URI (bytes_of (ta_uri x))
      (prependNonNegativeIntegerBlock T TLV_COST (ta_cost x) (0, b)))"
    have "?e = (length (adjacency_content T x), adjacency_content T x @ b)"
      by (simp add: add_part_def name_wireEncode_def adjacency_content_def)
    then show ?thesis by (simp add: adjacency_wireEncode_def Let_def)
  qed
qed (use adjacency_decodes in \<open>simp_all add: TLV_ADJACENCY_def\<close>)

section \<open>The three kinds of LSA\<close>

definition adj_lsa_content :: "tlv_lib \<Rightarrow> tlv_adj_lsa \<Rightarrow> bytes" where
  "adj_lsa_content T l = tlv_block T TLV_LSA_INFO (info_content T (tal_info l))
     @ adjacency_codec.wires T (tal_adjacencies l)"

definition adj_lsa_ok :: "tlv_lib \<Rightarrow> tlv_adj_lsa \<Rightarrow> bool" where
  "adj_lsa_ok T l \<longleftrightarrow> info_ok T (tal_info l) \<and> (tal_hasAdjacencies l \<longleftrightarrow> tal_adjacencies l \<noteq> [])"

lemma any_ok_all [simp]: "list_all (any_ok T) xs"
  by (simp add: list_all_iff any_ok_def)

lemma adj_lsa_decodes:
  assumes T: "tlv_ok T" and ok: "adj_lsa_ok T l" and len: "length (adj_lsa_content T l) < 2 ^ 64"
  shows "adj_lsa_wireDecode T (TLV_ADJACENCY_LSA, adj_lsa_content T l) = Inr l"
proof -
  have sizes: "length (info_content T (tal_info l)) < 2 ^ 64"
      "length (adjacency_codec.wires T (tal_adjacencies l)) < 2 ^ 64"
    using len by (simp_all add: adj_lsa_content_def length_tlv_block)
  have parsed: "tl_parse T (adj_lsa_content T l) = Some ((TLV_LSA_INFO, info_content T (tal_info l))
      # map (\<lambda>a. (TLV_ADJACENCY, adjacency_content T a)) (tal_adjacencies l))"
    using sizes adjacency_codec.parse_only [OF T]
    by (simp add: adj_lsa_content_def tlv_laws(3) [OF T] TLV_LSA_INFO_def)
  from ok show ?thesis
    by (simp add: adj_lsa_wireDecode_def check_type_ok [OF parsed] adj_lsa_ok_def
        info_codec.decode_wire [OF T _ sizes(1)] adjacency_codec.read_all_wires [OF T _ sizes(2)])
qed

interpretation adj_lsa_codec:
  tlv_codec TLV_ADJACENCY_LSA adj_lsa_wireEncode adj_lsa_wireDecode adj_lsa_content adj_lsa_ok
proof unfold_locales
  show "adj_lsa_wireEncode T x b = (length (tlv_block T TLV_ADJACENCY_LSA (adj_lsa_content T x)),
    tlv_block T TLV_ADJACENCY_LSA (adj_lsa_content T x) @ b)" if "tlv_ok T" "adj_lsa_ok T x" for T x b
  proof -
    let ?e = "add_part (info_wireEncode T (tal_info x))
      (add_all (adjacency_wireEncode T) (tal_adjacencies x) (0, b))"
    have "?e = (length (adj_lsa_content T x), adj_lsa_content T x @ b)"
      using that by (simp add: adjacency_codec.add_all_wires adj_lsa_ok_def add_part_def
          info_codec.encode_wire adj_lsa_content_def)
    then show ?thesis by (simp add: adj_lsa_wireEncode_def Let_def)
  qed
qed (use adj_lsa_decodes in \<open>simp_all add: TLV_ADJACENCY_LSA_def\<close>)

definition name_lsa_content :: "tlv_lib \<Rightarrow> tlv_name_lsa \<Rightarrow> bytes" where
  "name_lsa_content T l = tlv_block T TLV_LSA_INFO (info_content T (tnl_info l))
     @ name_codec.wires T (tnl_names l)"

definition name_lsa_ok :: "tlv_lib \<Rightarrow> tlv_name_lsa \<Rightarrow> bool" where
  "name_lsa_ok T l \<longleftrightarrow> info_ok T (tnl_info l) \<and> (tnl_hasNames l \<longleftrightarrow> tnl_names l \<noteq> [])"

lemma name_lsa_decodes:
  assumes T: "tlv_ok T" and ok: "name_lsa_ok T l" and len: "length (name_lsa_content T l) < 2 ^ 64"
  shows "name_lsa_wireDecode T (TLV_NAME_LSA, name_lsa_content T l) = Inr l"
proof -
  have sizes: "length (info_content T (tnl_info l)) < 2 ^ 64" "length (name_codec.wires T (tnl_names l)) < 2 ^ 64"
    using len by (simp_all add: name_lsa_content_def length_tlv_block)
  have parsed: "tl_parse T (name_lsa_content T l) = Some ((TLV_LSA_INFO, info_content T (tnl_info l))
      # map (\<lambda>n. (TLV_NAME, tl_name T n)) (tnl_names l))"
    using sizes name_codec.parse_only [OF T]
    by (simp add: name_lsa_content_def tlv_laws(3) [OF T] TLV_LSA_INFO_def)
  from ok show ?thesis
    by (simp add: name_lsa_wireDecode_def check_type_ok [OF parsed] name_lsa_ok_def
        info_codec.decode_wire [OF T _ sizes(1)] name_codec.read_all_wires [OF T _ sizes(2)])
qed

interpretation name_lsa_codec:
  tlv_codec TLV_NAME_LSA name_lsa_wireEncode name_lsa_wireDecode name_lsa_content name_lsa_ok
proof unfold_locales
  show "name_lsa_wireEncode T x b = (length (tlv_block T TLV_NAME_LSA (name_lsa_content T x)),
    tlv_block T TLV_NAME_LSA (name_lsa_content T x) @ b)" if "tlv_ok T" "name_lsa_ok T x" for T x b
  proof -
    let ?e = "add_part (info_wireEncode T (tnl_info x)) (add_all (name_wireEncode T) (tnl_names x) (0, b))"
    have "?e = (length (name_lsa_content T x), name_lsa_content T x @ b)"
      using that by (simp add: name_codec.add_all_wires name_lsa_ok_def add_part_def
          info_codec.encode_wire name_lsa_content_def)
    then show ?thesis by (simp add: name_lsa_wireEncode_def Let_def)
  qed
qed (use name_lsa_decodes in \<open>simp_all add: TLV_NAME_LSA_def\<close>)

definition double_block :: "tlv_lib \<Rightarrow> real \<Rightarrow> bytes" where
  "double_block T x = tlv_block T TLV_DOUBLE (tl_double T x)"

definition cor_lsa_content :: "tlv_lib \<Rightarrow> tlv_cor_lsa \<Rightarrow> bytes" where
  "cor_lsa_content T l = tlv_block T TLV_LSA_INFO (info_content T (tcl_info l))
     @ tlv_block T TLV_HYPERBOLIC_RADIUS (double_block T (tcl_hyperbolicRadius l))
     @ tlv_block T TLV_HYPERBOLIC_ANGLE (double_block T (tcl_hyperbolicAngle l))"

definition cor_lsa_ok :: "tlv_lib \<Rightarrow> tlv_cor_lsa \<Rightarrow> bool" where
  "cor_lsa_ok T l \<longleftrightarrow> info_ok T (tcl_info l) \<and> tl_isDouble T (tcl_hyperbolicRadius l) \<and>
     tl_isDouble T (tcl_hyperbolicAngle l)"

lemma length_double_block:
  assumes "tlv_ok T" and "tl_isDouble T x"
  shows "length (double_block T x) = 10"
  using tlv_laws(1) [OF assms(1), of 134] tlv_laws(1) [OF assms(1), of 8] tlv_laws(7) [OF assms]
  by (simp add: double_block_def length_tlv_block TLV_DOUBLE_def)

lemma prepend_double_block:
  assumes "tlv_ok T" and "tl_isDouble T x"
  shows "prepend_double T t x e =
    (fst e + length (tlv_block T t (double_block T x)), tlv_block T t (double_block T x) @ snd e)"
  using length_double_block [OF assms]
  by (simp add: prepend_double_def prependVarNumber_def prepend_def Let_def tlv_block_def [of T t]
      flip: double_block_def)

lemma read_double_block:
  assumes "tlv_ok T" and "tl_isDouble T x"
  shows "read_double T what (double_block T x) = Inr x"
  using tlv_laws(7,8) [OF assms]
  by (simp add: read_double_def double_block_def parse_last [OF assms(1)] TLV_DOUBLE_def)

lemma cor_lsa_decodes:
  assumes T: "tlv_ok T" and ok: "cor_lsa_ok T l" and len: "length (cor_lsa_content T l) < 2 ^ 64"
  shows "cor_lsa_wireDecode T (TLV_COORDINATE_LSA, cor_lsa_content T l) = Inr l"
proof -
  have size: "length (info_content T (tcl_info l)) < 2 ^ 64"
    using len by (simp add: cor_lsa_content_def length_tlv_block)
  have parsed: "tl_parse T (cor_lsa_content T l) = Some [(TLV_LSA_INFO, info_content T (tcl_info l)),
      (TLV_HYPERBOLIC_RADIUS, double_block T (tcl_hyperbolicRadius l)),
      (TLV_HYPERBOLIC_ANGLE, double_block T (tcl_hyperbolicAngle l))]"
    using size ok length_double_block [OF T]
    by (simp add: cor_lsa_content_def cor_lsa_ok_def tlv_laws(3) [OF T] parse_last [OF T] TLV_LSA_INFO_def
        TLV_HYPERBOLIC_RADIUS_def TLV_HYPERBOLIC_ANGLE_def)
  from ok show ?thesis
    by (simp add: cor_lsa_wireDecode_def check_type_ok [OF parsed] cor_lsa_ok_def read_double_block [OF T]
        info_codec.decode_wire [OF T _ size])
qed

interpretation cor_lsa_codec:
  tlv_codec TLV_COORDINATE_LSA cor_lsa_wireEncode cor_lsa_wireDecode cor_lsa_content cor_lsa_ok
proof unfold_locales
  show "cor_lsa_wireEncode T x b = (length (tlv_block T TLV_COORDINATE_LSA (cor_lsa_content T x)),
    tlv_block T TLV_COORDINATE_LSA (cor_lsa_content T x) @ b)" if "tlv_ok T" "cor_lsa_ok T x" for T x b
  proof -
    let ?e = "add_part (info_wireEncode T (tcl_info x)) (prepend_double T TLV_HYPERBOLIC_RADIUS (tcl_hyperbolicRadius x)
      (prepend_double T TLV_HYPERBOLIC_ANGLE (tcl_hyperbolicAngle x) (0, b)))"
    have "?e = (length (cor_lsa_content T x), cor_lsa_content T x @ b)"
      using that by (simp add: prepend_double_block cor_lsa_ok_def add_part_def
          info_codec.encode_wire cor_lsa_content_def)
    then show ?thesis by (simp add: cor_lsa_wireEncode_def Let_def)
  qed
qed (use cor_lsa_decodes in \<open>simp_all add: TLV_COORDINATE_LSA_def\<close>)

section \<open>The database\<close>

definition status_content :: "tlv_lib \<Rightarrow> lsdb_status \<Rightarrow> bytes" where
  "status_content T s = adj_lsa_codec.wires T (st_adjacencyLsas s)
     @ cor_lsa_codec.wires T (st_coordinateLsas s) @ name_lsa_codec.wires T (st_nameLsas s)"

definition status_ok :: "tlv_lib \<Rightarrow> lsdb_status \<Rightarrow> bool" where
  "status_ok T s \<longleftrightarrow> list_all (adj_lsa_ok T) (st_adjacencyLsas s) \<and>
     list_all (cor_lsa_ok T) (st_coordinateLsas s) \<and> list_all (name_lsa_ok T) (st_nameLsas s) \<and>
     (st_hasAdjacencyLsas s \<longleftrightarrow> st_adjacencyLsas s \<noteq> []) \<and>
     (st_hasCoordinateLsas s \<longleftrightarrow> st_coordinateLsas s \<noteq> []) \<and> (st_hasNameLsas s \<longleftrightarrow> st_nameLsas s \<noteq> [])"

lemma other_kinds:
  "list_all (\<lambda>b. fst b \<noteq> t) (map (\<lambda>x. (t', f x)) xs) \<longleftrightarrow> t' \<noteq> t \<or> xs = []"
  by (induction xs) auto

lemma status_decodes:
  assumes T: "tlv_ok T" and ok: "status_ok T s" and len: "length (status_content T s) < 2 ^ 64"
  shows "status_wireDecode T (TLV_LSDB_STATUS, status_content T s) = Inr s"
proof -
  have sizes: "length (adj_lsa_codec.wires T (st_adjacencyLsas s)) < 2 ^ 64"
      "length (cor_lsa_codec.wires T (st_coordinateLsas s)) < 2 ^ 64"
      "length (name_lsa_codec.wires T (st_nameLsas s)) < 2 ^ 64"
    using len by (simp_all add: status_content_def)
  note parses = adj_lsa_codec.parse_all [OF T sizes(1)] cor_lsa_codec.parse_all [OF T sizes(2)]
    name_lsa_codec.parse_only [OF T sizes(3)]
  have parsed: "tl_parse T (status_content T s) = Some (
      map (\<lambda>l. (TLV_ADJACENCY_LSA, adj_lsa_content T l)) (st_adjacencyLsas s)
      @ map (\<lambda>l. (TLV_COORDINATE_LSA, cor_lsa_content T l)) (st_coordinateLsas s)
      @ map (\<lambda>l. (TLV_NAME_LSA, name_lsa_content T l)) (st_nameLsas s))"
    by (simp add: status_content_def parses)
  have reads: "read_while TLV_ADJACENCY_LSA (adj_lsa_wireDecode T)
      (map (\<lambda>l. (TLV_ADJACENCY_LSA, adj_lsa_content T l)) (st_adjacencyLsas s)
      @ map (\<lambda>l. (TLV_COORDINATE_LSA, cor_lsa_content T l)) (st_coordinateLsas s)
      @ map (\<lambda>l. (TLV_NAME_LSA, name_lsa_content T l)) (st_nameLsas s)) =
        Inr (st_adjacencyLsas s, map (\<lambda>l. (TLV_COORDINATE_LSA, cor_lsa_content T l)) (st_coordinateLsas s)
      @ map (\<lambda>l. (TLV_NAME_LSA, name_lsa_content T l)) (st_nameLsas s))"
    "read_while TLV_COORDINATE_LSA (cor_lsa_wireDecode T)
      (map (\<lambda>l. (TLV_COORDINATE_LSA, cor_lsa_content T l)) (st_coordinateLsas s)
      @ map (\<lambda>l. (TLV_NAME_LSA, name_lsa_content T l)) (st_nameLsas s)) =
        Inr (st_coordinateLsas s, map (\<lambda>l. (TLV_NAME_LSA, name_lsa_content T l)) (st_nameLsas s))"
    "read_while TLV_NAME_LSA (name_lsa_wireDecode T)
      (map (\<lambda>l. (TLV_NAME_LSA, name_lsa_content T l)) (st_nameLsas s)) = Inr (st_nameLsas s, [])"
    using ok adj_lsa_codec.read_while_wires [OF T _ sizes(1)] cor_lsa_codec.read_while_wires [OF T _ sizes(2)]
      name_lsa_codec.read_while_wires [OF T _ sizes(3), of "[]"]
    by (simp_all add: status_ok_def other_kinds tlv_types)
  from ok show ?thesis
    by (simp add: status_wireDecode_def check_type_ok [OF parsed] reads status_ok_def)
qed

interpretation status_codec:
  tlv_codec TLV_LSDB_STATUS status_wireEncode status_wireDecode status_content status_ok
proof unfold_locales
  show "status_wireEncode T x b = (length (tlv_block T TLV_LSDB_STATUS (status_content T x)),
    tlv_block T TLV_LSDB_STATUS (status_content T x) @ b)" if "tlv_ok T" "status_ok T x" for T x b
  proof -
    let ?e = "add_all (adj_lsa_wireEncode T) (st_adjacencyLsas x) (add_all (cor_lsa_wireEncode T) (st_coordinateLsas x)
      (add_all (name_lsa_wireEncode T) (st_nameLsas x) (0, b)))"
    have "?e = (length (status_content T x), status_content T x @ b)"
      using that by (simp add: adj_lsa_codec.add_all_wires cor_lsa_codec.add_all_wires
          name_lsa_codec.add_all_wires status_ok_def status_content_def)
    then show ?thesis by (simp add: status_wireEncode_def Let_def)
  qed
qed (use status_decodes in \<open>simp_all add: TLV_LSDB_STATUS_def\<close>)

end
