(* ===== verification/Demo_Tlv.thy ===== *)
theory Demo_Tlv
  imports Tlv Demo_Library
begin

text \<open>
  One implementation of the library functions of Tlv that satisfies their laws: a length of
  253 or more is written with its decimal digits between two marks, a number bit by bit. It is not the format of
  ndn-cxx.
\<close>

definition demoVarNumber :: "nat \<Rightarrow> bytes" where
  "demoVarNumber n = (if n < 253 then [of_nat n] else 255 # bytes_of (demoDigits n) @ [0])"

definition demoReadVar :: "bytes \<Rightarrow> (nat \<times> bytes) option" where
  "demoReadVar bs = (case bs of
       [] \<Rightarrow> None
     | b # bs \<Rightarrow>
         if b \<noteq> 255 then Some (unat b, bs)
         else case dropWhile (\<lambda>b. b \<noteq> 0) bs of
             [] \<Rightarrow> None
           | _ # rest \<Rightarrow> Some (demoValue (string_of (takeWhile (\<lambda>b. b \<noteq> 0) bs)), rest))"

lemma demoReadVar_shorter: "demoReadVar bs = Some (n, rest) \<Longrightarrow> length rest < length bs"
proof (cases bs)
  case (Cons b bs')
  assume read: "demoReadVar bs = Some (n, rest)"
  have "length (dropWhile (\<lambda>b. b \<noteq> 0) bs') \<le> length bs'" by (rule length_dropWhile_le)
  with read Cons show ?thesis
    by (auto simp: demoReadVar_def split: if_splits list.splits)
qed (simp add: demoReadVar_def)

lemma unat_of_char: "unat (of_char c :: 8 word) = of_char c"
proof -
  have "char_of (unat (of_char c :: 8 word)) = c"
    using string_of_bytes [of "[c]"] by (simp add: string_of_def bytes_of_def)
  then have "of_char c = (of_char (char_of (unat (of_char c :: 8 word)) :: char) :: nat)" by simp
  also have "\<dots> = unat (of_char c :: 8 word)"
    using unsigned_less [where 'b = 8 and 'a = nat, of "of_char c"] by (simp add: of_char_of)
  finally show ?thesis by simp
qed

lemma digit_bytes: "\<forall>b\<in>set (bytes_of (demoDigits n)). b \<noteq> 0"
proof
  fix b assume "b \<in> set (bytes_of (demoDigits n))"
  then obtain c where c: "c \<in> set (demoDigits n)" and b: "b = of_char c" by (auto simp: bytes_of_def)
  have "48 \<le> (of_char c :: nat)" using isDigits_digits [of n] c by (auto simp: isDigits_def list_all_iff)
  with b unat_of_char [of c] show "b \<noteq> 0" by auto
qed

lemma demoReadVar_write: "demoReadVar (demoVarNumber n @ rest) = Some (n, rest)"
proof (cases "n < 253")
  case True
  then have "unat (of_nat n :: 8 word) = n" by (simp add: unat_of_nat)
  moreover from this have "(of_nat n :: 8 word) \<noteq> 255" using True by auto
  ultimately show ?thesis using True by (simp add: demoVarNumber_def demoReadVar_def)
next
  case False
  have "takeWhile (\<lambda>b. b \<noteq> 0) (bytes_of (demoDigits n) @ 0 # rest) = bytes_of (demoDigits n)"
    and "dropWhile (\<lambda>b. b \<noteq> 0) (bytes_of (demoDigits n) @ 0 # rest) = 0 # rest"
    using digit_bytes [of n] by (simp_all add: takeWhile_append2 dropWhile_append2)
  with False show ?thesis
    by (simp add: demoVarNumber_def demoReadVar_def demoValue_digits)
qed

definition demoReadBlock :: "bytes \<Rightarrow> (block \<times> bytes) option" where
  "demoReadBlock bs = Option.bind (demoReadVar bs) (\<lambda>(t, bs). Option.bind (demoReadVar bs) (\<lambda>(n, bs).
     if n \<le> length bs then Some ((t, take n bs), drop n bs) else None))"

lemma demoReadBlock_shorter: "demoReadBlock bs = Some (b, rest) \<Longrightarrow> length rest < length bs"
  by (auto simp: demoReadBlock_def bind_eq_Some_conv dest!: demoReadVar_shorter split: if_splits)

function demoParseBlocks :: "bytes \<Rightarrow> block list option" where
  "demoParseBlocks bs = (if bs = [] then Some [] else case demoReadBlock bs of
       None \<Rightarrow> None
     | Some (b, rest) \<Rightarrow> map_option ((#) b) (demoParseBlocks rest))"
  by pat_completeness auto
termination
  by (relation "measure length") (auto simp: demoReadBlock_shorter)

declare demoParseBlocks.simps [simp del]

definition demo_tlv :: tlv_lib where
  "demo_tlv = \<lparr>
     tl_varNumber = demoVarNumber, tl_parse = demoParseBlocks,
     tl_fromBuffer = (\<lambda>bs. map_option (\<lambda>(b, rest). (b, length bs - length rest)) (demoReadBlock bs)),
     tl_number = (\<lambda>w. map (\<lambda>i. of_bool (bit w i)) [0..<64]),
     tl_readNumber = (\<lambda>bs. Some (horner_sum of_bool 2 (map (\<lambda>b. b = 1) bs))),
     tl_name = (\<lambda>n. bytes_of (demoUri n)), tl_readName = (\<lambda>bs. demoParse (string_of bs)),
     tl_isDouble = (\<lambda>x. x = real (nat \<lfloor>x\<rfloor>) \<and> nat \<lfloor>x\<rfloor> < 256),
     tl_double = (\<lambda>x. of_nat (nat \<lfloor>x\<rfloor>) # replicate 7 0),
     tl_readDouble = (\<lambda>bs. real (unat (hd bs))),
     tl_showMilliseconds = (\<lambda>p. demoDigits (nat p)), tl_showDouble = (\<lambda>x. demoDigits (nat \<lfloor>x\<rfloor>)),
     tl_segment = (\<lambda>w. demoDigits (unat w)), tl_parameters = demoUri\<rparr>"

lemma demo_tlv_simps [simp]:
  "tl_varNumber demo_tlv = demoVarNumber" "tl_parse demo_tlv = demoParseBlocks"
  "tl_fromBuffer demo_tlv bs = map_option (\<lambda>(b, rest). (b, length bs - length rest)) (demoReadBlock bs)"
  "tl_readNumber demo_tlv (tl_number demo_tlv w) = Some w"
  "tl_readName demo_tlv (tl_name demo_tlv n) = Some n"
proof -
  have "(\<lambda>b. b = (1 :: 8 word)) \<circ> (\<lambda>i. of_bool (bit w i)) = bit w" by auto
  then have "tl_readNumber demo_tlv (tl_number demo_tlv w) = Some (horner_sum of_bool 2 (map (bit w) [0..<64]))"
    by (simp add: demo_tlv_def)
  then show "tl_readNumber demo_tlv (tl_number demo_tlv w) = Some w"
    by (simp add: horner_sum_bit_eq_take_bit take_bit_word_eq_self)
qed (simp_all add: demo_tlv_def demoParse_demoUri)

lemma demoReadBlock_write: "demoReadBlock (tlv_block demo_tlv t v @ bs) = Some ((t, v), bs)"
  by (simp add: demoReadBlock_def tlv_block_def demoReadVar_write)

lemma demoBlock_nonempty: "tlv_block demo_tlv t v \<noteq> []"
  by (simp add: tlv_block_def demoVarNumber_def)

lemma demo_double_octets: "tl_isDouble demo_tlv x \<Longrightarrow>
  length (tl_double demo_tlv x) = 8 \<and> tl_readDouble demo_tlv (tl_double demo_tlv x) = x"
proof -
  assume "tl_isDouble demo_tlv x"
  then obtain k where "x = real k" "k < 256" by (auto simp: demo_tlv_def)
  moreover from this have "unat (of_nat k :: 8 word) = k" by (simp add: unat_of_nat)
  then have "real (unat (of_nat k :: 8 word)) = real k" by (simp only:)
  ultimately show ?thesis by (simp add: demo_tlv_def)
qed

lemma demo_tlv_ok: "tlv_ok demo_tlv"
proof -
  have "demoParseBlocks (tlv_block demo_tlv t v @ bs) = map_option ((#) (t, v)) (demoParseBlocks bs)" for t v bs
    by (subst demoParseBlocks.simps) (simp add: demoReadBlock_write demoBlock_nonempty)
  moreover have "demoParseBlocks [] = Some []" by (simp add: demoParseBlocks.simps)
  moreover have "demoVarNumber n = [of_nat n]" if "n < 253" for n
    using that by (simp add: demoVarNumber_def)
  ultimately show ?thesis
    by (simp add: tlv_ok_def demoReadBlock_write demo_double_octets)
qed

end
