(* ===== verification/Dataset.thy ===== *)
theory Dataset
  imports Tlv_Lsas Prefix_Update Daemon
begin

text \<open>
  The datasets of the link-state database (src/src/publisher): the conversion of its LSAs, the
  segments in which a dataset is published, and the handler of the Interests that ask for one.
  Publishing leaves the daemon's state alone; what is put on the face is the result.
\<close>

section \<open>Conversion\<close>

text \<open>\<open>duration_cast<milliseconds>\<close> rounds towards zero.\<close>

definition to_milliseconds :: "int \<Rightarrow> int" where
  "to_milliseconds d = sgn d * (\<bar>d\<bar> div millisecond)"

definition makeLsaInfo :: "time_point \<Rightarrow> 'l lsa_scheme \<Rightarrow> tlv_info" where
  "makeLsaInfo now l = setExpirationPeriod (to_milliseconds (ls_expiration l - now))
     (setSequenceNumber (ucast (ls_seqNo l)) (setOriginRouter (ls_origRouter l) tlv_info_default))"

definition tlv_adjacency_of :: "adjacent \<Rightarrow> tlv_adjacency" where
  "tlv_adjacency_of a = \<lparr>ta_name = ad_name a, ta_uri = ad_faceUri a, ta_cost = getLinkCost a\<rparr>"

definition tlv_adj_lsa_of :: "time_point \<Rightarrow> adj_lsa \<Rightarrow> tlv_adj_lsa" where
  "tlv_adj_lsa_of now l = fold (\<lambda>a. addAdjacency (tlv_adjacency_of a)) (al_adl l)
     (tlv_adj_lsa_default\<lparr>tal_info := makeLsaInfo now l\<rparr>)"

definition tlv_cor_lsa_of :: "time_point \<Rightarrow> cor_lsa \<Rightarrow> tlv_cor_lsa" where
  "tlv_cor_lsa_of now l = tlv_cor_lsa_default\<lparr>tcl_info := makeLsaInfo now l,
     tcl_hyperbolicRadius := cl_corRad l, tcl_hyperbolicAngle := cl_corTheta l\<rparr>"

definition tlv_name_lsa_of :: "time_point \<Rightarrow> name_lsa \<Rightarrow> tlv_name_lsa" where
  "tlv_name_lsa_of now l = fold tlv_addName (nl_npl l)
     (tlv_name_lsa_default\<lparr>tnl_info := makeLsaInfo now l\<rparr>)"

definition adj_getTlvLsas :: "nlsr \<Rightarrow> tlv_adj_lsa list" where
  "adj_getTlvLsas st = map (tlv_adj_lsa_of (io_system_now (n_io st))) (n_adjLsdb st)"

definition cor_getTlvLsas :: "nlsr \<Rightarrow> tlv_cor_lsa list" where
  "cor_getTlvLsas st = map (tlv_cor_lsa_of (io_system_now (n_io st))) (n_corLsdb st)"

definition name_getTlvLsas :: "nlsr \<Rightarrow> tlv_name_lsa list" where
  "name_getTlvLsas st = map (tlv_name_lsa_of (io_system_now (n_io st))) (n_nameLsdb st)"

section \<open>Datasets\<close>

text \<open>The LSAs are prepended one after the other, so the last of the database comes first.\<close>

definition lsa_generate :: "('l \<Rightarrow> bytes \<Rightarrow> encoding) \<Rightarrow> 'l list \<Rightarrow> bytes \<Rightarrow> encoding" where
  "lsa_generate encode lsas b = fold (\<lambda>l. add_part (encode l)) lsas (0, b)"

definition status_of :: "nlsr \<Rightarrow> lsdb_status" where
  "status_of st =
     (let s = fold status_addAdjacencyLsa (adj_getTlvLsas st) lsdb_status_default;
          s = fold status_addCoordinateLsa (cor_getTlvLsas st) s
      in fold status_addNameLsa (name_getTlvLsas st) s)"

definition status_generate :: "tlv_lib \<Rightarrow> nlsr \<Rightarrow> bytes \<Rightarrow> encoding" where
  "status_generate T st b = add_part (status_wireEncode T (status_of st)) (0, b)"

section \<open>Segments\<close>

record segment =
  sg_name :: name
  sg_content :: bytes
  sg_freshness :: int
  sg_finalBlockId :: "component option"

text \<open>The limit of a packet that ndn-cxx documents.\<close>

definition MAX_NDN_PACKET_SIZE :: nat where "MAX_NDN_PACKET_SIZE = 8800"

definition getMaxSegmentSize :: nat where
  "getMaxSegmentSize = MAX_NDN_PACKET_SIZE div 2"

definition getDefaultFreshness :: int where "getDefaultFreshness = 1000"

function publish_loop :: "tlv_lib \<Rightarrow> name \<Rightarrow> 64 word \<Rightarrow> bytes \<Rightarrow> segment list" where
  "publish_loop T segmentPrefix segmentNo rest =
     (let content = take getMaxSegmentSize rest;
          left = drop getMaxSegmentSize rest;
          segmentName = segmentPrefix @ [tl_segment T segmentNo];
          data = \<lparr>sg_name = segmentName, sg_content = content, sg_freshness = getDefaultFreshness,
            sg_finalBlockId = (if left = [] then Some (last segmentName) else None)\<rparr>
      in if left \<noteq> [] then data # publish_loop T segmentPrefix (segmentNo + 1) left else [data])"
  by pat_completeness auto
termination
  by (relation "measure (\<lambda>(_, _, _, rest). length rest)")
     (auto simp: getMaxSegmentSize_def MAX_NDN_PACKET_SIZE_def)

declare publish_loop.simps [simp del]

text \<open>\<open>version\<close> is the component that \<open>appendVersion\<close> makes of the time.\<close>

definition publish :: "tlv_lib \<Rightarrow> component \<Rightarrow> (bytes \<Rightarrow> encoding) \<Rightarrow> name \<Rightarrow> segment list" where
  "publish T version generate prefix = publish_loop T (prefix @ [version]) 0 (snd (generate []))"

section \<open>Interests\<close>

datatype dataset_out = SegmentData segment | ErrorData name "32 word" string

definition LSDB_COMPONENT :: component where "LSDB_COMPONENT = ''lsdb''"
definition ADJACENCIES :: component where "ADJACENCIES = ''adjacencies''"
definition COORDINATES :: component where "COORDINATES = ''coordinates''"
definition NAMES :: component where "NAMES = ''names''"
definition LIST :: component where "LIST = ''list''"

lemmas dataset_components = LSDB_COMPONENT_def ADJACENCIES_def COORDINATES_def NAMES_def LIST_def

definition LOCALHOST_COMMAND_PREFIX :: name where
  "LOCALHOST_COMMAND_PREFIX = LOCALHOST_PREFIX @ [LSDB_COMPONENT]"

text \<open>The handler is built with the router prefix before the configuration is read.\<close>

definition ROUTER_NAME_COMMAND_PREFIX :: name where
  "ROUTER_NAME_COMMAND_PREFIX = cf_routerPrefix conf_default @ [LSDB_COMPONENT]"

definition startListeningOnLocalhost :: "nlsr \<Rightarrow> nlsr" where
  "startListeningOnLocalhost = on_io (emit (InterestFilter LOCALHOST_COMMAND_PREFIX))"

definition startListeningOnRouterPrefix :: "nlsr \<Rightarrow> nlsr" where
  "startListeningOnRouterPrefix = on_io (emit (InterestFilter ROUTER_NAME_COMMAND_PREFIX))"

definition ERROR_CODE_MALFORMED_COMMAND :: "32 word" where "ERROR_CODE_MALFORMED_COMMAND = 400"
definition ERROR_CODE_UNSUPPORTED_COMMAND :: "32 word" where "ERROR_CODE_UNSUPPORTED_COMMAND = 501"

definition sendErrorResponse :: "name \<Rightarrow> 32 word \<Rightarrow> string \<Rightarrow> dataset_out list" where
  "sendErrorResponse n code error = [ErrorData n code error]"

definition isValidCommandPrefix :: "name \<Rightarrow> name \<Rightarrow> bool" where
  "isValidCommandPrefix interest commandPrefix \<longleftrightarrow>
     length interest = length commandPrefix + 1 \<and> take (length commandPrefix) interest = commandPrefix"

definition processCommand :: "tlv_lib \<Rightarrow> component \<Rightarrow> nlsr \<Rightarrow> name \<Rightarrow> component \<Rightarrow> dataset_out list" where
  "processCommand T version st interest command =
     (if command = ADJACENCIES then
        map SegmentData (publish T version (lsa_generate (adj_lsa_wireEncode T) (adj_getTlvLsas st)) interest)
      else if command = COORDINATES then
        map SegmentData (publish T version (lsa_generate (cor_lsa_wireEncode T) (cor_getTlvLsas st)) interest)
      else if command = NAMES then
        map SegmentData (publish T version (lsa_generate (name_lsa_wireEncode T) (name_getTlvLsas st)) interest)
      else if command = LIST then map SegmentData (publish T version (status_generate T st) interest)
      else sendErrorResponse interest ERROR_CODE_UNSUPPORTED_COMMAND ''Unsupported command'')"

definition dataset_onInterest ::
  "ndn_lib \<Rightarrow> tlv_lib \<Rightarrow> component \<Rightarrow> nlsr \<Rightarrow> name \<Rightarrow> name \<Rightarrow> dataset_out list" where
  "dataset_onInterest L T version st commandPrefix interest =
     (if \<not> isValidCommandPrefix interest commandPrefix
      then sendErrorResponse interest ERROR_CODE_MALFORMED_COMMAND ''Malformed command''
      else processCommand T version st interest (compAt L interest (int (length commandPrefix))))"

section \<open>Registered prefixes\<close>

text \<open>\<open>Nlsr::onRegistrationSuccess\<close> and \<open>Nlsr::onLocalhostRegistrationSuccess\<close>.\<close>

definition onRegistrationSuccess :: "name \<Rightarrow> nlsr \<Rightarrow> nlsr" where
  "onRegistrationSuccess n st = (if n = self st then startListeningOnRouterPrefix st else st)"

definition onLocalhostRegistrationSuccess :: "name \<Rightarrow> nlsr \<Rightarrow> nlsr" where
  "onLocalhostRegistrationSuccess n st = startListeningOnLocalhost (startListening st)"

section \<open>What is published\<close>

lemma fold_addAdjacency:
  "fold (\<lambda>a. addAdjacency (f a)) as l =
    l\<lparr>tal_adjacencies := tal_adjacencies l @ map f as, tal_hasAdjacencies := tal_hasAdjacencies l \<or> as \<noteq> []\<rparr>"
  by (induction as arbitrary: l) (simp_all add: addAdjacency_def)

lemma fold_addName_tlv:
  "fold tlv_addName ns l = l\<lparr>tnl_names := tnl_names l @ ns, tnl_hasNames := tnl_hasNames l \<or> ns \<noteq> []\<rparr>"
  by (induction ns arbitrary: l) (simp_all add: tlv_addName_def)

lemma tlv_lsas_of [simp]:
  "tlv_adj_lsa_of now l = \<lparr>tal_info = makeLsaInfo now l, tal_hasAdjacencies = al_adl l \<noteq> [],
     tal_adjacencies = map tlv_adjacency_of (al_adl l)\<rparr>"
  "tlv_cor_lsa_of now c = \<lparr>tcl_info = makeLsaInfo now c, tcl_hyperbolicRadius = cl_corRad c,
     tcl_hyperbolicAngle = cl_corTheta c\<rparr>"
  "tlv_name_lsa_of now n = \<lparr>tnl_info = makeLsaInfo now n, tnl_hasNames = nl_npl n \<noteq> [], tnl_names = nl_npl n\<rparr>"
  by (simp_all add: tlv_adj_lsa_of_def tlv_cor_lsa_of_def tlv_name_lsa_of_def fold_addAdjacency
      fold_addName_tlv tlv_adj_lsa_default_def tlv_cor_lsa_default_def tlv_name_lsa_default_def)

lemma fold_status:
  "fold status_addAdjacencyLsa as s =
    s\<lparr>st_adjacencyLsas := st_adjacencyLsas s @ as, st_hasAdjacencyLsas := st_hasAdjacencyLsas s \<or> as \<noteq> []\<rparr>"
  "fold status_addCoordinateLsa cs s =
    s\<lparr>st_coordinateLsas := st_coordinateLsas s @ cs, st_hasCoordinateLsas := st_hasCoordinateLsas s \<or> cs \<noteq> []\<rparr>"
  "fold status_addNameLsa ns s =
    s\<lparr>st_nameLsas := st_nameLsas s @ ns, st_hasNameLsas := st_hasNameLsas s \<or> ns \<noteq> []\<rparr>"
  by (induction as arbitrary: s, simp_all add: status_addAdjacencyLsa_def,
      induction cs arbitrary: s, simp_all add: status_addCoordinateLsa_def,
      induction ns arbitrary: s, simp_all add: status_addNameLsa_def)

lemma status_of_simps [simp]:
  "st_adjacencyLsas (status_of st) = adj_getTlvLsas st"
  "st_coordinateLsas (status_of st) = cor_getTlvLsas st"
  "st_nameLsas (status_of st) = name_getTlvLsas st"
  "st_hasAdjacencyLsas (status_of st) \<longleftrightarrow> adj_getTlvLsas st \<noteq> []"
  "st_hasCoordinateLsas (status_of st) \<longleftrightarrow> cor_getTlvLsas st \<noteq> []"
  "st_hasNameLsas (status_of st) \<longleftrightarrow> name_getTlvLsas st \<noteq> []"
  by (simp_all add: status_of_def fold_status lsdb_status_default_def)

end
