(* ===== verification/Nlsrc.thy ===== *)
theory Nlsrc
  imports Dataset
begin

text \<open>
  The command line tool \<open>nlsrc\<close> (src/tools/nlsrc.cpp): it asks the daemon on its host for the
  three datasets of the link-state database and displays them by router, or sends it the
  command to advertise or withdraw a name. Interests and printed lines are a trace.
\<close>

datatype fetch_step = FetchAdjacencyLsas | FetchCoordinateLsas | FetchNameLsas | PrintLsdb

datatype nlsrc_out =
    DatasetInterest name
  | CommandInterest name string   \<comment> \<open>with the text shown on success\<close>
  | Print string
  | PrintError string

record router =
  ro_adjacencyLsaString :: string
  ro_coordinateLsaString :: string
  ro_nameLsaString :: string

definition router_empty :: router where
  "router_empty = \<lparr>ro_adjacencyLsaString = [], ro_coordinateLsaString = [], ro_nameLsaString = []\<rparr>"

record nlsrc =
  nc_routers :: "(name \<times> router) list"   \<comment> \<open>in the order of names\<close>
  nc_fetchSteps :: "fetch_step list"
  nc_out :: "nlsrc_out list"

definition nlsrc_empty :: nlsrc where
  "nlsrc_empty = \<lparr>nc_routers = [], nc_fetchSteps = [], nc_out = []\<rparr>"

definition nlsrc_emit :: "nlsrc_out \<Rightarrow> nlsrc \<Rightarrow> nlsrc" where
  "nlsrc_emit x s = s\<lparr>nc_out := nc_out s @ [x]\<rparr>"

definition endl :: string where "endl = [CHR 0x0A]"

definition LSDB_PREFIX :: name where "LSDB_PREFIX = LOCALHOST_PREFIX @ [''lsdb'']"
definition NAME_UPDATE_PREFIX :: name where "NAME_UPDATE_PREFIX = LOCALHOST_PREFIX @ [''prefix-update'']"
definition ERROR_CODE_TIMEOUT :: "32 word" where "ERROR_CODE_TIMEOUT = 10060"
definition RESPONSE_CODE_SUCCESS :: "32 word" where "RESPONSE_CODE_SUCCESS = 200"

section \<open>Recorded LSAs\<close>

text \<open>Inserted when it is missing.\<close>

definition getRouter :: "ndn_lib \<Rightarrow> name \<Rightarrow> nlsrc \<Rightarrow> nlsrc" where
  "getRouter L n s = (case by_key fst n (nc_routers s) of
       Some _ \<Rightarrow> s
     | None \<Rightarrow> s\<lparr>nc_routers := insert_by (\<lambda>a b. nameLess L (fst a) (fst b)) (n, router_empty) (nc_routers s)\<rparr>)"

definition on_router :: "ndn_lib \<Rightarrow> tlv_info \<Rightarrow> (router \<Rightarrow> router) \<Rightarrow> nlsrc \<Rightarrow> nlsrc" where
  "on_router L i f s =
     (let n = ti_originRouter i;
          s = getRouter L n s
      in s\<lparr>nc_routers := update_first (\<lambda>r. fst r = n) (\<lambda>(n, r). (n, f r)) (nc_routers s)\<rparr>)"

definition getLsaInfoString :: "ndn_lib \<Rightarrow> tlv_lib \<Rightarrow> tlv_info \<Rightarrow> string" where
  "getLsaInfoString L T i = ''      info='' @ show_info L T i"

definition adjacencyLsaText :: "ndn_lib \<Rightarrow> tlv_lib \<Rightarrow> tlv_adj_lsa \<Rightarrow> string" where
  "adjacencyLsaText L T l = ''    AdjacencyLsa:'' @ endl @ getLsaInfoString L T (tal_info l) @ endl
     @ concat (map (\<lambda>a. ''      adjacency='' @ show_adjacency L a @ endl) (tal_adjacencies l))"

definition coordinateLsaText :: "ndn_lib \<Rightarrow> tlv_lib \<Rightarrow> tlv_cor_lsa \<Rightarrow> string" where
  "coordinateLsaText L T l = ''    Coordinate LSA:'' @ endl @ getLsaInfoString L T (tcl_info l) @ endl
     @ ''      angle='' @ tl_showDouble T (tcl_hyperbolicAngle l) @ endl
     @ ''      radius='' @ tl_showDouble T (tcl_hyperbolicRadius l) @ endl"

definition nameLsaText :: "ndn_lib \<Rightarrow> tlv_lib \<Rightarrow> tlv_name_lsa \<Rightarrow> string" where
  "nameLsaText L T l = ''    Name LSA:'' @ endl @ getLsaInfoString L T (tnl_info l) @ endl
     @ concat (map (\<lambda>n. ''      name='' @ toUri L n @ endl) (tnl_names l))"

definition recordAdjacencyLsa :: "ndn_lib \<Rightarrow> tlv_lib \<Rightarrow> tlv_adj_lsa \<Rightarrow> nlsrc \<Rightarrow> nlsrc" where
  "recordAdjacencyLsa L T l =
     on_router L (tal_info l) (\<lambda>r. r\<lparr>ro_adjacencyLsaString := adjacencyLsaText L T l\<rparr>)"

definition recordCoordinateLsa :: "ndn_lib \<Rightarrow> tlv_lib \<Rightarrow> tlv_cor_lsa \<Rightarrow> nlsrc \<Rightarrow> nlsrc" where
  "recordCoordinateLsa L T l =
     on_router L (tcl_info l) (\<lambda>r. r\<lparr>ro_coordinateLsaString := coordinateLsaText L T l\<rparr>)"

definition recordNameLsa :: "ndn_lib \<Rightarrow> tlv_lib \<Rightarrow> tlv_name_lsa \<Rightarrow> nlsrc \<Rightarrow> nlsrc" where
  "recordNameLsa L T l =
     on_router L (tnl_info l) (\<lambda>r. r\<lparr>ro_nameLsaString := nameLsaText L T l\<rparr>)"

definition lsa_line :: "string \<Rightarrow> string" where
  "lsa_line t = (if t \<noteq> [] then t @ endl else [])"

definition lsdb_text :: "ndn_lib \<Rightarrow> (name \<times> router) list \<Rightarrow> string" where
  "lsdb_text L rs = ''NLSR Status'' @ endl @ ''LSDB:'' @ endl
     @ concat (map (\<lambda>(n, r). ''  OriginRouter: '' @ toUri L n @ endl @ endl
         @ lsa_line (ro_adjacencyLsaString r) @ lsa_line (ro_coordinateLsaString r)
         @ lsa_line (ro_nameLsaString r)) rs)"

definition printLsdb :: "ndn_lib \<Rightarrow> nlsrc \<Rightarrow> nlsrc" where
  "printLsdb L s = nlsrc_emit (Print (lsdb_text L (nc_routers s))) s"

section \<open>Steps\<close>

definition fetchFromLsdb :: "component \<Rightarrow> nlsrc \<Rightarrow> nlsrc" where
  "fetchFromLsdb datasetType = nlsrc_emit (DatasetInterest (LSDB_PREFIX @ [datasetType]))"

definition run_step :: "ndn_lib \<Rightarrow> fetch_step \<Rightarrow> nlsrc \<Rightarrow> nlsrc" where
  "run_step L step = (case step of
       FetchAdjacencyLsas \<Rightarrow> fetchFromLsdb ADJACENCIES
     | FetchCoordinateLsas \<Rightarrow> fetchFromLsdb COORDINATES
     | FetchNameLsas \<Rightarrow> fetchFromLsdb NAMES
     | PrintLsdb \<Rightarrow> printLsdb L)"

definition runNextStep :: "ndn_lib \<Rightarrow> nlsrc \<Rightarrow> nlsrc" where
  "runNextStep L s = (case nc_fetchSteps s of
       [] \<Rightarrow> s
     | step # steps \<Rightarrow> run_step L step (s\<lparr>nc_fetchSteps := steps\<rparr>))"

definition getStatus :: "ndn_lib \<Rightarrow> nlsrc \<Rightarrow> nlsrc" where
  "getStatus L s = runNextStep L (s\<lparr>nc_fetchSteps :=
     nc_fetchSteps s @ [FetchAdjacencyLsas, FetchCoordinateLsas, FetchNameLsas, PrintLsdb]\<rparr>)"

text \<open>
  The blocks of a dataset, one after the other, from where the last one ended. \<open>Inl\<close>: the
  constructor of the LSA throws.
\<close>

partial_function (option) fetch_loop ::
  "tlv_lib \<Rightarrow> (block \<Rightarrow> tlv_error + 'l) \<Rightarrow> ('l \<Rightarrow> nlsrc \<Rightarrow> nlsrc) \<Rightarrow> bytes \<Rightarrow> nlsrc \<Rightarrow> (tlv_error + nlsrc) option"
where
  "fetch_loop T decode recordLsa data s =
     (if data = [] then Some (Inr s)
      else case tl_fromBuffer T data of
          None \<Rightarrow> Some (Inr (nlsrc_emit (PrintError ''ERROR: cannot decode LSA TLV'') s))
        | Some (block, octets) \<Rightarrow> (case decode block of
              Inl e \<Rightarrow> Some (Inl e)
            | Inr lsa \<Rightarrow> fetch_loop T decode recordLsa (drop octets data) (recordLsa lsa s)))"

declare fetch_loop.simps [code]

definition onFetchSuccess ::
  "ndn_lib \<Rightarrow> tlv_lib \<Rightarrow> (block \<Rightarrow> tlv_error + 'l) \<Rightarrow> ('l \<Rightarrow> nlsrc \<Rightarrow> nlsrc) \<Rightarrow> bytes \<Rightarrow> nlsrc \<Rightarrow>
    (tlv_error + nlsrc) option" where
  "onFetchSuccess L T decode recordLsa data s =
     map_option (\<lambda>r. and_then r (\<lambda>s. Inr (runNextStep L s))) (fetch_loop T decode recordLsa data s)"

definition nlsrc_onTimeout :: "ndn_lib \<Rightarrow> 32 word \<Rightarrow> string \<Rightarrow> nlsrc \<Rightarrow> nlsrc" where
  "nlsrc_onTimeout L errorCode error = nlsrc_emit (PrintError (''Request timed out (code: ''
     @ showNat L (unat errorCode) @ '', error: '' @ error @ '')''))"

section \<open>Commands\<close>

definition sendNamePrefixUpdate :: "tlv_lib \<Rightarrow> name \<Rightarrow> component \<Rightarrow> string \<Rightarrow> nlsrc \<Rightarrow> nlsrc" where
  "sendNamePrefixUpdate T n verb info =
     nlsrc_emit (CommandInterest (NAME_UPDATE_PREFIX @ [verb] @ [tl_parameters T n]) info)"

text \<open>\<open>None\<close>: the argument is not a name.\<close>

definition advertiseName :: "ndn_lib \<Rightarrow> tlv_lib \<Rightarrow> string list \<Rightarrow> nlsrc \<Rightarrow> nlsrc option" where
  "advertiseName L T commandLineArguments s = map_option (\<lambda>n.
     sendNamePrefixUpdate T n ''advertise'' (''(Advertise: '' @ toUri L n @ '')'') s) (ofUri L (hd commandLineArguments))"

definition withdrawName :: "ndn_lib \<Rightarrow> tlv_lib \<Rightarrow> string list \<Rightarrow> nlsrc \<Rightarrow> nlsrc option" where
  "withdrawName L T commandLineArguments s = map_option (\<lambda>n.
     sendNamePrefixUpdate T n ''withdraw'' (''(Withdraw: '' @ toUri L n @ '')'') s) (ofUri L (hd commandLineArguments))"

text \<open>Whether the command is accepted; the options are the arguments after it.\<close>

definition dispatch :: "ndn_lib \<Rightarrow> tlv_lib \<Rightarrow> string \<Rightarrow> string list \<Rightarrow> nlsrc \<Rightarrow> (bool \<times> nlsrc) option" where
  "dispatch L T command options s =
     (if command = ''advertise'' then
        if length options \<noteq> 1 then Some (False, s) else map_option (Pair True) (advertiseName L T options s)
      else if command = ''withdraw'' then
        if length options \<noteq> 1 then Some (False, s) else map_option (Pair True) (withdrawName L T options s)
      else if command = ''status'' then
        if length options \<noteq> 0 then Some (False, s) else Some (True, getStatus L s)
      else Some (False, s))"

text \<open>The response: a refusal, or a code that may not be readable.\<close>

definition onControlResponse :: "ndn_lib \<Rightarrow> string \<Rightarrow> bool \<Rightarrow> 32 word option \<Rightarrow> nlsrc \<Rightarrow> nlsrc" where
  "onControlResponse L info isNack response s =
     (if isNack then nlsrc_emit (PrintError ''ERROR: Run-time advertise/withdraw disabled'') s
      else case response of
          None \<Rightarrow> nlsrc_emit (PrintError ''ERROR: Control response decoding error'') s
        | Some code \<Rightarrow>
            if code \<noteq> RESPONSE_CODE_SUCCESS
            then nlsrc_emit (PrintError (''Name prefix update error (code: '' @ showNat L (unat code) @ '')'')) s
            else nlsrc_emit (Print (''Applied Name prefix update successfully: '' @ info)) s)"

end
