(* ===== verification/Dataset_Properties.thy ===== *)
theory Dataset_Properties
  imports Tlv_Codec Nlsrc Demo_Tlv Demo_Run
begin

text \<open>
  Properties of the datasets: the segments of a dataset hold its octets, what is published
  decodes to the database, and the status that \<open>nlsrc\<close> shows is the database of the daemon.
\<close>

section \<open>Segments\<close>

text \<open>What fetching the segments in order delivers: the contents up to the final one.\<close>

fun reassemble :: "segment list \<Rightarrow> bytes option" where
  "reassemble [] = None"
| "reassemble (s # ss) = (if sg_finalBlockId s = Some (last (sg_name s)) then Some (sg_content s)
     else map_option ((@) (sg_content s)) (reassemble ss))"

lemma publish_loop_reassemble: "reassemble (publish_loop T p k rest) = Some rest"
proof (induction T p k rest rule: publish_loop.induct)
  case (1 T p k rest)
  then show ?case
    by (subst publish_loop.simps) (auto simp: Let_def)
qed

lemma publish_loop_names:
  "map sg_name (publish_loop T p k rest) =
    map (\<lambda>i. p @ [tl_segment T (k + of_nat i)]) [0..<length (publish_loop T p k rest)]"
proof (induction T p k rest rule: publish_loop.induct)
  case (1 T p k rest)
  show ?case
  proof (cases "drop getMaxSegmentSize rest = []")
    case True
    then show ?thesis by (subst (1 2) publish_loop.simps) simp
  next
    case False
    then obtain d where d: "publish_loop T p k rest = d # publish_loop T p (k + 1) (drop getMaxSegmentSize rest)"
        "sg_name d = p @ [tl_segment T k]"
      by (subst (asm) publish_loop.simps) (auto simp: Let_def)
    from 1 [OF refl refl refl refl False] show ?thesis
      by (simp add: d map_upt_Suc add.assoc del: upt_Suc)
  qed
qed

lemma publish_loop_size: "list_all (\<lambda>d. length (sg_content d) \<le> getMaxSegmentSize) (publish_loop T p k rest)"
proof (induction T p k rest rule: publish_loop.induct)
  case (1 T p k rest)
  then show ?case
    by (subst publish_loop.simps) (auto simp: Let_def)
qed

text \<open>C28: The segments of a dataset are numbered from zero under its version, none is longer
  than half a packet, and the contents up to the segment that is marked as the last one are
  the octets of the dataset.\<close>

theorem publish_segments:
  "reassemble (publish T v generate p) = Some (snd (generate [])) \<and>
   list_all (\<lambda>d. length (sg_content d) \<le> 4400) (publish T v generate p) \<and>
   map sg_name (publish T v generate p) =
     map (\<lambda>i. p @ [v, tl_segment T (of_nat i)]) [0..<length (publish T v generate p)]"
  using publish_loop_size [of T "p @ [v]" 0 "snd (generate [])"]
    publish_loop_names [of T "p @ [v]" 0 "snd (generate [])"]
  by (simp add: publish_def publish_loop_reassemble getMaxSegmentSize_def MAX_NDN_PACKET_SIZE_def)


section \<open>The octets of a dataset\<close>

context tlv_codec
begin

lemma generate_wires:
  assumes "tlv_ok T" and "list_all (ok T) xs"
  shows "snd (lsa_generate (encode T) xs []) = wires T (rev xs)"
  using add_all_wires [OF assms(1), of "rev xs" "(0, [])"] assms(2)
  by (simp add: lsa_generate_def add_all_def list_all_iff)

lemma length_wires_rev: "length (wires T (rev xs)) = length (wires T xs)"
  by (induction xs) (simp_all add: wires_def)

text \<open>The loop of the tool reads every LSA.\<close>

lemma fetch_loop_wires:
  assumes "tlv_ok T" and "list_all (ok T) xs" and "length (wires T xs) < 2 ^ 64"
  shows "fetch_loop T (decode T) recordLsa (wires T xs) s = Some (Inr (fold recordLsa xs s))"
  using assms(2,3)
proof (induction xs arbitrary: s)
  case Nil
  show ?case by (simp add: fetch_loop.simps)
next
  case (Cons x xs)
  have "length (content T x) < 2 ^ 64" using wires_member [OF Cons.prems(2)] by simp
  moreover from this have "tlv_block T kind (content T x) \<noteq> []"
    using parse_last [OF assms(1) kind_small] tlv_laws(2) [OF assms(1)] by fastforce
  ultimately show ?case
    using Cons tlv_laws(4) [OF assms(1) kind_small] decode_wire [OF assms(1)]
    by (subst fetch_loop.simps) simp
qed

end


section \<open>Recorded routers\<close>

definition router_of :: "name \<Rightarrow> nlsrc \<Rightarrow> router option" where
  "router_of n s = map_option snd (by_key fst n (nc_routers s))"

definition routers_sorted :: "ndn_lib \<Rightarrow> nlsrc \<Rightarrow> bool" where
  "routers_sorted L s \<longleftrightarrow> sorted_wrt (nameLess L) (map fst (nc_routers s))"

lemma by_key_insert_by:
  "by_key f (f x) xs = None \<Longrightarrow> by_key f k (insert_by lt x xs) = (if k = f x then Some x else by_key f k xs)"
  by (induction xs) (auto split: if_splits)

lemma router_of_on_router:
  "router_of n (on_router L i f s) = (if n = ti_originRouter i
     then Some (f (case router_of n s of Some r \<Rightarrow> r | None \<Rightarrow> router_empty)) else router_of n s)"
proof (cases "by_key fst (ti_originRouter i) (nc_routers s)")
  case None
  then show ?thesis
    using by_key_insert_by [of fst "(ti_originRouter i, router_empty)" "nc_routers s"]
    by (simp add: on_router_def getRouter_def router_of_def by_key_update_first Let_def split_beta)
next
  case (Some r)
  then show ?thesis
    by (simp add: on_router_def getRouter_def router_of_def by_key_update_first Let_def split_beta)
qed

lemma map_insert_by: "map fst (insert_by (\<lambda>a b. lt (fst a) (fst b)) x rs) = insert_by lt (fst x) (map fst rs)"
  by (induction rs) simp_all

lemma insert_name_sorted:
  assumes order: "name_order_ok L" and "n \<notin> set ns" and "sorted_wrt (nameLess L) ns"
  shows "sorted_wrt (nameLess L) (insert_by (nameLess L) n ns)"
  using assms(2,3)
proof (induction ns)
  case (Cons m ns)
  have set_eq: "set (insert_by (nameLess L) n ns) = insert n (set ns)"
    by (metis mset_insert_by set_mset_add_mset_insert set_mset_mset)
  show ?case
  proof (cases "nameLess L m n")
    case True
    with Cons set_eq show ?thesis by auto
  next
    case False
    with Cons.prems have "nameLess L n m" using name_order_total [OF order, of n m] by auto
    with False Cons.prems show ?thesis
      using strict_weak_order.trans [OF name_order_swo [OF order], of n m] by auto
  qed
qed simp

lemma on_router_sorted:
  assumes "name_order_ok L" and "routers_sorted L s"
  shows "routers_sorted L (on_router L i f s)"
proof -
  have "map fst (update_first P (\<lambda>(n, r). (n, f r)) rs) = map fst rs" for P and rs :: "(name \<times> router) list"
    by (induction rs) auto
  with assms show ?thesis
    by (auto simp: routers_sorted_def on_router_def getRouter_def Let_def map_insert_by by_key_None
        intro!: insert_name_sorted split: option.split)
qed

lemma on_router_frame [simp]:
  "nc_fetchSteps (on_router L i f s) = nc_fetchSteps s" "nc_out (on_router L i f s) = nc_out s"
  by (simp_all add: on_router_def getRouter_def Let_def split: option.split)

text \<open>Recording LSAs of different routers.\<close>

lemma fold_on_router:
  assumes "distinct (map (\<lambda>l. ti_originRouter (info l)) ls)"
  shows "router_of n (fold (\<lambda>l. on_router L (info l) (f l)) ls s) =
    (case by_key (\<lambda>l. ti_originRouter (info l)) n ls of
       None \<Rightarrow> router_of n s
     | Some l \<Rightarrow> Some (f l (case router_of n s of Some r \<Rightarrow> r | None \<Rightarrow> router_empty)))"
  using assms
proof (induction ls arbitrary: s)
  case (Cons l ls)
  show ?case
  proof (cases "n = ti_originRouter (info l)")
    case True
    with Cons.prems have "by_key (\<lambda>l. ti_originRouter (info l)) n ls = None"
      by (auto simp: by_key_None)
    with True Cons show ?thesis by (simp add: router_of_on_router)
  next
    case False
    with Cons show ?thesis by (simp add: router_of_on_router split: option.split)
  qed
qed simp

lemma fold_on_router_frame:
  "nc_fetchSteps (fold (\<lambda>l. on_router L (info l) (f l)) ls s) = nc_fetchSteps s"
  "nc_out (fold (\<lambda>l. on_router L (info l) (f l)) ls s) = nc_out s"
  by (induction ls arbitrary: s) simp_all

lemma fold_on_router_sorted:
  "name_order_ok L \<Longrightarrow> routers_sorted L s \<Longrightarrow> routers_sorted L (fold (\<lambda>l. on_router L (info l) (f l)) ls s)"
  by (induction ls arbitrary: s) (simp_all add: on_router_sorted)

section \<open>The published LSAs\<close>

definition int64_time :: "time_point \<Rightarrow> bool" where
  "int64_time t \<longleftrightarrow> 0 \<le> t \<and> t < 2 ^ 63"

text \<open>
  The times fit their type, coordinates are numbers of type \<open>double\<close>, and no dataset is longer
  than an address can tell.
\<close>

definition publishable :: "tlv_lib \<Rightarrow> nlsr \<Rightarrow> bool" where
  "publishable T st \<longleftrightarrow> int64_time (io_system_now (n_io st)) \<and>
     list_all (\<lambda>l. int64_time (ls_expiration l)) (n_adjLsdb st) \<and>
     list_all (\<lambda>l. int64_time (ls_expiration l) \<and> tl_isDouble T (cl_corRad l) \<and> tl_isDouble T (cl_corTheta l)) (n_corLsdb st) \<and>
     list_all (\<lambda>l. int64_time (ls_expiration l)) (n_nameLsdb st) \<and>
     length (snd (status_generate T st [])) < 2 ^ 64"

lemma makeLsaInfo_simps [simp]:
  "ti_originRouter (makeLsaInfo now l) = ls_origRouter l"
  "ti_expirationPeriod (makeLsaInfo now l) = to_milliseconds (ls_expiration l - now)"
  "ti_hasInfiniteExpirationPeriod (makeLsaInfo now l) \<longleftrightarrow> to_milliseconds (ls_expiration l - now) = INFINITE_EXPIRATION_PERIOD"
  by (simp_all add: makeLsaInfo_def setExpirationPeriod_def setSequenceNumber_def setOriginRouter_def)

lemma makeLsaInfo_ok:
  assumes "int64_time now" and "int64_time (ls_expiration l)"
  shows "info_ok T (makeLsaInfo now l)"
proof -
  let ?d = "ls_expiration l - now"
  have "\<bar>?d\<bar> < 2 ^ 63" using assms by (auto simp: int64_time_def)
  then have "0 \<le> \<bar>?d\<bar> div millisecond" "\<bar>?d\<bar> div millisecond < 2 ^ 63" by simp_all
  then have "- (2 ^ 63) \<le> to_milliseconds ?d \<and> to_milliseconds ?d < 2 ^ 63"
    unfolding to_milliseconds_def by (cases "?d" "0 :: int" rule: linorder_cases) simp_all
  then show ?thesis by (simp add: info_ok_def)
qed

lemma published_lsas_ok:
  assumes "publishable T st"
  shows "list_all (adj_lsa_ok T) (adj_getTlvLsas st)" and "list_all (cor_lsa_ok T) (cor_getTlvLsas st)"
    and "list_all (name_lsa_ok T) (name_getTlvLsas st)" and "status_ok T (status_of st)"
  using assms
  by (auto simp: publishable_def adj_getTlvLsas_def cor_getTlvLsas_def name_getTlvLsas_def list_all_iff
      adj_lsa_ok_def cor_lsa_ok_def name_lsa_ok_def status_ok_def makeLsaInfo_ok)


lemma status_octets:
  assumes "tlv_ok T" and "publishable T st"
  shows "snd (status_generate T st []) = tlv_block T TLV_LSDB_STATUS (status_content T (status_of st))"
  using status_codec.encode_wire [OF assms(1) published_lsas_ok(4) [OF assms(2)], of "[]"]
  by (simp add: status_generate_def add_part_def)

text \<open>The datasets of the three kinds are not longer than that of the whole database.\<close>

lemma dataset_lengths:
  assumes "tlv_ok T" and "publishable T st"
  shows "length (status_content T (status_of st)) < 2 ^ 64"
    and "length (adj_lsa_codec.wires T (rev (adj_getTlvLsas st))) < 2 ^ 64"
    and "length (cor_lsa_codec.wires T (rev (cor_getTlvLsas st))) < 2 ^ 64"
    and "length (name_lsa_codec.wires T (rev (name_getTlvLsas st))) < 2 ^ 64"
proof -
  have "length (tlv_block T TLV_LSDB_STATUS (status_content T (status_of st))) < 2 ^ 64"
    using assms status_octets [OF assms] by (simp add: publishable_def)
  then show len: "length (status_content T (status_of st)) < 2 ^ 64" by (rule block_bound)
  then show "length (adj_lsa_codec.wires T (rev (adj_getTlvLsas st))) < 2 ^ 64"
    and "length (cor_lsa_codec.wires T (rev (cor_getTlvLsas st))) < 2 ^ 64"
    and "length (name_lsa_codec.wires T (rev (name_getTlvLsas st))) < 2 ^ 64"
    by (simp_all add: adj_lsa_codec.length_wires_rev cor_lsa_codec.length_wires_rev
        name_lsa_codec.length_wires_rev status_content_def)
qed

text \<open>What a client that fetches a dataset from the daemon on its host receives.\<close>

definition segments :: "dataset_out list \<Rightarrow> segment list" where
  "segments ds = concat (map (\<lambda>d. case d of SegmentData s \<Rightarrow> [s] | ErrorData _ _ _ \<Rightarrow> []) ds)"

definition dataset_answer :: "ndn_lib \<Rightarrow> tlv_lib \<Rightarrow> component \<Rightarrow> nlsr \<Rightarrow> name \<Rightarrow> bytes option" where
  "dataset_answer L T v st n = reassemble (segments (dataset_onInterest L T v st LOCALHOST_COMMAND_PREFIX n))"

lemma segments_data [simp]: "segments (map SegmentData ss) = ss"
  by (induction ss) (simp_all add: segments_def)

lemma dataset_answers:
  assumes L: "name_slices_ok L" and T: "tlv_ok T" and st: "publishable T st"
  shows "dataset_answer L T v st (LSDB_PREFIX @ [ADJACENCIES]) = Some (adj_lsa_codec.wires T (rev (adj_getTlvLsas st)))"
    and "dataset_answer L T v st (LSDB_PREFIX @ [COORDINATES]) = Some (cor_lsa_codec.wires T (rev (cor_getTlvLsas st)))"
    and "dataset_answer L T v st (LSDB_PREFIX @ [NAMES]) = Some (name_lsa_codec.wires T (rev (name_getTlvLsas st)))"
    and "dataset_answer L T v st (LSDB_PREFIX @ [LIST]) = Some (tlv_block T TLV_LSDB_STATUS (status_content T (status_of st)))"
proof -
  have prefix_eq: "LSDB_PREFIX = LOCALHOST_COMMAND_PREFIX"
    by (simp add: LSDB_PREFIX_def LOCALHOST_COMMAND_PREFIX_def LSDB_COMPONENT_def)
  have "compAt L (p @ [c]) (int (length p)) = c" for p c
    using L nth_append_length [of p c "[]"] by (simp add: name_slices_ok_def)
  then have answer: "dataset_answer L T v st (LSDB_PREFIX @ [c]) =
      reassemble (segments (processCommand T v st (LSDB_PREFIX @ [c]) c))" for c
    by (simp add: dataset_answer_def dataset_onInterest_def isValidCommandPrefix_def prefix_eq)
  note published_lsas_ok [OF st]
  then show "dataset_answer L T v st (LSDB_PREFIX @ [ADJACENCIES]) = Some (adj_lsa_codec.wires T (rev (adj_getTlvLsas st)))"
    and "dataset_answer L T v st (LSDB_PREFIX @ [COORDINATES]) = Some (cor_lsa_codec.wires T (rev (cor_getTlvLsas st)))"
    and "dataset_answer L T v st (LSDB_PREFIX @ [NAMES]) = Some (name_lsa_codec.wires T (rev (name_getTlvLsas st)))"
    and "dataset_answer L T v st (LSDB_PREFIX @ [LIST]) = Some (tlv_block T TLV_LSDB_STATUS (status_content T (status_of st)))"
    by (simp_all add: answer processCommand_def dataset_components publish_def publish_loop_reassemble
        adj_lsa_codec.generate_wires [OF T] cor_lsa_codec.generate_wires [OF T] name_lsa_codec.generate_wires [OF T]
        status_octets [OF T st])
qed



section \<open>The status shown by the tool\<close>

text \<open>The last Interest of the tool is answered by the daemon, the answer given to its handler.\<close>

definition answered ::
  "ndn_lib \<Rightarrow> tlv_lib \<Rightarrow> component \<Rightarrow> nlsr \<Rightarrow> (block \<Rightarrow> tlv_error + 'l) \<Rightarrow> ('l \<Rightarrow> nlsrc \<Rightarrow> nlsrc) \<Rightarrow> nlsrc \<Rightarrow> nlsrc option" where
  "answered L T v st decode recordLsa s = (case last (nc_out s) of
       DatasetInterest n \<Rightarrow> Option.bind (dataset_answer L T v st n) (\<lambda>data.
         case onFetchSuccess L T decode recordLsa data s of
           Some (Inr s) \<Rightarrow> Some s
         | _ \<Rightarrow> None)
     | _ \<Rightarrow> None)"

definition status_run :: "ndn_lib \<Rightarrow> tlv_lib \<Rightarrow> component \<Rightarrow> nlsr \<Rightarrow> nlsrc option" where
  "status_run L T v st = (case dispatch L T ''status'' [] nlsrc_empty of
       Some (True, s) \<Rightarrow>
         Option.bind (answered L T v st (adj_lsa_wireDecode T) (recordAdjacencyLsa L T) s) (\<lambda>s.
         Option.bind (answered L T v st (cor_lsa_wireDecode T) (recordCoordinateLsa L T) s) (\<lambda>s.
         answered L T v st (name_lsa_wireDecode T) (recordNameLsa L T) s))
     | _ \<Rightarrow> None)"

text \<open>What is to be shown of a router: the text of each LSA the database has of it.\<close>

definition shown_router :: "ndn_lib \<Rightarrow> tlv_lib \<Rightarrow> nlsr \<Rightarrow> name \<Rightarrow> router option" where
  "shown_router L T st n =
     (let now = io_system_now (n_io st);
          a = map_option (\<lambda>l. adjacencyLsaText L T (tlv_adj_lsa_of now l)) (by_key ls_origRouter n (n_adjLsdb st));
          c = map_option (\<lambda>l. coordinateLsaText L T (tlv_cor_lsa_of now l)) (by_key ls_origRouter n (n_corLsdb st));
          m = map_option (\<lambda>l. nameLsaText L T (tlv_name_lsa_of now l)) (by_key ls_origRouter n (n_nameLsdb st));
          or_empty = (\<lambda>t. case t of Some t \<Rightarrow> t | None \<Rightarrow> [])
      in if a = None \<and> c = None \<and> m = None then None
         else Some \<lparr>ro_adjacencyLsaString = or_empty a, ro_coordinateLsaString = or_empty c,
           ro_nameLsaString = or_empty m\<rparr>)"

lemma answered_loop:
  assumes "last (nc_out s) = DatasetInterest n" and "dataset_answer L T v st n = Some data"
    and "fetch_loop T decode recordLsa data s = Some (Inr s')"
  shows "answered L T v st decode recordLsa s = Some (runNextStep L s')"
  using assms by (simp add: answered_def onFetchSuccess_def)

lemma record_folds:
  "fold (recordAdjacencyLsa L T) as = fold (\<lambda>l. on_router L (tal_info l) (\<lambda>r. r\<lparr>ro_adjacencyLsaString := adjacencyLsaText L T l\<rparr>)) as"
  "fold (recordCoordinateLsa L T) cs = fold (\<lambda>l. on_router L (tcl_info l) (\<lambda>r. r\<lparr>ro_coordinateLsaString := coordinateLsaText L T l\<rparr>)) cs"
  "fold (recordNameLsa L T) ns = fold (\<lambda>l. on_router L (tnl_info l) (\<lambda>r. r\<lparr>ro_nameLsaString := nameLsaText L T l\<rparr>)) ns"
  by (simp_all add: recordAdjacencyLsa_def [abs_def] recordCoordinateLsa_def [abs_def] recordNameLsa_def [abs_def])

lemma record_frames:
  "nc_fetchSteps (fold (recordAdjacencyLsa L T) as s) = nc_fetchSteps s" "nc_out (fold (recordAdjacencyLsa L T) as s) = nc_out s"
  "nc_fetchSteps (fold (recordCoordinateLsa L T) cs s) = nc_fetchSteps s" "nc_out (fold (recordCoordinateLsa L T) cs s) = nc_out s"
  "nc_fetchSteps (fold (recordNameLsa L T) ns s) = nc_fetchSteps s" "nc_out (fold (recordNameLsa L T) ns s) = nc_out s"
  by (simp_all only: record_folds fold_on_router_frame)

text \<open>The state of the tool when it has recorded the three datasets.\<close>

definition recorded :: "ndn_lib \<Rightarrow> tlv_lib \<Rightarrow> nlsr \<Rightarrow> nlsrc \<Rightarrow> nlsrc" where
  "recorded L T st s = fold (recordNameLsa L T) (rev (name_getTlvLsas st))
     (fold (recordCoordinateLsa L T) (rev (cor_getTlvLsas st))
       (fold (recordAdjacencyLsa L T) (rev (adj_getTlvLsas st)) s))"

lemma on_router_updates:
  "on_router L i f (s\<lparr>nc_fetchSteps := x\<rparr>) = (on_router L i f s)\<lparr>nc_fetchSteps := x\<rparr>"
  "on_router L i f (s\<lparr>nc_out := y\<rparr>) = (on_router L i f s)\<lparr>nc_out := y\<rparr>"
  by (simp_all add: on_router_def getRouter_def Let_def split: option.split)

lemma fold_on_router_updates:
  "fold (\<lambda>l. on_router L (info l) (f l)) ls (s\<lparr>nc_fetchSteps := x\<rparr>) = (fold (\<lambda>l. on_router L (info l) (f l)) ls s)\<lparr>nc_fetchSteps := x\<rparr>"
  "fold (\<lambda>l. on_router L (info l) (f l)) ls (s\<lparr>nc_out := y\<rparr>) = (fold (\<lambda>l. on_router L (info l) (f l)) ls s)\<lparr>nc_out := y\<rparr>"
  by (induction ls arbitrary: s) (simp_all add: on_router_updates)

lemma record_updates:
  "fold (recordAdjacencyLsa L T) as (s\<lparr>nc_fetchSteps := x\<rparr>) = (fold (recordAdjacencyLsa L T) as s)\<lparr>nc_fetchSteps := x\<rparr>"
  "fold (recordAdjacencyLsa L T) as (s\<lparr>nc_out := y\<rparr>) = (fold (recordAdjacencyLsa L T) as s)\<lparr>nc_out := y\<rparr>"
  "fold (recordCoordinateLsa L T) cs (s\<lparr>nc_fetchSteps := x\<rparr>) = (fold (recordCoordinateLsa L T) cs s)\<lparr>nc_fetchSteps := x\<rparr>"
  "fold (recordCoordinateLsa L T) cs (s\<lparr>nc_out := y\<rparr>) = (fold (recordCoordinateLsa L T) cs s)\<lparr>nc_out := y\<rparr>"
  "fold (recordNameLsa L T) ns (s\<lparr>nc_fetchSteps := x\<rparr>) = (fold (recordNameLsa L T) ns s)\<lparr>nc_fetchSteps := x\<rparr>"
  "fold (recordNameLsa L T) ns (s\<lparr>nc_out := y\<rparr>) = (fold (recordNameLsa L T) ns s)\<lparr>nc_out := y\<rparr>"
  by (simp_all only: record_folds fold_on_router_updates)

lemmas tool_steps = runNextStep_def run_step_def fetchFromLsdb_def printLsdb_def nlsrc_emit_def

definition status_trace :: "nlsrc_out list" where
  "status_trace = [DatasetInterest (LSDB_PREFIX @ [ADJACENCIES]), DatasetInterest (LSDB_PREFIX @ [COORDINATES]),
     DatasetInterest (LSDB_PREFIX @ [NAMES])]"

lemma dispatch_status:
  "dispatch L T ''status'' [] nlsrc_empty = Some (True, nlsrc_empty
    \<lparr>nc_fetchSteps := [FetchCoordinateLsas, FetchNameLsas, PrintLsdb], nc_out := [DatasetInterest (LSDB_PREFIX @ [ADJACENCIES])]\<rparr>)"
  by (simp add: dispatch_def getStatus_def tool_steps nlsrc_empty_def)

lemma status_run_recorded:
  assumes L: "name_slices_ok L" and T: "tlv_ok T" and st: "publishable T st"
  shows "status_run L T v st = Some ((recorded L T st nlsrc_empty)\<lparr>nc_out := status_trace
    @ [Print (lsdb_text L (nc_routers (recorded L T st nlsrc_empty)))]\<rparr>)"
proof -
  note answers = dataset_answers [OF L T st, of v] and lens = dataset_lengths [OF T st]
  have oks: "list_all (adj_lsa_ok T) (rev (adj_getTlvLsas st))" "list_all (cor_lsa_ok T) (rev (cor_getTlvLsas st))"
    "list_all (name_lsa_ok T) (rev (name_getTlvLsas st))"
    using published_lsas_ok [OF st] by (simp_all add: list_all_iff)
  note loops = answered_loop [OF _ answers(1) adj_lsa_codec.fetch_loop_wires [OF T oks(1) lens(2)]]
    answered_loop [OF _ answers(2) cor_lsa_codec.fetch_loop_wires [OF T oks(2) lens(3)]]
    answered_loop [OF _ answers(3) name_lsa_codec.fetch_loop_wires [OF T oks(3) lens(4)]]
  have "(recorded L T st nlsrc_empty)\<lparr>nc_fetchSteps := []\<rparr> = recorded L T st nlsrc_empty"
    by (rule nlsrc.equality) (simp_all add: recorded_def record_frames, simp add: nlsrc_empty_def)
  then show ?thesis
    by (simp add: status_run_def dispatch_status loops record_updates tool_steps status_trace_def record_frames
        flip: recorded_def)
qed


lemma by_key_map: "by_key k n (map f xs) = map_option f (by_key (\<lambda>x. k (f x)) n xs)"
  by (induction xs) simp_all

lemma by_key_rev: "distinct (map k xs) \<Longrightarrow> by_key k n (rev xs) = by_key k n xs"
  by (rule by_key_cong_set) (simp_all add: rev_map [symmetric])

lemma recorded_routers:
  assumes "distinct (map ls_origRouter (n_adjLsdb st))" and "distinct (map ls_origRouter (n_corLsdb st))"
    and "distinct (map ls_origRouter (n_nameLsdb st))"
  shows "router_of n (recorded L T st nlsrc_empty) = shown_router L T st n"
proof -
  let ?now = "io_system_now (n_io st)"
  have adj: "distinct (map (\<lambda>l. ti_originRouter (tal_info l)) (adj_getTlvLsas st))"
    using assms(1) by (simp add: adj_getTlvLsas_def comp_def)
  have cor: "distinct (map (\<lambda>l. ti_originRouter (tcl_info l)) (cor_getTlvLsas st))"
    using assms(2) by (simp add: cor_getTlvLsas_def comp_def)
  have nam: "distinct (map (\<lambda>l. ti_originRouter (tnl_info l)) (name_getTlvLsas st))"
    using assms(3) by (simp add: name_getTlvLsas_def comp_def)
  have found: "by_key (\<lambda>l. ti_originRouter (tal_info l)) n (adj_getTlvLsas st) = map_option (tlv_adj_lsa_of ?now) (by_key ls_origRouter n (n_adjLsdb st))"
    "by_key (\<lambda>l. ti_originRouter (tcl_info l)) n (cor_getTlvLsas st) = map_option (tlv_cor_lsa_of ?now) (by_key ls_origRouter n (n_corLsdb st))"
    "by_key (\<lambda>l. ti_originRouter (tnl_info l)) n (name_getTlvLsas st) = map_option (tlv_name_lsa_of ?now) (by_key ls_origRouter n (n_nameLsdb st))"
    by (simp_all add: adj_getTlvLsas_def cor_getTlvLsas_def name_getTlvLsas_def by_key_map del: tlv_lsas_of, simp_all)
  have empty: "router_of n nlsrc_empty = None" by (simp add: router_of_def nlsrc_empty_def)
  have revs: "distinct (map (\<lambda>l. ti_originRouter (tal_info l)) (rev (adj_getTlvLsas st)))"
    "distinct (map (\<lambda>l. ti_originRouter (tcl_info l)) (rev (cor_getTlvLsas st)))"
    "distinct (map (\<lambda>l. ti_originRouter (tnl_info l)) (rev (name_getTlvLsas st)))"
    using adj cor nam by (simp_all add: rev_map [symmetric])
  show ?thesis
    unfolding recorded_def record_folds fold_on_router [OF revs(1)] fold_on_router [OF revs(2)] fold_on_router [OF revs(3)]
      by_key_rev [OF adj] by_key_rev [OF cor] by_key_rev [OF nam] found empty shown_router_def
    by (cases "by_key ls_origRouter n (n_adjLsdb st)"; cases "by_key ls_origRouter n (n_corLsdb st)";
        cases "by_key ls_origRouter n (n_nameLsdb st)") (simp_all add: router_empty_def Let_def del: tlv_lsas_of)
qed

lemma recorded_sorted:
  assumes "name_order_ok L"
  shows "routers_sorted L (recorded L T st nlsrc_empty)"
proof -
  have "routers_sorted L nlsrc_empty" by (simp add: routers_sorted_def nlsrc_empty_def)
  then show ?thesis
    unfolding recorded_def record_folds by (intro fold_on_router_sorted assms)
qed


section \<open>Examples\<close>

definition demo_cor :: cor_lsa where
  "demo_cor = mkCoordinateLsa [''n'', ''s'', ''r''] COR_TYPE (ucast (1 :: 64 word)) 3600000000000 0 0"

definition demo_nam :: name_lsa where
  "demo_nam = mkNameLsa [''n'', ''s'', ''r''] NAME_TYPE (ucast (1 :: 64 word)) 3600000000000 [[''p'']]"

lemma demo_database: "map (\<lambda>st. (io_system_now (n_io st), n_adjLsdb st, n_corLsdb st, n_nameLsdb st)) [demo_start] =
   [(0, [], [demo_cor], [demo_nam])]"
  by code_simp

definition demo_status :: lsdb_status where
  "demo_status = \<lparr>st_adjacencyLsas = [], st_coordinateLsas = [tlv_cor_lsa_of 0 demo_cor],
     st_nameLsas = [tlv_name_lsa_of 0 demo_nam], st_hasAdjacencyLsas = False,
     st_hasCoordinateLsas = True, st_hasNameLsas = True\<rparr>"

lemma demo_status_length: "length (snd (add_part (status_wireEncode demo_tlv demo_status) (0, []))) = 326"
  by code_simp

lemma demo_publishable: "publishable demo_tlv demo_start"
proof -
  note db = demo_database [simplified]
  have "status_of demo_start = demo_status"
    by (rule lsdb_status.equality)
       (simp_all add: demo_status_def adj_getTlvLsas_def cor_getTlvLsas_def name_getTlvLsas_def db del: tlv_lsas_of)
  then have "length (snd (status_generate demo_tlv demo_start [])) < 2 ^ 64"
    by (simp add: status_generate_def demo_status_length)
  moreover have "tl_isDouble demo_tlv 0" by (simp add: demo_tlv_def)
  ultimately show ?thesis
    by (simp add: publishable_def db int64_time_def demo_cor_def demo_nam_def mkCoordinateLsa_def mkNameLsa_def
        cor_lsa_default_def name_lsa_default_def addName_def)
qed



end
