(* ===== verification/Spec2Isabelle.thy ===== *)
theory Spec2Isabelle
  imports
    Prelude Names Demo_Library Runtime Sequencing Conf Name_Prefix_List Adjacency Nexthop
    Lsa Lsa_Text Lsdb_Lists Router_Map Fib Fib_Timers Routing_Table Npt
    Adj_Matrix Dijkstra Calculator Hyperbolic Statistics Nlsr_State Lsdb
    Lsdb_Exchange Sync_Handler Hello Prefix_Update Daemon
    Tables_Steps Nlsr_Invariant Lsdb_Invariant Daemon_Invariant System Npt_Origins Demo_Run
    System_Properties Database_Properties Operation_Properties
    Demo_Network Route_Properties Message_Properties Forwarding_Properties
    Sync_Digest Sync_State Sync_Content Sync_Logic Sync_Convergence Sync_Runs Demo_Sync
    Sync_Properties Sync_Interests Sync_Daemon Conf_File Conf_Properties
    Tlv Tlv_Lsas Tlv_Codec Demo_Tlv Dataset Nlsrc Dataset_Properties
begin

text \<open>
A verification development for NLSR, the Named Data Link State Routing daemon
  (src/src) and of the sync protocol it uses (src/nsync). A router keeps link-state advertisements (LSAs) of all routers, computes from
  them the routes to every router, attaches the name prefixes that routers advertise, and
  installs the result in the forwarder (NFD) on its host.

  How the parts fit together. Neighbors are watched by the hello protocol; a change of their
  status leads to a new adjacency LSA. LSAs are put in the link-state database, own ones when
  they are built, others when the sync protocol announces a newer sequence number and the LSA
  has been fetched. A change of the database schedules a calculation of the routing table;
  its next hops go through the name prefix table into the FIB, and the FIB registers them
  with the forwarder.

  The theories, with the code they model.

  Prelude, Names, Demo_Library: lists with keys and sorting; NDN names and the functions of
  ndn-cxx and boost the code calls, as the record \<open>ndn_lib\<close>, an argument of every definition
  that uses one of them; laws of these functions, each a predicate that a property names as a
  hypothesis, and one implementation that satisfies all of them. Runtime: clocks, the
  scheduler's agenda and the trace of what is sent. What is received is the argument of the
  handlers.

  Sequencing (sequencing-manager), Conf (conf-parameter.hpp), Name_Prefix_List, Adjacency
  (adjacent, adjacency-list), Nexthop (nexthop, nexthop-list), Statistics: one record each
  with the fields of the class, one definition per method.

  Lsa, Lsa_Text (lsa.cpp): the three kinds of LSA, their text form and the parser, with the
  places where an iterator would run past its end as a result of its own. Lsdb_Lists: lookups.

  Router_Map (map), Adj_Matrix, Dijkstra, Calculator, Hyperbolic (routing-table-calculator.cpp),
  Routing_Table: the calculation of routes. Dijkstra's loop is a function with a termination
  proof (its measure is the number of routers not yet explored), the walk up the parents is a
  partial function, so that a cycle would be the result None; \<open>calculation_returns\<close> excludes it.
  Costs are real numbers where the code has double.

  Fib, Fib_Timers (fib.cpp), Npt (name-prefix-table): the tables towards the forwarder, their
  consistency \<open>tables_ok\<close>, the timers and the commands. The fuel 4 of \<open>refused_registrations\<close>
  and \<open>refused_strategies\<close> is one more than the three retries of the code.

  Nlsr_State, Lsdb, Lsdb_Exchange (lsdb.cpp): the state of the daemon and the operations of
  the link-state database on it; an exception that leaves a handler is the left side of a
  sum. Sync_Handler (communication/sync-logic-handler.cpp), Hello (hello-protocol.cpp),
  Prefix_Update (update/prefix-update-processor.cpp), Daemon (nlsr.cpp, certificate-store.hpp):
  the other handlers on the same state.

  Tables_Steps, Nlsr_Invariant, Lsdb_Invariant, Daemon_Invariant: the invariant \<open>nlsr_ok\<close> of the
  daemon's state and that every handler keeps it (\<open>kept E\<close>: or raises an exception of the set
  \<open>E\<close>). System: the handlers as the steps of a transition system, what is received and which
  callback runs being arbitrary, and the invariant of all reachable states.

  Conf_File (conf-file-processor.cpp, nlsr-runner.cpp): the configuration file, section by
  section, the start of the daemon with the result and its clean-up after an exception. The parser of the file, the conversions
  of values, the file system and the loading of validators are the record \<open>conf_lib\<close>, an
  argument. Conf_Properties: an accepted file leaves the parameters within their limits and
  the daemon in a state from which System starts.

  Npt_Origins: which prefixes of which routers the name prefix table holds, and that this
  agrees with the stored Name LSAs in every reachable state.

  Sync_Digest (sync-digest.cc), Sync_State (sync-seq-no.h, the leaves, sync-full-state.cc,
  sync-diff-state.cc, sync-state.cc), Sync_Logic (sync-interest-table.cc, sync-logic.cc,
  sync-socket.cc): the sync protocol. The hash function, the generated functions for messages,
  the random generator, the bytes of an integer and the order of an unordered container are
  the record \<open>sync_lib\<close>, an argument, with laws like those of \<open>ndn_lib\<close>. The application is a
  component of the state on which the callbacks act. The objects of the log of differences stay
  at their addresses, since a later one is linked from the one before it; the walk along the
  links is a partial function. The loop that answers pending Interests has one more step of fuel
  than there are entries, the rounds of a recovery nine.

  Sync_Content: what a state says of each name, the composition of differences. Sync_Convergence,
  Sync_Runs: the log of differences is right as long as numbers grow and nothing is removed,
  in every run of the protocol. Sync_Properties, Sync_Interests: two replicas end with the same
  state, pending Interests are answered, recoveries end, what a received Interest can raise,
  and an example that without these conditions replicas may stay different. Sync_Daemon: the
  callbacks of the daemon, and a published number on its way to another router's daemon.
  Demo_Sync: one implementation of the library functions.

  Demo_Network, Demo_Run: a small network and a run of the daemon for examples.
  Route_Properties, Forwarding_Properties, Message_Properties, System_Properties,
  Database_Properties, Operation_Properties: the properties of the daemon, each with an example at which it
  is applied.

  Tlv, Tlv_Lsas (tlv): the blocks in which the database is published, their encoders, decoders
  and cached copies; the elementary encodings of ndn-cxx are the record \<open>tlv_lib\<close>, an argument,
  with the laws \<open>tlv_ok\<close>. Tlv_Codec: every decoder reads what its encoder wrote. Dataset
  (publisher): the datasets, their segments and the handler of the Interests for them. Nlsrc
  (src/tools/nlsrc.cpp): the command line tool; its loop over a dataset is a partial function,
  since the blocks it reads could be empty, and is shown to return on what the daemon sends.
  Dataset_Properties: the segments, the decoded dataset, and that the status shown by the tool
  is the database of the daemon. Demo_Tlv: one implementation of the library functions.

  Interfaces. A locale states what one component relies on: \<open>min_cost_table\<close> (a table that keeps
  the least cost per key: next hop lists and the routing table), \<open>last_value_store\<close> (the face
  map), \<open>name_collection\<close> (the list of prefixes), \<open>numbering\<close> (the router map),
  \<open>strict_weak_order\<close> (the order of next hops), \<open>sync_store\<close> (a state made by
  updates and removals of names: full and differential states), \<open>tlv_codec\<close> (an encoder and
  the decoder of the same blocks). Each is interpreted where its provider is.

  Not modelled: logging, printing of the daemon and statistics files, the start of the process
  (main.cpp, the options of nlsrc, daemonize, set-up of the loggers), keys, certificates and
  validation (validator.hpp and the rules of the validators are calls of ndn-cxx; the calls and
  the code's reaction to their results are modelled), generated code (the wire form of the
  messages of the sync protocol) and the tests. They are input and output, or code that is not
  in the repository.
\<close>

end
